theory Spec2Isabelle
  imports Main "HOL-Library.Sublist"
begin

section \<open>JavaScript values used by the server\<close>

text \<open>
  The server (\<^verbatim>\<open>src/server/index.js\<close>) reshapes rows of the analytics API. Every value
  of a row arrives as a string and is read with \<^verbatim>\<open>parseInt\<close>.

  Numbers: the handlers only produce integers and \<^verbatim>\<open>NaN\<close>. A number is modelled as an
  exact integer or \<open>NaN\<close>; arithmetic is exact arithmetic followed by the rounding the
  source asks for (\<^verbatim>\<open>Math.floor\<close>, \<^verbatim>\<open>Math.round\<close>). The rounding error of doubles beyond
  \<open>2^53\<close> and the distinction between \<open>0\<close> and \<open>-0\<close> are not modelled.

  Strings: a string is a list of 8-bit characters, each read as a UTF-16 code unit below
  256 (the Latin-1 range); code units from 256 on cannot be written in this type. On this
  range the operations are those of ECMAScript: the white space and line terminators are
  TAB, LF, VT, FF, CR, SP and the no-break space U+00A0 (the others, U+1680, U+2000 to
  U+200A, U+2028, U+2029, U+202F, U+205F, U+3000 and U+FEFF, lie beyond the range), and
  the letters with a lower case are \<open>A-Z\<close> and U+00C0 to U+00DE without U+00D7, each 32
  below its lower case.
\<close>

datatype jsnum = NaN | Num int

datatype jsval =
    Undefined
  | NumV jsnum
  | Str string
  | Arr "jsval list"
  | Obj "(string \<times> jsval) list"

datatype error = Rejected string | TypeError

text \<open>\<^verbatim>\<open>e.message\<close>. The text of an engine's TypeError is not fixed by the language; the
  model writes a marker for it.\<close>

fun message :: "error \<Rightarrow> string" where
  "message (Rejected m) = m"
| "message TypeError = ''TypeError''"

definition is_ws :: "char \<Rightarrow> bool" where
  "is_ws c =
     (c \<in> set [CHR 0x09, CHR 0x0A, CHR 0x0B, CHR 0x0C, CHR 0x0D, CHR '' '', CHR 0xA0])"

text \<open>\<^verbatim>\<open>String.prototype.trim\<close>.\<close>

definition trim :: "string \<Rightarrow> string" where
  "trim s = rev (dropWhile is_ws (rev (dropWhile is_ws s)))"

text \<open>\<^verbatim>\<open>String.prototype.toLowerCase\<close>.\<close>

definition lower_char :: "char \<Rightarrow> char" where
  "lower_char c =
     (let n = (of_char c :: nat) in
      if (65 \<le> n \<and> n \<le> 90) \<or> (192 \<le> n \<and> n \<le> 222 \<and> n \<noteq> 215) then char_of (n + 32)
      else c)"

definition toLowerCase :: "string \<Rightarrow> string" where
  "toLowerCase s = map lower_char s"

text \<open>\<^verbatim>\<open>String.prototype.startsWith\<close> and \<^verbatim>\<open>String.prototype.includes\<close>.\<close>

fun startsWith :: "string \<Rightarrow> string \<Rightarrow> bool" where
  "startsWith s [] = True"
| "startsWith [] (p # ps) = False"
| "startsWith (c # cs) (p # ps) = (c = p \<and> startsWith cs ps)"

fun includes_str :: "string \<Rightarrow> string \<Rightarrow> bool" where
  "includes_str [] n = (n = [])"
| "includes_str (c # cs) n = (startsWith (c # cs) n \<or> includes_str cs n)"

text \<open>The value of a digit character in \<^verbatim>\<open>parseInt\<close>: \<open>0-9\<close>, \<open>a-z\<close>, \<open>A-Z\<close>.\<close>

definition digit_val :: "char \<Rightarrow> nat option" where
  "digit_val c =
     (let n = (of_char c :: nat) in
      if 48 \<le> n \<and> n \<le> 57 then Some (n - 48)
      else if 97 \<le> n \<and> n \<le> 122 then Some (n - 87)
      else if 65 \<le> n \<and> n \<le> 90 then Some (n - 55)
      else None)"

definition is_digit :: "nat \<Rightarrow> char \<Rightarrow> bool" where
  "is_digit radix c = (case digit_val c of None \<Rightarrow> False | Some d \<Rightarrow> d < radix)"

definition digits_value :: "nat \<Rightarrow> string \<Rightarrow> nat" where
  "digits_value radix ds = foldl (\<lambda>acc c. acc * radix + the (digit_val c)) 0 ds"

text \<open>
  \<^verbatim>\<open>parseInt(string)\<close> with no radix argument (ECMAScript 19.2.5): leading white space is
  skipped, a sign is read, a prefix \<^verbatim>\<open>0x\<close> or \<^verbatim>\<open>0X\<close> selects radix 16, the longest run of
  digits of the radix is the numeral, and everything after it is ignored. With no digit
  the result is \<^verbatim>\<open>NaN\<close>.
\<close>

definition parse_sign :: "string \<Rightarrow> int \<times> string" where
  "parse_sign s =
     (case s of
        c # r \<Rightarrow> if c = CHR ''-'' then (-1, r) else if c = CHR ''+'' then (1, r) else (1, s)
      | [] \<Rightarrow> (1, s))"

definition parse_radix :: "string \<Rightarrow> nat \<times> string" where
  "parse_radix s =
     (case s of
        z # x # r \<Rightarrow>
          if z = CHR ''0'' \<and> (x = CHR ''x'' \<or> x = CHR ''X'') then (16, r) else (10, s)
      | _ \<Rightarrow> (10, s))"

definition parseInt :: "string \<Rightarrow> jsnum" where
  "parseInt s =
     (let (sign, s2) = parse_sign (dropWhile is_ws s);
          (radix, s3) = parse_radix s2;
          ds = takeWhile (is_digit radix) s3
      in if ds = [] then NaN else Num (sign * int (digits_value radix ds)))"

text \<open>A cell \<^verbatim>\<open>{value: ...}\<close> of a row; \<open>None\<close> is a cell whose \<^verbatim>\<open>value\<close> is
  \<^verbatim>\<open>undefined\<close>.\<close>

type_synonym cell = "string option"

text \<open>\<^verbatim>\<open>parseInt(c.value)\<close>: \<^verbatim>\<open>undefined\<close> is converted to the string \<^verbatim>\<open>"undefined"\<close>,
  which has no digit.\<close>

definition parseInt_value :: "cell \<Rightarrow> jsnum" where
  "parseInt_value c = (case c of None \<Rightarrow> NaN | Some s \<Rightarrow> parseInt s)"

text \<open>\<^verbatim>\<open>parseInt(c.value || 0)\<close>: \<^verbatim>\<open>undefined\<close> and the empty string are falsy and
  are replaced by \<open>0\<close>.\<close>

definition parseInt_or0 :: "cell \<Rightarrow> jsnum" where
  "parseInt_or0 c =
     (case c of None \<Rightarrow> Num 0 | Some s \<Rightarrow> if s = [] then Num 0 else parseInt s)"

section \<open>Report rows\<close>

text \<open>A row of a report: \<^verbatim>\<open>{dimensionValues: [{value}], metricValues: [{value}]}\<close>. An
  array that is absent is modelled as the empty list: reading \<^verbatim>\<open>[0].value\<close> raises a
  TypeError in both cases, and \<^verbatim>\<open>?.[0]?.value\<close> is \<^verbatim>\<open>undefined\<close> in both.\<close>

record row =
  dimensionValues :: "cell list"
  metricValues :: "cell list"

text \<open>\<^verbatim>\<open>xs[i].value\<close>: a TypeError when \<^verbatim>\<open>xs[i]\<close> is \<^verbatim>\<open>undefined\<close>.\<close>

definition value_at :: "cell list \<Rightarrow> nat \<Rightarrow> error + cell" where
  "value_at xs i = (if i < length xs then Inr (xs ! i) else Inl TypeError)"

text \<open>\<^verbatim>\<open>xs?.[i]?.value\<close>: \<^verbatim>\<open>undefined\<close> when \<^verbatim>\<open>xs[i]\<close> is.\<close>

definition value_opt :: "cell list \<Rightarrow> nat \<Rightarrow> cell" where
  "value_opt xs i = (if i < length xs then xs ! i else None)"

section \<open>The sparkline of \<^verbatim>\<open>/api/realtime\<close>\<close>

text \<open>
  \<^verbatim>\<open>
  const sparkline = Array(30).fill(0);
  (rtMinutes.data.rows || []).forEach(row => {
    const minAgo = parseInt(row.dimensionValues[0].value);
    if (minAgo >= 0 && minAgo < 30) sparkline[29 - minAgo] = parseInt(row.metricValues[0].value || 0);
  });
  \<close>
  \<open>array_set\<close> is the assignment \<^verbatim>\<open>a[i] = v\<close> of a JavaScript array: an index at or past the
  end extends the array, leaving holes; a negative index names a property that is not an
  element. \<open>minAgo\<close> is the number the callback reads from a row and \<open>write_index\<close> the
  index it assigns to (\<open>None\<close>: the guard fails, no assignment). Comparisons with
  \<^verbatim>\<open>NaN\<close> are false.
\<close>

definition array_set :: "jsval list \<Rightarrow> int \<Rightarrow> jsval \<Rightarrow> jsval list" where
  "array_set a i v =
     (if i < 0 then a
      else if nat i < length a then a[nat i := v]
      else a @ replicate (nat i - length a) Undefined @ [v])"

definition minAgo :: "row \<Rightarrow> error + jsnum" where
  "minAgo r =
     (case value_at (dimensionValues r) 0 of
        Inl e \<Rightarrow> Inl e
      | Inr c \<Rightarrow> Inr (parseInt_value c))"

definition write_index :: "jsnum \<Rightarrow> int option" where
  "write_index m =
     (case m of
        NaN \<Rightarrow> None
      | Num k \<Rightarrow> if k \<ge> 0 \<and> k < 30 then Some (29 - k) else None)"

definition spark_step :: "jsval list \<Rightarrow> row \<Rightarrow> error + jsval list" where
  "spark_step s r =
     (case minAgo r of
        Inl e \<Rightarrow> Inl e
      | Inr m \<Rightarrow>
          (case write_index m of
             None \<Rightarrow> Inr s
           | Some i \<Rightarrow>
               (case value_at (metricValues r) 0 of
                  Inl e \<Rightarrow> Inl e
                | Inr c \<Rightarrow> Inr (array_set s i (NumV (parseInt_or0 c))))))"

fun spark_forEach :: "jsval list \<Rightarrow> row list \<Rightarrow> error + jsval list" where
  "spark_forEach s [] = Inr s"
| "spark_forEach s (r # rs) =
     (case spark_step s r of Inl e \<Rightarrow> Inl e | Inr s' \<Rightarrow> spark_forEach s' rs)"

text \<open>\<^verbatim>\<open>rows || []\<close>.\<close>

definition rows_or_empty :: "row list option \<Rightarrow> row list" where
  "rows_or_empty rs = (case rs of None \<Rightarrow> [] | Some xs \<Rightarrow> xs)"

definition sparkline :: "row list option \<Rightarrow> error + jsval list" where
  "sparkline rs = spark_forEach (replicate 30 (NumV (Num 0))) (rows_or_empty rs)"

text \<open>What a row says, for stating properties: the minute it is about and its count of
  active users, as the callback reads them.\<close>

definition minutesAgo_of :: "row \<Rightarrow> jsnum" where
  "minutesAgo_of r = parseInt_value (value_opt (dimensionValues r) 0)"

definition activeUsers_of :: "row \<Rightarrow> jsnum" where
  "activeUsers_of r = parseInt_or0 (value_opt (metricValues r) 0)"

definition readable :: "row \<Rightarrow> bool" where
  "readable r = (dimensionValues r \<noteq> [] \<and> metricValues r \<noteq> [])"

section \<open>Numbers as text\<close>

definition digit_char :: "nat \<Rightarrow> char" where
  "digit_char d = char_of (48 + d)"

fun nat_toString :: "nat \<Rightarrow> string" where
  "nat_toString n =
     (if n < 10 then [digit_char n] else nat_toString (n div 10) @ [digit_char (n mod 10)])"

declare nat_toString.simps [simp del]

text \<open>\<^verbatim>\<open>Number.prototype.toString\<close> on the numbers of the model.\<close>

definition toString :: "jsnum \<Rightarrow> string" where
  "toString x =
     (case x of
        NaN \<Rightarrow> ''NaN''
      | Num i \<Rightarrow> if i < 0 then CHR ''-'' # nat_toString (nat (- i)) else nat_toString (nat i))"

text \<open>\<^verbatim>\<open>s.padStart(n, c)\<close> with a one-character filler.\<close>

definition padStart :: "nat \<Rightarrow> char \<Rightarrow> string \<Rightarrow> string" where
  "padStart n c s = replicate (n - length s) c @ s"

text \<open>\<^verbatim>\<open>Math.floor(x / d)\<close>, \<^verbatim>\<open>x % d\<close> (the sign of the remainder is the sign of \<open>x\<close>)
  and \<^verbatim>\<open>Math.round(x / d)\<close> (halves round up) for a positive integer \<open>d\<close>.\<close>

definition floor_div :: "jsnum \<Rightarrow> int \<Rightarrow> jsnum" where
  "floor_div x d = (case x of NaN \<Rightarrow> NaN | Num a \<Rightarrow> Num (a div d))"

definition js_rem :: "jsnum \<Rightarrow> int \<Rightarrow> jsnum" where
  "js_rem x d = (case x of NaN \<Rightarrow> NaN | Num a \<Rightarrow> Num (sgn a * (\<bar>a\<bar> mod d)))"

definition round_div :: "jsnum \<Rightarrow> int \<Rightarrow> jsnum" where
  "round_div x d = (case x of NaN \<Rightarrow> NaN | Num a \<Rightarrow> Num ((2 * a + d) div (2 * d)))"

text \<open>\<^verbatim>\<open>x || y\<close> on numbers: \<open>0\<close> and \<^verbatim>\<open>NaN\<close> are falsy.\<close>

definition truthy :: "jsnum \<Rightarrow> bool" where
  "truthy x = (case x of NaN \<Rightarrow> False | Num a \<Rightarrow> a \<noteq> 0)"

definition js_or :: "jsnum \<Rightarrow> jsnum \<Rightarrow> jsnum" where
  "js_or x y = (if truthy x then x else y)"

section \<open>The derived fields of \<^verbatim>\<open>/api/realtime\<close>\<close>

text \<open>
  \<^verbatim>\<open>
  avgDuration: `${Math.floor(dur / 60)}:${(dur % 60).toString().padStart(2, '0')}`
  \<close>
\<close>

definition avgDuration :: "jsnum \<Rightarrow> string" where
  "avgDuration dur =
     toString (floor_div dur 60) @ '':'' @ padStart 2 (CHR ''0'') (toString (js_rem dur 60))"

text \<open>
  \<^verbatim>\<open>
  const lastMinRow = (rtMinutes.data.rows || []).find(r => r.dimensionValues[0].value === '0');
  const pvPerMin = parseInt(lastMinRow?.metricValues?.[0]?.value || 0);
  const mins = Math.max(now.getHours() * 60 + now.getMinutes(), 1);
  pageviewsPerMin: pvPerMin || Math.round(totalPv / mins)
  \<close>
\<close>

fun lastMinRow :: "row list \<Rightarrow> error + row option" where
  "lastMinRow [] = Inr None"
| "lastMinRow (r # rs) =
     (case value_at (dimensionValues r) 0 of
        Inl e \<Rightarrow> Inl e
      | Inr c \<Rightarrow> if c = Some ''0'' then Inr (Some r) else lastMinRow rs)"

definition pvPerMin :: "row option \<Rightarrow> jsnum" where
  "pvPerMin lastMin =
     (case lastMin of None \<Rightarrow> Num 0 | Some r \<Rightarrow> parseInt_or0 (value_opt (metricValues r) 0))"

record date =
  getFullYear :: nat
  getMonth :: nat
  getHours :: nat
  getMinutes :: nat

definition mins_elapsed :: "date \<Rightarrow> int" where
  "mins_elapsed d = max (int (getHours d) * 60 + int (getMinutes d)) 1"

definition pageviewsPerMin :: "jsnum \<Rightarrow> jsnum \<Rightarrow> int \<Rightarrow> jsnum" where
  "pageviewsPerMin pv totalPv mins = js_or pv (round_div totalPv mins)"

text \<open>The field as the handler computes it from the rows of the per-minute query, the
  total of today and the clock.\<close>

definition realtime_pageviewsPerMin :: "row list option \<Rightarrow> jsnum \<Rightarrow> date \<Rightarrow> error + jsnum" where
  "realtime_pageviewsPerMin rs totalPv d =
     (case lastMinRow (rows_or_empty rs) of
        Inl e \<Rightarrow> Inl e
      | Inr lm \<Rightarrow> Inr (pageviewsPerMin (pvPerMin lm) totalPv (mins_elapsed d)))"

section \<open>Requests to the analytics API\<close>

datatype match_type = CONTAINS

datatype filter_expr =
    StringFilter string match_type string
  | OrGroup "filter_expr list"

text \<open>The \<^verbatim>\<open>requestBody\<close> of a report. An order is a metric name and \<^verbatim>\<open>desc\<close>.\<close>

record request =
  dateRanges :: "(string \<times> string) list"
  metrics :: "string list"
  dimensions :: "string list"
  dimensionFilter :: "filter_expr option"
  orderBys :: "(string \<times> bool) list"
  limit :: "nat option"

definition no_request :: request where
  "no_request =
     \<lparr>dateRanges = [], metrics = [], dimensions = [], dimensionFilter = None,
      orderBys = [], limit = None\<rparr>"

text \<open>A call of the client built by \<^verbatim>\<open>ga(user)\<close>: the access token, the property (or the
  metadata name) and the request.\<close>

datatype api_call =
    RunRealtimeReport string string request
  | RunReport string string request
  | GetMetadata string string

record dim_meta =
  apiName :: "string option"
  uiName :: "string option"
  description :: "string option"

text \<open>\<^verbatim>\<open>response.data\<close>: the handlers read \<^verbatim>\<open>rows\<close> or \<^verbatim>\<open>dimensions\<close>, each of which may
  be absent.\<close>

record api_data =
  data_rows :: "row list option"
  data_dimensions :: "dim_meta list option"

text \<open>The user of the session; of its fields only the access token reaches the handlers
  under \<^verbatim>\<open>/api\<close>.\<close>

record user =
  accessToken :: string

section \<open>The response cache\<close>

text \<open>
  Modelled from the spec: the cache is the package \<^verbatim>\<open>node-cache\<close>, whose code is not
  part of the sources. The spec describes an entry as key, value and \<open>expiresAt\<close>, a
  \<open>set\<close> with a time to live in seconds, and a read after expiry as a miss. Times are
  milliseconds, as \<^verbatim>\<open>Date.now()\<close> gives them.
\<close>

type_synonym cache = "string \<Rightarrow> (jsval \<times> nat) option"

definition cache_get :: "cache \<Rightarrow> nat \<Rightarrow> string \<Rightarrow> jsval option" where
  "cache_get c t k =
     (case c k of None \<Rightarrow> None | Some (v, expiresAt) \<Rightarrow> if t \<le> expiresAt then Some v else None)"

definition cache_has :: "cache \<Rightarrow> nat \<Rightarrow> string \<Rightarrow> bool" where
  "cache_has c t k = (cache_get c t k \<noteq> None)"

definition cache_set :: "cache \<Rightarrow> nat \<Rightarrow> string \<Rightarrow> jsval \<Rightarrow> nat \<Rightarrow> cache" where
  "cache_set c t k v ttl = c(k \<mapsto> (v, t + 1000 * ttl))"

section \<open>A request and its environment\<close>

text \<open>
  What a handler reads from outside: the user of the session (\<open>None\<close>: not
  authenticated), the property id, what the analytics API answers to each call (a
  rejection with its message, or the data), the order in which the calls settle, the
  local date, the clock at the three cache operations, and \<open>toFixed1 s\<close> for
  \<^verbatim>\<open>parseFloat(s).toFixed(1)\<close>, which is floating point and stays a parameter.
\<close>

record env =
  req_user :: "user option"
  GA4_PROPERTY_ID :: string
  upstream :: "api_call \<Rightarrow> string + api_data"
  settled :: "api_call \<Rightarrow> nat"
  now :: date
  clock_has :: nat
  clock_get :: nat
  clock_set :: nat
  toFixed1 :: "string \<Rightarrow> string"

record response =
  status :: nat
  body :: jsval

type_synonym outcome = "response \<times> api_call list \<times> cache"

definition PROP_name :: "env \<Rightarrow> string" where
  "PROP_name e = ''properties/'' @ GA4_PROPERTY_ID e"

text \<open>\<^verbatim>\<open>res.json(v)\<close> and the \<^verbatim>\<open>catch\<close> of every handler. The body of a response is the
  value handed to \<^verbatim>\<open>res.json\<close>, before it is written as JSON text.\<close>

definition json :: "jsval \<Rightarrow> response" where
  "json v = \<lparr>status = 200, body = v\<rparr>"

definition error_500 :: "error \<Rightarrow> response" where
  "error_500 e = \<lparr>status = 500, body = Obj [(''error'', Str (message e))]\<rparr>"

text \<open>\<^verbatim>\<open>await\<close> of one call.\<close>

definition await :: "env \<Rightarrow> api_call \<Rightarrow> error + api_data" where
  "await e q = (case upstream e q of Inl m \<Rightarrow> Inl (Rejected m) | Inr d \<Rightarrow> Inr d)"

text \<open>
  \<^verbatim>\<open>Promise.all\<close>: every promise is already started; the result is the list of values if
  all are fulfilled, and otherwise the rejection that settles first.
\<close>

definition rejections :: "(nat \<times> (string + 'a)) list \<Rightarrow> (nat \<times> string) list" where
  "rejections ps = concat (map (\<lambda>(t, r). case r of Inl m \<Rightarrow> [(t, m)] | Inr v \<Rightarrow> []) ps)"

definition fulfilled :: "(nat \<times> (string + 'a)) list \<Rightarrow> 'a list" where
  "fulfilled ps = concat (map (\<lambda>(t, r). case r of Inl m \<Rightarrow> [] | Inr v \<Rightarrow> [v]) ps)"

definition Promise_all :: "(nat \<times> (string + 'a)) list \<Rightarrow> error + 'a list" where
  "Promise_all ps =
     (if rejections ps = [] then Inr (fulfilled ps)
      else Inl (Rejected (snd (arg_min_list fst (rejections ps)))))"

text \<open>\<^verbatim>\<open>if (cache.has(k)) return res.json(cache.get(k));\<close> and what follows it. The two
  reads of the cache each take the clock; a \<^verbatim>\<open>get\<close> that finds nothing is \<^verbatim>\<open>undefined\<close>.\<close>

definition cached :: "env \<Rightarrow> cache \<Rightarrow> string \<Rightarrow> outcome \<Rightarrow> outcome" where
  "cached e c k miss =
     (if cache_has c (clock_has e) k
      then (json (case cache_get c (clock_get e) k of None \<Rightarrow> Undefined | Some v \<Rightarrow> v), [], c)
      else miss)"

text \<open>\<^verbatim>\<open>`${now.getFullYear()}-${String(now.getMonth() + 1).padStart(2, '0')}-01`\<close>\<close>

definition startOfMonth :: "date \<Rightarrow> string" where
  "startOfMonth d =
     toString (Num (int (getFullYear d))) @ ''-''
       @ padStart 2 (CHR ''0'') (toString (Num (int (getMonth d) + 1))) @ ''-01''"

text \<open>\<^verbatim>\<open>rows?.[0]?.metricValues || []\<close> and a cell as a value of a response.\<close>

definition first_metrics :: "row list option \<Rightarrow> cell list" where
  "first_metrics rs = (case rs of Some (r # _) \<Rightarrow> metricValues r | _ \<Rightarrow> [])"

definition cell_val :: "cell \<Rightarrow> jsval" where
  "cell_val c = (case c of None \<Rightarrow> Undefined | Some s \<Rightarrow> Str s)"

text \<open>\<^verbatim>\<open>rows.map((row, i) => ...)\<close> with a callback that may raise.\<close>

fun map_index :: "(nat \<Rightarrow> row \<Rightarrow> error + jsval) \<Rightarrow> nat \<Rightarrow> row list \<Rightarrow> error + jsval list" where
  "map_index f i [] = Inr []"
| "map_index f i (r # rs) =
     (case f i r of
        Inl e \<Rightarrow> Inl e
      | Inr v \<Rightarrow> (case map_index f (Suc i) rs of Inl e \<Rightarrow> Inl e | Inr vs \<Rightarrow> Inr (v # vs)))"

section \<open>\<^verbatim>\<open>GET /api/realtime\<close>\<close>

text \<open>The four requests inside \<^verbatim>\<open>Promise.all\<close>, in the order of the source.\<close>

definition realtime_calls :: "env \<Rightarrow> user \<Rightarrow> api_call list" where
  "realtime_calls e u =
     [RunRealtimeReport (accessToken u) (PROP_name e)
        (no_request\<lparr>metrics := [''activeUsers'']\<rparr>),
      RunRealtimeReport (accessToken u) (PROP_name e)
        (no_request\<lparr>metrics := [''activeUsers''], dimensions := [''minutesAgo'']\<rparr>),
      RunReport (accessToken u) (PROP_name e)
        (no_request\<lparr>dateRanges := [(''today'', ''today'')],
                     metrics := [''sessions'', ''screenPageViews'']\<rparr>),
      RunReport (accessToken u) (PROP_name e)
        (no_request\<lparr>dateRanges := [(startOfMonth (now e), ''today'')],
                     metrics := [''bounceRate'', ''averageSessionDuration'']\<rparr>)]"

text \<open>\<^verbatim>\<open>parseFloat(month[0]?.value || 0).toFixed(1) + '%'\<close>\<close>

definition bounceRate :: "env \<Rightarrow> cell \<Rightarrow> string" where
  "bounceRate e c =
     toFixed1 e (case c of None \<Rightarrow> ''0'' | Some s \<Rightarrow> if s = [] then ''0'' else s) @ ''%''"

text \<open>The body of the handler after \<^verbatim>\<open>Promise.all\<close>: the object \<^verbatim>\<open>d\<close>.\<close>

definition realtime_shape ::
  "env \<Rightarrow> api_data \<Rightarrow> api_data \<Rightarrow> api_data \<Rightarrow> api_data \<Rightarrow> error + jsval" where
  "realtime_shape e rtTotal rtMinutes todayStats monthStats =
     (let active = parseInt_or0 (value_opt (first_metrics (data_rows rtTotal)) 0) in
      case sparkline (data_rows rtMinutes) of
        Inl err \<Rightarrow> Inl err
      | Inr spark \<Rightarrow>
          (case lastMinRow (rows_or_empty (data_rows rtMinutes)) of
             Inl err \<Rightarrow> Inl err
           | Inr lm \<Rightarrow>
               (let today = first_metrics (data_rows todayStats);
                    month = first_metrics (data_rows monthStats);
                    totalPv = parseInt_or0 (value_opt today 1);
                    mins = mins_elapsed (now e);
                    dur = parseInt_or0 (value_opt month 1)
                in Inr (Obj
                     [(''activeUsers'', NumV active),
                      (''bounceRate'', Str (bounceRate e (value_opt month 0))),
                      (''avgDuration'', Str (avgDuration dur)),
                      (''pageviewsPerMin'', NumV (pageviewsPerMin (pvPerMin lm) totalPv mins)),
                      (''newPerMin'', NumV (round_div (parseInt_or0 (value_opt today 0)) mins)),
                      (''sparkline'', Arr spark)]))))"

text \<open>The handler after the cache check. A destructuring of fewer than four values
  would leave \<^verbatim>\<open>undefined\<close> names, whose \<^verbatim>\<open>.data\<close> raises a TypeError.\<close>

definition realtime_miss :: "env \<Rightarrow> user \<Rightarrow> cache \<Rightarrow> outcome" where
  "realtime_miss e u c =
     (let calls = realtime_calls e u in
      case Promise_all (map (\<lambda>q. (settled e q, upstream e q)) calls) of
        Inl err \<Rightarrow> (error_500 err, calls, c)
      | Inr ds \<Rightarrow>
          (case ds of
             [rtTotal, rtMinutes, todayStats, monthStats] \<Rightarrow>
               (case realtime_shape e rtTotal rtMinutes todayStats monthStats of
                  Inl err \<Rightarrow> (error_500 err, calls, c)
                | Inr d \<Rightarrow> (json d, calls, cache_set c (clock_set e) ''rt'' d 10))
           | _ \<Rightarrow> (error_500 TypeError, calls, c)))"

definition realtime :: "env \<Rightarrow> user \<Rightarrow> cache \<Rightarrow> outcome" where
  "realtime e u c = cached e c ''rt'' (realtime_miss e u c)"

section \<open>\<^verbatim>\<open>GET /api/top-news\<close>\<close>

definition top_news_call :: "env \<Rightarrow> user \<Rightarrow> api_call" where
  "top_news_call e u =
     RunRealtimeReport (accessToken u) (PROP_name e)
       (no_request\<lparr>metrics := [''activeUsers''], dimensions := [''unifiedScreenName''],
                    orderBys := [(''activeUsers'', True)], limit := Some 10\<rparr>)"

definition top_news_row :: "nat \<Rightarrow> row \<Rightarrow> error + jsval" where
  "top_news_row i r =
     (case value_at (dimensionValues r) 0 of
        Inl err \<Rightarrow> Inl err
      | Inr t \<Rightarrow>
          (case value_at (metricValues r) 0 of
             Inl err \<Rightarrow> Inl err
           | Inr m \<Rightarrow>
               Inr (Obj [(''rank'', NumV (Num (int i + 1))), (''title'', cell_val t),
                         (''activeUsers'', NumV (parseInt_value m))])))"

definition top_news_miss :: "env \<Rightarrow> user \<Rightarrow> cache \<Rightarrow> outcome" where
  "top_news_miss e u c =
     (let q = top_news_call e u in
      case await e q of
        Inl err \<Rightarrow> (error_500 err, [q], c)
      | Inr d \<Rightarrow>
          (case map_index top_news_row 0 (rows_or_empty (data_rows d)) of
             Inl err \<Rightarrow> (error_500 err, [q], c)
           | Inr rows \<Rightarrow> (json (Arr rows), [q], cache_set c (clock_set e) ''top10'' (Arr rows) 10)))"

definition top_news :: "env \<Rightarrow> user \<Rightarrow> cache \<Rightarrow> outcome" where
  "top_news e u c = cached e c ''top10'' (top_news_miss e u c)"

section \<open>\<^verbatim>\<open>GET /api/state-news/:state\<close>\<close>

text \<open>
  \<^verbatim>\<open>STATE_PATH_MAP[state] || [`/${state}/`]\<close>. The map is an object literal, so the
  lookup also finds what it inherits from \<^verbatim>\<open>Object.prototype\<close>; of those names only
  \<^verbatim>\<open>constructor\<close> and \<^verbatim>\<open>__proto__\<close> are lower case, their values are truthy and have no
  \<^verbatim>\<open>map\<close>, and \<^verbatim>\<open>paths.map\<close> raises a TypeError.
\<close>

definition STATE_PATH_MAP :: "string \<Rightarrow> string list option" where
  "STATE_PATH_MAP state =
     (if state = ''mp'' then Some [''/mp/'', ''/state/madhya-pradesh/'']
      else if state = ''cg'' then Some [''/cg/'', ''/state/chhattisgarh/'']
      else if state = ''rj'' then Some [''/rj/'', ''/state/rajasthan/'']
      else None)"

definition state_paths :: "string \<Rightarrow> error + string list" where
  "state_paths state =
     (case STATE_PATH_MAP state of
        Some ps \<Rightarrow> Inr ps
      | None \<Rightarrow>
          if state = ''constructor'' \<or> state = ''__proto__'' then Inl TypeError
          else Inr [''/'' @ state @ ''/''])"

definition state_news_request :: "string list \<Rightarrow> request" where
  "state_news_request paths =
     \<lparr>dateRanges = [(''7daysAgo'', ''today'')],
      metrics = [''screenPageViews''],
      dimensions = [''pageTitle'', ''pagePath''],
      dimensionFilter = Some (OrGroup (map (\<lambda>p. StringFilter ''pagePath'' CONTAINS p) paths)),
      orderBys = [(''screenPageViews'', True)],
      limit = Some 5\<rparr>"

definition state_news_row :: "nat \<Rightarrow> row \<Rightarrow> error + jsval" where
  "state_news_row i r =
     (case value_at (dimensionValues r) 0 of
        Inl err \<Rightarrow> Inl err
      | Inr t \<Rightarrow>
          (case value_at (dimensionValues r) 1 of
             Inl err \<Rightarrow> Inl err
           | Inr p \<Rightarrow>
               (case value_at (metricValues r) 0 of
                  Inl err \<Rightarrow> Inl err
                | Inr m \<Rightarrow>
                    Inr (Obj [(''rank'', NumV (Num (int i + 1))), (''title'', cell_val t),
                              (''path'', cell_val p), (''views'', NumV (parseInt_value m))]))))"

definition state_key :: "string \<Rightarrow> string" where
  "state_key param = ''state_'' @ toLowerCase param"

definition state_news_call :: "env \<Rightarrow> user \<Rightarrow> string list \<Rightarrow> api_call" where
  "state_news_call e u paths = RunReport (accessToken u) (PROP_name e) (state_news_request paths)"

definition state_news_miss :: "string \<Rightarrow> env \<Rightarrow> user \<Rightarrow> cache \<Rightarrow> outcome" where
  "state_news_miss state e u c =
     (case state_paths state of
        Inl err \<Rightarrow> (error_500 err, [], c)
      | Inr paths \<Rightarrow>
          (let q = state_news_call e u paths in
           case await e q of
             Inl err \<Rightarrow> (error_500 err, [q], c)
           | Inr d \<Rightarrow>
               (case map_index state_news_row 0 (rows_or_empty (data_rows d)) of
                  Inl err \<Rightarrow> (error_500 err, [q], c)
                | Inr rows \<Rightarrow>
                    (json (Arr rows), [q],
                     cache_set c (clock_set e) (''state_'' @ state) (Arr rows) 300))))"

definition state_news :: "string \<Rightarrow> env \<Rightarrow> user \<Rightarrow> cache \<Rightarrow> outcome" where
  "state_news param e u c =
     (let state = toLowerCase param in
      cached e c (''state_'' @ state) (state_news_miss state e u c))"

text \<open>
  Modelled from the spec: which rows the analytics API selects for a filter is decided
  by the API, not by the sources. The spec reads the filter of this request as
  substring filters combined by OR; \<open>rowval\<close> gives the value of a row for a field name.
  How the API treats letter case is outside the sources; the substring is matched as
  written.
\<close>

fun matches :: "filter_expr \<Rightarrow> (string \<Rightarrow> string) \<Rightarrow> bool" where
  "matches (StringFilter name CONTAINS v) rowval = includes_str (rowval name) v"
| "matches (OrGroup fs) rowval = (\<exists>f \<in> set fs. matches f rowval)"

section \<open>\<^verbatim>\<open>GET /api/top-authors\<close>\<close>

text \<open>
  \<^verbatim>\<open>
  .filter(row => {
    const n = row.dimensionValues[0].value;
    return n && n !== '(not set)' && n !== '(not provided)' && n.trim() !== '';
  })
  \<close>
\<close>

definition named :: "cell \<Rightarrow> bool" where
  "named n =
     (case n of
        None \<Rightarrow> False
      | Some s \<Rightarrow> s \<noteq> [] \<and> s \<noteq> ''(not set)'' \<and> s \<noteq> ''(not provided)'' \<and> trim s \<noteq> [])"

fun filter_named :: "row list \<Rightarrow> error + row list" where
  "filter_named [] = Inr []"
| "filter_named (r # rs) =
     (case value_at (dimensionValues r) 0 of
        Inl err \<Rightarrow> Inl err
      | Inr n \<Rightarrow>
          (case filter_named rs of
             Inl err \<Rightarrow> Inl err
           | Inr ks \<Rightarrow> Inr (if named n then r # ks else ks)))"

definition author_row :: "nat \<Rightarrow> row \<Rightarrow> error + jsval" where
  "author_row i r =
     (case value_at (dimensionValues r) 0 of
        Inl err \<Rightarrow> Inl err
      | Inr n \<Rightarrow>
          (case value_at (metricValues r) 0 of
             Inl err \<Rightarrow> Inl err
           | Inr v \<Rightarrow>
               (case value_at (metricValues r) 1 of
                  Inl err \<Rightarrow> Inl err
                | Inr a \<Rightarrow>
                    Inr (Obj [(''rank'', NumV (Num (int i + 1))), (''name'', cell_val n),
                              (''views'', NumV (parseInt_value v)),
                              (''articles'', NumV (parseInt_value a))]))))"

definition author_call :: "env \<Rightarrow> user \<Rightarrow> string \<Rightarrow> api_call" where
  "author_call e u dim =
     RunReport (accessToken u) (PROP_name e)
       (no_request\<lparr>dateRanges := [(startOfMonth (now e), ''today'')],
                    metrics := [''screenPageViews'', ''sessions''],
                    dimensions := [dim],
                    orderBys := [(''screenPageViews'', True)],
                    limit := Some 20\<rparr>)"

text \<open>The rows of a report after the filter and \<^verbatim>\<open>slice(0, 6)\<close>, before \<^verbatim>\<open>map\<close>.\<close>

definition shortlist :: "row list option \<Rightarrow> error + row list" where
  "shortlist rs =
     (case filter_named (rows_or_empty rs) of
        Inl err \<Rightarrow> Inl err
      | Inr ks \<Rightarrow> Inr (take 6 ks))"

definition tryDimension :: "env \<Rightarrow> user \<Rightarrow> string \<Rightarrow> error + jsval list" where
  "tryDimension e u dim =
     (case await e (author_call e u dim) of
        Inl err \<Rightarrow> Inl err
      | Inr d \<Rightarrow>
          (case shortlist (data_rows d) of
             Inl err \<Rightarrow> Inl err
           | Inr ks \<Rightarrow> map_index author_row 0 ks))"

text \<open>
  \<^verbatim>\<open>
  const customDims = (meta.data.dimensions || []).filter(d => d.apiName && d.apiName.startsWith('custom'));
  const authorDim = customDims.find(d => {
    const n = (d.apiName + ' ' + (d.uiName || '') + ' ' + (d.description || '')).toLowerCase();
    return n.includes('author') || n.includes('writer') || n.includes('byline');
  });
  if (authorDim) foundDim = authorDim.apiName;
  \<close>
\<close>

definition is_custom :: "dim_meta \<Rightarrow> bool" where
  "is_custom d = (case apiName d of None \<Rightarrow> False | Some a \<Rightarrow> a \<noteq> [] \<and> startsWith a ''custom'')"

definition str_or_empty :: "string option \<Rightarrow> string" where
  "str_or_empty x = (case x of None \<Rightarrow> [] | Some s \<Rightarrow> s)"

definition to_String :: "string option \<Rightarrow> string" where
  "to_String x = (case x of None \<Rightarrow> ''undefined'' | Some s \<Rightarrow> s)"

definition author_text :: "dim_meta \<Rightarrow> string" where
  "author_text d =
     toLowerCase (to_String (apiName d) @ '' '' @ str_or_empty (uiName d) @ '' ''
                    @ str_or_empty (description d))"

definition author_like :: "dim_meta \<Rightarrow> bool" where
  "author_like d =
     (let n = author_text d in
      includes_str n ''author'' \<or> includes_str n ''writer'' \<or> includes_str n ''byline'')"

text \<open>
  The scan in the words of the spec, to compare \<open>author_like\<close> with: a text contains a
  word case-insensitively when some part of the text matches the word letter by letter,
  a character matching a letter of the word when it is that letter or its capital.
\<close>

definition capital :: "char \<Rightarrow> char option" where
  "capital = map_of (zip ''abcdefghijklmnopqrstuvwxyz'' ''ABCDEFGHIJKLMNOPQRSTUVWXYZ'')"

definition same_letter :: "char \<Rightarrow> char \<Rightarrow> bool" where
  "same_letter c l = (c = l \<or> capital l = Some c)"

definition contains_ignoring_case :: "string \<Rightarrow> string \<Rightarrow> bool" where
  "contains_ignoring_case txt word = (\<exists>part. sublist part txt \<and> list_all2 same_letter part word)"

definition customDims :: "dim_meta list option \<Rightarrow> dim_meta list" where
  "customDims ds = filter is_custom (case ds of None \<Rightarrow> [] | Some xs \<Rightarrow> xs)"

definition authorDim :: "dim_meta list option \<Rightarrow> dim_meta option" where
  "authorDim ds = find author_like (customDims ds)"

definition metadata_call :: "env \<Rightarrow> user \<Rightarrow> api_call" where
  "metadata_call e u = GetMetadata (accessToken u) (PROP_name e @ ''/metadata'')"

text \<open>The \<^verbatim>\<open>try\<close> around the discovery swallows every failure: \<open>None\<close> is
  \<^verbatim>\<open>foundDim = null\<close>.\<close>

definition foundDim :: "env \<Rightarrow> user \<Rightarrow> string option" where
  "foundDim e u =
     (case await e (metadata_call e u) of
        Inl err \<Rightarrow> None
      | Inr meta \<Rightarrow>
          (case authorDim (data_dimensions meta) of
             None \<Rightarrow> None
           | Some d \<Rightarrow> apiName d))"

definition guesses :: "string list" where
  "guesses =
     [''customUser:author'', ''customEvent:author'', ''customUser:Author'',
      ''customEvent:Author'', ''customUser:writer'', ''customEvent:writer'']"

text \<open>\<^verbatim>\<open>foundDim ? [foundDim] : [...]\<close>: \<^verbatim>\<open>null\<close> and the empty string are falsy.\<close>

definition dimsToTry :: "string option \<Rightarrow> string list" where
  "dimsToTry found =
     (case found of None \<Rightarrow> guesses | Some a \<Rightarrow> if a = [] then guesses else [a])"

text \<open>
  \<^verbatim>\<open>
  for (const dim of dimsToTry) {
    try { rows = await tryDimension(dim); } catch (_) { rows = []; }
    if (rows.length) break;
  }
  \<close>
  The result is the rows and the calls made.
\<close>

definition attempt :: "env \<Rightarrow> user \<Rightarrow> string \<Rightarrow> jsval list" where
  "attempt e u dim = (case tryDimension e u dim of Inl err \<Rightarrow> [] | Inr rs \<Rightarrow> rs)"

fun try_dims :: "env \<Rightarrow> user \<Rightarrow> string list \<Rightarrow> jsval list \<times> api_call list" where
  "try_dims e u [] = ([], [])"
| "try_dims e u (dim # dims) =
     (let rows = attempt e u dim in
      if rows \<noteq> [] then (rows, [author_call e u dim])
      else (let (rows', calls) = try_dims e u dims in (rows', author_call e u dim # calls)))"

definition top_authors_miss :: "env \<Rightarrow> user \<Rightarrow> cache \<Rightarrow> outcome" where
  "top_authors_miss e u c =
     (let (rows, calls) = try_dims e u (dimsToTry (foundDim e u)) in
      (json (Arr rows), metadata_call e u # calls,
       cache_set c (clock_set e) ''authors'' (Arr rows) 300))"

definition top_authors :: "env \<Rightarrow> user \<Rightarrow> cache \<Rightarrow> outcome" where
  "top_authors e u c = cached e c ''authors'' (top_authors_miss e u c)"

section \<open>\<^verbatim>\<open>GET /api/ga4-dims\<close>\<close>

definition dim_json :: "dim_meta \<Rightarrow> jsval" where
  "dim_json d =
     Obj [(''apiName'', cell_val (apiName d)), (''uiName'', cell_val (uiName d)),
          (''description'', cell_val (description d))]"

definition ga4_dims :: "env \<Rightarrow> user \<Rightarrow> cache \<Rightarrow> outcome" where
  "ga4_dims e u c =
     (let q = metadata_call e u in
      case await e q of
        Inl err \<Rightarrow> (error_500 err, [q], c)
      | Inr meta \<Rightarrow> (json (Arr (map dim_json (customDims (data_dimensions meta)))), [q], c))"

section \<open>Authentication and the routes\<close>

text \<open>
  \<^verbatim>\<open>
  const requireAuth = (req, res, next) =>
    req.isAuthenticated() ? next() : res.status(401).json({ error: 'Not authenticated' });
  \<close>
  \<open>None\<close> is \<^verbatim>\<open>next()\<close>; otherwise the middleware answers and the handler does not run.
  A request is authenticated when the session holds a user.
\<close>

definition requireAuth :: "env \<Rightarrow> response option" where
  "requireAuth e =
     (case req_user e of
        Some u \<Rightarrow> None
      | None \<Rightarrow> Some \<lparr>status = 401, body = Obj [(''error'', Str ''Not authenticated'')]\<rparr>)"

datatype endpoint = Realtime | TopNews | StateNews string | TopAuthors | Ga4Dims

fun handler :: "endpoint \<Rightarrow> env \<Rightarrow> user \<Rightarrow> cache \<Rightarrow> outcome" where
  "handler Realtime = realtime"
| "handler TopNews = top_news"
| "handler (StateNews param) = state_news param"
| "handler TopAuthors = top_authors"
| "handler Ga4Dims = ga4_dims"

text \<open>\<^verbatim>\<open>app.get(path, requireAuth, handler)\<close>, as every route under \<^verbatim>\<open>/api\<close> is declared.
  A handler that ran without a user would raise a TypeError in \<^verbatim>\<open>ga(req.user)\<close>, inside
  its \<^verbatim>\<open>try\<close>.\<close>

definition api :: "endpoint \<Rightarrow> env \<Rightarrow> cache \<Rightarrow> outcome" where
  "api ep e c =
     (case requireAuth e of
        Some r \<Rightarrow> (r, [], c)
      | None \<Rightarrow> (case req_user e of Some u \<Rightarrow> handler ep e u c | None \<Rightarrow> (error_500 TypeError, [], c)))"

text \<open>The key and the time to live (in seconds) each handler passes to \<^verbatim>\<open>cache.set\<close>;
  \<^verbatim>\<open>/api/ga4-dims\<close> does not use the cache.\<close>

fun cache_key :: "endpoint \<Rightarrow> string option" where
  "cache_key Realtime = Some ''rt''"
| "cache_key TopNews = Some ''top10''"
| "cache_key (StateNews param) = Some (state_key param)"
| "cache_key TopAuthors = Some ''authors''"
| "cache_key Ga4Dims = None"

fun cache_ttl :: "endpoint \<Rightarrow> nat" where
  "cache_ttl Realtime = 10"
| "cache_ttl TopNews = 10"
| "cache_ttl (StateNews param) = 300"
| "cache_ttl TopAuthors = 300"
| "cache_ttl Ga4Dims = 0"

subsection \<open>The earlier server\<close>

text \<open>
  The second source file is an earlier server with its own middleware:
  \<^verbatim>\<open>
  function requireAuth(req, res, next) {
    if (req.session.tokens) {
      oauth2Client.setCredentials(req.session.tokens);
      return next();
    }
    res.status(401).json({ error: 'Not authenticated', loginUrl: '/auth/login' });
  }
  \<close>
  Its five routes under \<^verbatim>\<open>/api\<close> are all declared with it. Their handlers use floating
  point and stay parameters: a handler takes the tokens of the session and gives a
  response and the calls it made.
\<close>

record session =
  tokens :: "string option"

definition requireAuth_v0 :: "session \<Rightarrow> response option" where
  "requireAuth_v0 s =
     (case tokens s of
        Some t \<Rightarrow> None
      | None \<Rightarrow>
          Some \<lparr>status = 401,
                body = Obj [(''error'', Str ''Not authenticated''),
                            (''loginUrl'', Str ''/auth/login'')]\<rparr>)"

datatype endpoint_v0 = Realtime_v0 | TopNews_v0 | StateNews_v0 | TopAuthors_v0 | SessionStats_v0

definition api_v0 ::
  "(endpoint_v0 \<Rightarrow> string \<Rightarrow> response \<times> api_call list) \<Rightarrow> endpoint_v0 \<Rightarrow> session
     \<Rightarrow> response \<times> api_call list" where
  "api_v0 handlers ep s =
     (case requireAuth_v0 s of
        Some r \<Rightarrow> (r, [])
      | None \<Rightarrow> (case tokens s of Some t \<Rightarrow> handlers ep t | None \<Rightarrow> (error_500 TypeError, [])))"

section \<open>Sample requests\<close>

text \<open>Concrete inputs on which the properties below are evaluated: a user, a date,
  behaviours of the analytics API, a cache without entries, and a request made at one
  instant of the clock.\<close>

definition sample_user :: user where
  "sample_user = \<lparr>accessToken = ''token''\<rparr>"

definition sample_date :: date where
  "sample_date = \<lparr>getFullYear = 2024, getMonth = 2, getHours = 1, getMinutes = 0\<rparr>"

definition no_data :: api_data where
  "no_data = \<lparr>data_rows = None, data_dimensions = None\<rparr>"

text \<open>Every historical report is rejected; the other calls answer with no data.\<close>

fun upstream_quota :: "api_call \<Rightarrow> string + api_data" where
  "upstream_quota (RunReport t p r) = Inl ''quota exceeded''"
| "upstream_quota (RunRealtimeReport t p r) = Inr no_data"
| "upstream_quota (GetMetadata t n) = Inr no_data"

text \<open>Every call is answered: reports with two rows, the metadata with one custom
  dimension.\<close>

fun upstream_rows :: "api_call \<Rightarrow> string + api_data" where
  "upstream_rows (GetMetadata t n) =
     Inr \<lparr>data_rows = None,
          data_dimensions = Some [\<lparr>apiName = Some ''customEvent:byline_test'', uiName = None,
                                   description = None\<rparr>]\<rparr>"
| "upstream_rows (RunReport t p r) =
     Inr \<lparr>data_rows = Some [\<lparr>dimensionValues = [Some ''(not set)'', Some ''/mp/a''],
                               metricValues = [Some ''40'', Some ''9'']\<rparr>,
                             \<lparr>dimensionValues = [Some ''Asha'', Some ''/mp/b''],
                               metricValues = [Some ''25'', Some ''4'']\<rparr>],
          data_dimensions = None\<rparr>"
| "upstream_rows (RunRealtimeReport t p r) =
     Inr \<lparr>data_rows = Some [\<lparr>dimensionValues = [Some ''5''], metricValues = [Some ''3'']\<rparr>,
                             \<lparr>dimensionValues = [Some ''0''], metricValues = [Some ''7'']\<rparr>],
          data_dimensions = None\<rparr>"

text \<open>Every call is rejected.\<close>

definition upstream_down :: "api_call \<Rightarrow> string + api_data" where
  "upstream_down q = Inl ''unavailable''"

text \<open>
  An analytics property without usable metadata, where the first guessed dimension is
  refused, the second has placeholder values only, and every other dimension has thirteen
  rows: blank and placeholder names among seven names.
\<close>

definition author_rows :: "row list" where
  "author_rows =
     [\<lparr>dimensionValues = [Some ''(not set)''], metricValues = [Some ''90'', Some ''30'']\<rparr>,
      \<lparr>dimensionValues = [Some ''Asha''], metricValues = [Some ''80'', Some ''20'']\<rparr>,
      \<lparr>dimensionValues = [Some ''   ''], metricValues = [Some ''70'', Some ''19'']\<rparr>,
      \<lparr>dimensionValues = [Some ''(not provided)''], metricValues = [Some ''60'', Some ''18'']\<rparr>,
      \<lparr>dimensionValues = [Some [CHR 0xA0, CHR 0x09]], metricValues = [Some ''50'', Some ''17'']\<rparr>,
      \<lparr>dimensionValues = [Some []], metricValues = [Some ''45'', Some ''16'']\<rparr>,
      \<lparr>dimensionValues = [None], metricValues = [Some ''44'', Some ''15'']\<rparr>,
      \<lparr>dimensionValues = [Some ''Ravi''], metricValues = [Some ''40'', Some ''14'']\<rparr>,
      \<lparr>dimensionValues = [Some '' Meera ''], metricValues = [Some ''30'', Some ''13'']\<rparr>,
      \<lparr>dimensionValues = [Some ''Kabir''], metricValues = [Some ''20'', Some ''12'']\<rparr>,
      \<lparr>dimensionValues = [Some ''Zoya''], metricValues = [Some ''10'', Some ''11'']\<rparr>,
      \<lparr>dimensionValues = [Some ''(Not Set)''], metricValues = [Some ''9'', Some ''10'']\<rparr>,
      \<lparr>dimensionValues = [Some ''Tara''], metricValues = [Some ''8'', Some ''9'']\<rparr>]"

fun upstream_authors :: "api_call \<Rightarrow> string + api_data" where
  "upstream_authors (GetMetadata t n) = Inl ''metadata unavailable''"
| "upstream_authors (RunRealtimeReport t p r) = Inr no_data"
| "upstream_authors (RunReport t p r) =
     (if dimensions r = [''customUser:author''] then Inl ''unknown dimension''
      else if dimensions r = [''customEvent:author'']
      then Inr \<lparr>data_rows = Some [\<lparr>dimensionValues = [Some ''(not set)''],
                                     metricValues = [Some ''5'', Some ''2'']\<rparr>],
                data_dimensions = None\<rparr>
      else Inr \<lparr>data_rows = Some author_rows, data_dimensions = None\<rparr>)"

text \<open>
  Metadata with five dimensions: a standard one and one without API name that mention an
  author, a custom one that does not, and two custom ones that do, the first of them in
  capitals and in its UI name only.
\<close>

definition sample_dimensions :: "dim_meta list" where
  "sample_dimensions =
     [\<lparr>apiName = Some ''authorName'', uiName = Some ''Author'', description = None\<rparr>,
      \<lparr>apiName = None, uiName = Some ''Writer'', description = Some ''byline''\<rparr>,
      \<lparr>apiName = Some ''customEvent:section'', uiName = Some ''Section'',
        description = Some ''News desk''\<rparr>,
      \<lparr>apiName = Some ''customEvent:dim7'', uiName = Some ''Article WRITER'',
        description = None\<rparr>,
      \<lparr>apiName = Some ''customEvent:byline_test'', uiName = None, description = None\<rparr>]"

fun upstream_meta :: "api_call \<Rightarrow> string + api_data" where
  "upstream_meta (GetMetadata t n) =
     Inr \<lparr>data_rows = None, data_dimensions = Some sample_dimensions\<rparr>"
| "upstream_meta (RunRealtimeReport t p r) = Inr no_data"
| "upstream_meta (RunReport t p r) = Inr no_data"

text \<open>A cache without entries.\<close>

definition no_entries :: cache where
  "no_entries k = None"

definition request_at :: "user option \<Rightarrow> (api_call \<Rightarrow> string + api_data) \<Rightarrow> nat \<Rightarrow> env" where
  "request_at uo up t =
     \<lparr>req_user = uo, GA4_PROPERTY_ID = ''123'', upstream = up, settled = (\<lambda>q. 0),
      now = sample_date, clock_has = t, clock_get = t, clock_set = t, toFixed1 = (\<lambda>s. s)\<rparr>"

text \<open>A request whose \<^verbatim>\<open>cache.get\<close> reads the clock at another time than its \<^verbatim>\<open>cache.has\<close>.\<close>

definition late_get :: "env \<Rightarrow> nat \<Rightarrow> env" where
  "late_get e t = e\<lparr>clock_get := t\<rparr>"

section \<open>Properties of the sparkline\<close>

lemmas parse_simps =
  parseInt_def parse_sign_def parse_radix_def is_ws_def is_digit_def digit_val_def
  digits_value_def parseInt_value_def parseInt_or0_def

lemma write_index_range: "write_index m = Some i \<Longrightarrow> 0 \<le> i \<and> i < 30"
  by (auto simp: write_index_def split: jsnum.splits if_splits)

lemma write_index_Num: "write_index (Num k) = Some i \<longleftrightarrow> 0 \<le> k \<and> k < 30 \<and> i = 29 - k"
  by (auto simp: write_index_def)

lemma array_set_inside: "0 \<le> i \<Longrightarrow> nat i < length a \<Longrightarrow> array_set a i v = a[nat i := v]"
  by (simp add: array_set_def)

lemma spark_step_length:
  assumes "spark_step s r = Inr s'" and "length s = 30"
  shows "length s' = 30"
  using assms
  by (auto simp: spark_step_def array_set_inside dest!: write_index_range
           split: sum.splits option.splits)

lemma spark_forEach_length:
  "spark_forEach s rs = Inr s' \<Longrightarrow> length s = 30 \<Longrightarrow> length s' = 30"
proof (induction rs arbitrary: s)
  case Nil
  then show ?case by simp
next
  case (Cons r rs)
  then show ?case
    by (auto split: sum.splits dest: spark_step_length)
qed

lemma spark_step_readable: "readable r \<Longrightarrow> \<exists>s'. spark_step s r = Inr s'"
  by (auto simp: readable_def spark_step_def minAgo_def value_at_def split: option.splits)

lemma spark_forEach_readable:
  "\<forall>r \<in> set rs. readable r \<Longrightarrow> \<exists>s'. spark_forEach s rs = Inr s'"
proof (induction rs arbitrary: s)
  case Nil
  then show ?case by simp
next
  case (Cons r rs)
  then obtain s1 where "spark_step s r = Inr s1"
    using spark_step_readable[of r s] by auto
  with Cons show ?case by simp
qed

lemma spark_step_nth:
  assumes "spark_step s r = Inr s'" and "length s = 30" and "m < 30"
  shows "s' ! (29 - m) =
           (if minutesAgo_of r = Num (int m) then NumV (activeUsers_of r) else s ! (29 - m))"
proof -
  from assms(1) obtain c where c: "value_at (dimensionValues r) 0 = Inr c"
    by (auto simp: spark_step_def minAgo_def split: sum.splits)
  then have ma: "minutesAgo_of r = parseInt_value c" "minAgo r = Inr (parseInt_value c)"
    by (auto simp: minutesAgo_of_def minAgo_def value_at_def value_opt_def split: if_splits)
  show ?thesis
  proof (cases "write_index (parseInt_value c)")
    case None
    then have "s' = s" using assms(1) ma by (simp add: spark_step_def)
    moreover have "minutesAgo_of r \<noteq> Num (int m)"
      using None ma assms(3) by (auto simp: write_index_def)
    ultimately show ?thesis by simp
  next
    case (Some i)
    then obtain k where k: "parseInt_value c = Num k" "0 \<le> k" "k < 30" "i = 29 - k"
      by (cases "parseInt_value c") (auto simp: write_index_def split: if_splits)
    from assms(1) Some ma obtain c2 where c2: "value_at (metricValues r) 0 = Inr c2"
      and s': "s' = array_set s i (NumV (parseInt_or0 c2))"
      by (auto simp: spark_step_def split: sum.splits)
    have au: "activeUsers_of r = parseInt_or0 c2"
      using c2 by (auto simp: activeUsers_of_def value_at_def value_opt_def split: if_splits)
    have s'': "s' = s[nat i := NumV (activeUsers_of r)]"
      using s' au k assms(2) by (simp add: array_set_inside)
    show ?thesis
    proof (cases "k = int m")
      case True
      then have "nat i = 29 - m" using k by simp
      then show ?thesis using s'' True ma k assms by simp
    next
      case False
      then have "nat i \<noteq> 29 - m" using k assms(3) by auto
      then show ?thesis using s'' False ma k by simp
    qed
  qed
qed

lemma find_snoc:
  "find P (xs @ [x]) = (case find P xs of Some y \<Rightarrow> Some y | None \<Rightarrow> if P x then Some x else None)"
  by (induction xs) auto

lemma spark_forEach_nth:
  "spark_forEach s rs = Inr s' \<Longrightarrow> length s = 30 \<Longrightarrow> m < 30 \<Longrightarrow>
   s' ! (29 - m) =
     (case find (\<lambda>r. minutesAgo_of r = Num (int m)) (rev rs) of
        None \<Rightarrow> s ! (29 - m)
      | Some r \<Rightarrow> NumV (activeUsers_of r))"
proof (induction rs arbitrary: s)
  case Nil
  then show ?case by simp
next
  case (Cons r rs)
  from Cons.prems(1) obtain s1 where s1: "spark_step s r = Inr s1" "spark_forEach s1 rs = Inr s'"
    by (auto split: sum.splits)
  have len: "length s1 = 30" using s1(1) Cons.prems(2) by (rule spark_step_length)
  note ih = Cons.IH[OF s1(2) len Cons.prems(3)]
  note st = spark_step_nth[OF s1(1) Cons.prems(2) Cons.prems(3)]
  show ?case
    by (simp add: find_snoc ih st split: option.splits)
qed

lemma sparkline_example:
  "sparkline (Some [\<lparr>dimensionValues = [Some ''5''], metricValues = [Some ''3'']\<rparr>,
                    \<lparr>dimensionValues = [Some ''0''], metricValues = [Some ''7'']\<rparr>])
     = Inr (replicate 24 (NumV (Num 0)) @ [NumV (Num 3)] @ replicate 4 (NumV (Num 0)) @ [NumV (Num 7)])"
  by code_simp


text \<open>
  C1. The sparkline reverses the order of \<^verbatim>\<open>minutesAgo\<close>. Whenever every row can be read
  (it has a dimension cell and a metric cell), the handler builds a sequence of 30
  elements, and for every minute \<open>m\<close> from 0 to 29 the element at index \<open>29 - m\<close> is the
  count of active users of the row for minute \<open>m\<close> (the last one, should several rows name
  the same minute), and \<open>0\<close> when no row names that minute. For the rows
  \<^verbatim>\<open>{minutesAgo: 5, activeUsers: 3}\<close> and \<^verbatim>\<open>{minutesAgo: 0, activeUsers: 7}\<close> the sequence has
  7 at index 29, 3 at index 24 and 0 elsewhere.
\<close>

theorem sparkline_reverses_minutesAgo:
  "((\<forall>r \<in> set (rows_or_empty rs). readable r) \<longrightarrow>
      (\<exists>s. sparkline rs = Inr s \<and> length s = 30 \<and>
           (\<forall>m<30. s ! (29 - m) =
              (case find (\<lambda>r. minutesAgo_of r = Num (int m)) (rev (rows_or_empty rs)) of
                 None \<Rightarrow> NumV (Num 0)
               | Some r \<Rightarrow> NumV (activeUsers_of r)))))
   \<and> sparkline (Some [\<lparr>dimensionValues = [Some ''5''], metricValues = [Some ''3'']\<rparr>,
                      \<lparr>dimensionValues = [Some ''0''], metricValues = [Some ''7'']\<rparr>])
       = Inr (replicate 24 (NumV (Num 0)) @ [NumV (Num 3)] @ replicate 4 (NumV (Num 0))
                @ [NumV (Num 7)])"
proof (intro conjI impI)
  assume wf: "\<forall>r \<in> set (rows_or_empty rs). readable r"
  then obtain s where s: "spark_forEach (replicate 30 (NumV (Num 0))) (rows_or_empty rs) = Inr s"
    using spark_forEach_readable by blast
  have len: "length s = 30"
    using spark_forEach_length[OF s] by simp
  have "\<forall>m<30. s ! (29 - m) =
              (case find (\<lambda>r. minutesAgo_of r = Num (int m)) (rev (rows_or_empty rs)) of
                 None \<Rightarrow> NumV (Num 0)
               | Some r \<Rightarrow> NumV (activeUsers_of r))"
  proof (intro allI impI)
    fix m :: nat assume m: "m < 30"
    show "s ! (29 - m) =
              (case find (\<lambda>r. minutesAgo_of r = Num (int m)) (rev (rows_or_empty rs)) of
                 None \<Rightarrow> NumV (Num 0)
               | Some r \<Rightarrow> NumV (activeUsers_of r))"
      using spark_forEach_nth[OF s _ m] m by (simp split: option.splits)
  qed
  with s len show "\<exists>s. sparkline rs = Inr s \<and> length s = 30 \<and>
           (\<forall>m<30. s ! (29 - m) =
              (case find (\<lambda>r. minutesAgo_of r = Num (int m)) (rev (rows_or_empty rs)) of
                 None \<Rightarrow> NumV (Num 0)
               | Some r \<Rightarrow> NumV (activeUsers_of r)))"
    by (simp add: sparkline_def)
next
  show "sparkline (Some [\<lparr>dimensionValues = [Some ''5''], metricValues = [Some ''3'']\<rparr>,
                      \<lparr>dimensionValues = [Some ''0''], metricValues = [Some ''7'']\<rparr>])
       = Inr (replicate 24 (NumV (Num 0)) @ [NumV (Num 3)] @ replicate 4 (NumV (Num 0))
                @ [NumV (Num 7)])"
    by (rule sparkline_example)
qed

theorem sparkline_reverses_minutesAgo_witness:
  "list_all readable (rows_or_empty (Some
        [\<lparr>dimensionValues = [Some ''29''], metricValues = [Some ''12'']\<rparr>,
         \<lparr>dimensionValues = [Some ''3''], metricValues = [Some ''4'']\<rparr>,
         \<lparr>dimensionValues = [Some ''3''], metricValues = [Some ''9'']\<rparr>]))
   \<and> (\<exists>s. sparkline (Some
        [\<lparr>dimensionValues = [Some ''29''], metricValues = [Some ''12'']\<rparr>,
         \<lparr>dimensionValues = [Some ''3''], metricValues = [Some ''4'']\<rparr>,
         \<lparr>dimensionValues = [Some ''3''], metricValues = [Some ''9'']\<rparr>]) = Inr s
        \<and> length s = 30 \<and> s ! 0 = NumV (Num 12) \<and> s ! 26 = NumV (Num 9)
        \<and> s ! 29 = NumV (Num 0))"
proof -
  let ?rs = "Some
        [\<lparr>dimensionValues = [Some ''29''], metricValues = [Some ''12'']\<rparr>,
         \<lparr>dimensionValues = [Some ''3''], metricValues = [Some ''4'']\<rparr>,
         \<lparr>dimensionValues = [Some ''3''], metricValues = [Some ''9'']\<rparr>]"
  have h: "\<forall>r \<in> set (rows_or_empty ?rs). readable r"
    by (simp add: rows_or_empty_def readable_def)
  from sparkline_reverses_minutesAgo[of ?rs] h
  obtain s where s: "sparkline ?rs = Inr s" "length s = 30"
    and nth: "\<And>m. m < 30 \<Longrightarrow> s ! (29 - m) =
              (case find (\<lambda>r. minutesAgo_of r = Num (int m)) (rev (rows_or_empty ?rs)) of
                 None \<Rightarrow> NumV (Num 0)
               | Some r \<Rightarrow> NumV (activeUsers_of r))"
    by blast
  have "s ! 0 = NumV (Num 12)"
    using nth[of 29]
    by (simp add: rows_or_empty_def minutesAgo_of_def activeUsers_of_def value_opt_def parse_simps)
  moreover have "s ! 26 = NumV (Num 9)"
    using nth[of 3]
    by (simp add: rows_or_empty_def minutesAgo_of_def activeUsers_of_def value_opt_def parse_simps)
  moreover have "s ! 29 = NumV (Num 0)"
    using nth[of 0]
    by (simp add: rows_or_empty_def minutesAgo_of_def activeUsers_of_def value_opt_def parse_simps)
  ultimately show ?thesis using h s by (simp add: list_all_iff)
qed



section \<open>Properties of the duration format\<close>

lemma of_char_digit_char: "d < 10 \<Longrightarrow> (of_char (digit_char d) :: nat) = 48 + d"
  by (simp add: digit_char_def)

lemma digit_val_digit_char: "d < 10 \<Longrightarrow> digit_val (digit_char d) = Some d"
  by (simp add: digit_val_def of_char_digit_char)

lemma is_digit_digit_char: "d < 10 \<Longrightarrow> is_digit 10 (digit_char d)"
  by (simp add: is_digit_def digit_val_digit_char)

lemma digit_char_neq:
  assumes "d < 10" and "(of_char c :: nat) < 48 \<or> 57 < (of_char c :: nat)"
  shows "digit_char d \<noteq> c"
  using assms of_char_digit_char[of d] by auto

lemma digit_char_not_ws: "d < 10 \<Longrightarrow> \<not> is_ws (digit_char d)"
  by (auto simp: is_ws_def dest!: digit_char_neq[THEN notE, rotated -1])

lemma nat_toString_digits: "c \<in> set (nat_toString n) \<Longrightarrow> \<exists>d<10. c = digit_char d"
proof (induction n arbitrary: c rule: nat_toString.induct)
  case (1 n)
  show ?case
  proof (cases "n < 10")
    case True
    with "1.prems" show ?thesis by (auto simp: nat_toString.simps[of n])
  next
    case False
    with "1.prems" have "c \<in> set (nat_toString (n div 10)) \<or> c = digit_char (n mod 10)"
      by (auto simp: nat_toString.simps[of n])
    then show ?thesis
    proof
      assume "c \<in> set (nat_toString (n div 10))"
      with False "1.IH" show ?thesis by blast
    next
      assume "c = digit_char (n mod 10)"
      moreover have "n mod 10 < 10" by simp
      ultimately show ?thesis by blast
    qed
  qed
qed

lemma nat_toString_not_Nil: "nat_toString n \<noteq> []"
  by (subst nat_toString.simps) simp

lemma digits_value_snoc:
  "digits_value r (xs @ [c]) = digits_value r xs * r + the (digit_val c)"
  by (simp add: digits_value_def)

lemma digits_value_nat_toString: "digits_value 10 (nat_toString n) = n"
proof (induction n rule: nat_toString.induct)
  case (1 n)
  show ?case
  proof (cases "n < 10")
    case True
    then show ?thesis
      by (simp add: nat_toString.simps[of n] digits_value_def digit_val_digit_char)
  next
    case False
    then have "digits_value 10 (nat_toString n) = digits_value 10 (nat_toString (n div 10)) * 10 + n mod 10"
      by (simp add: nat_toString.simps[of n] digits_value_snoc digit_val_digit_char)
    with False "1.IH" show ?thesis by simp
  qed
qed

lemma parseInt_digits:
  assumes "s \<noteq> []" and "\<And>c. c \<in> set s \<Longrightarrow> \<exists>d<10. c = digit_char d"
  shows "parseInt s = Num (int (digits_value 10 s))"
proof -
  have nows: "\<not> is_ws c" if "c \<in> set s" for c
    using assms(2)[OF that] digit_char_not_ws by auto
  have dig: "is_digit 10 c" if "c \<in> set s" for c
    using assms(2)[OF that] is_digit_digit_char by auto
  have nosign: "c \<noteq> CHR ''-'' \<and> c \<noteq> CHR ''+'' \<and> c \<noteq> CHR ''x'' \<and> c \<noteq> CHR ''X''"
    if "c \<in> set s" for c
    using assms(2)[OF that] by (auto dest: digit_char_neq[THEN notE, rotated -1])
  from assms(1) obtain c cs where s: "s = c # cs" by (cases s) auto
  have d1: "dropWhile is_ws s = s"
    using nows s by simp
  have d2: "parse_sign s = (1, s)"
    using nosign[of c] s by (simp add: parse_sign_def)
  have d3: "parse_radix s = (10, s)"
  proof (cases cs)
    case Nil
    then show ?thesis using s by (simp add: parse_radix_def)
  next
    case (Cons x r)
    then have "x \<in> set s" using s by simp
    from nosign[OF this] show ?thesis using s Cons by (simp add: parse_radix_def)
  qed
  have d4: "takeWhile (is_digit 10) s = s"
    using dig by simp
  show ?thesis
    using assms(1) by (simp add: parseInt_def d1 d2 d3 d4)
qed

lemma parseInt_nat_toString: "parseInt (nat_toString n) = Num (int n)"
  using parseInt_digits[of "nat_toString n"] nat_toString_digits nat_toString_not_Nil
  by (simp add: digits_value_nat_toString)

lemma digit_char_0: "digit_char 0 = CHR ''0''"
  by code_simp

lemma toString_two_digits:
  assumes "r < 60"
  shows "padStart 2 (CHR ''0'') (nat_toString r) = [digit_char (r div 10), digit_char (r mod 10)]"
proof (cases "r < 10")
  case True
  then show ?thesis
    by (simp add: nat_toString.simps[of r] padStart_def digit_char_0)
next
  case False
  then have "r div 10 < 10" using assms by simp
  then show ?thesis using False
    by (simp add: nat_toString.simps[of r] nat_toString.simps[of "r div 10"] padStart_def)
qed

lemma avgDuration_example: "avgDuration (Num 125) = ''2:05''"
  by code_simp

text \<open>
  C9. The average session duration is written as minutes, a colon, and the seconds padded
  to two digits: for every duration \<open>d \<ge> 0\<close> in seconds the text is the decimal numeral
  of \<open>d div 60\<close> (reading it back with \<^verbatim>\<open>parseInt\<close> gives \<open>d div 60\<close>), then \<^verbatim>\<open>:\<close>, then the
  two decimal digits of \<open>d mod 60\<close>. 125 seconds are written \<^verbatim>\<open>2:05\<close>.
\<close>

theorem avgDuration_format:
  "(0 \<le> d \<longrightarrow>
      avgDuration (Num d) =
        nat_toString (nat (d div 60)) @ '':''
          @ [digit_char (nat (d mod 60) div 10), digit_char (nat (d mod 60) mod 10)]
      \<and> parseInt (nat_toString (nat (d div 60))) = Num (d div 60))
   \<and> avgDuration (Num 125) = ''2:05''"
proof (intro conjI impI)
  assume d: "0 \<le> d"
  have q: "0 \<le> d div 60" using d by (simp add: pos_imp_zdiv_nonneg_iff)
  have r: "0 \<le> d mod 60" "nat (d mod 60) < 60" by simp_all
  have "js_rem (Num d) 60 = Num (d mod 60)"
    using d by (cases "d = 0") (simp_all add: js_rem_def)
  then have "toString (js_rem (Num d) 60) = nat_toString (nat (d mod 60))"
    using r by (simp add: toString_def)
  moreover have "toString (floor_div (Num d) 60) = nat_toString (nat (d div 60))"
    using q by (simp add: toString_def floor_div_def)
  ultimately show "avgDuration (Num d) =
        nat_toString (nat (d div 60)) @ '':''
          @ [digit_char (nat (d mod 60) div 10), digit_char (nat (d mod 60) mod 10)]"
    using toString_two_digits[OF r(2)] by (simp add: avgDuration_def)
  show "parseInt (nat_toString (nat (d div 60))) = Num (d div 60)"
    using q by (simp add: parseInt_nat_toString)
next
  show "avgDuration (Num 125) = ''2:05''" by (rule avgDuration_example)
qed

theorem avgDuration_format_witness:
  "(0::int) \<le> 3725 \<and> avgDuration (Num 3725) = ''62:05''"
proof -
  have h: "(0::int) \<le> 3725" by simp
  have "nat_toString 62 = ''62''" by code_simp
  moreover have "digit_char 0 = CHR ''0''" "digit_char 5 = CHR ''5''" by code_simp+
  ultimately show ?thesis
    using avgDuration_format[of 3725] h by simp
qed

section \<open>Properties of the pageviews per minute\<close>

lemma lastMinRow_find:
  "lastMinRow rows = Inr lm \<Longrightarrow>
   lm = find (\<lambda>r. value_opt (dimensionValues r) 0 = Some ''0'') rows"
proof (induction rows)
  case Nil
  then show ?case by simp
next
  case (Cons r rows)
  then show ?case
    by (auto simp: value_at_def value_opt_def split: sum.splits if_splits)
qed

lemma mins_elapsed_pos: "1 \<le> mins_elapsed d"
  by (simp add: mins_elapsed_def)

lemma round_div_nearest:
  assumes "1 \<le> m" and "round_div (Num a) m = Num q"
  shows "2 * a - m < 2 * m * q \<and> 2 * m * q \<le> 2 * a + m"
proof -
  have q: "q = (2 * a + m) div (2 * m)"
    using assms(2) by (simp add: round_div_def)
  have pos: "0 < 2 * m" using assms(1) by simp
  have eq: "2 * m * q + (2 * a + m) mod (2 * m) = 2 * a + m"
    unfolding q by (rule mult_div_mod_eq)
  have "0 \<le> (2 * a + m) mod (2 * m)" "(2 * a + m) mod (2 * m) < 2 * m"
    using pos by (rule pos_mod_sign, rule pos_mod_bound)
  with eq show ?thesis by linarith
qed

lemma pageviews_example:
  "realtime_pageviewsPerMin None (Num 120)
     \<lparr>getFullYear = y, getMonth = mo, getHours = 1, getMinutes = 0\<rparr> = Inr (Num 2)"
  by (simp add: realtime_pageviewsPerMin_def rows_or_empty_def pvPerMin_def pageviewsPerMin_def
      js_or_def truthy_def round_div_def mins_elapsed_def)

lemma parseInt_0: "parseInt ''0'' = Num 0"
  by (simp add: parse_simps)

lemma lastMinRow_readable:
  "\<forall>r \<in> set rows. dimensionValues r \<noteq> [] \<Longrightarrow> \<exists>lm. lastMinRow rows = Inr lm"
  by (induction rows) (auto simp: value_at_def)

lemma minute_0_written: "value_opt (dimensionValues r) 0 = Some ''0'' \<Longrightarrow> minutesAgo_of r = Num 0"
  by (simp add: minutesAgo_of_def parseInt_value_def parseInt_0)

lemma find_minute_0:
  assumes "\<forall>r \<in> set rows. minutesAgo_of r = Num 0 \<longrightarrow> value_opt (dimensionValues r) 0 = Some ''0''"
  shows "find (\<lambda>r. value_opt (dimensionValues r) 0 = Some ''0'') rows
           = find (\<lambda>r. minutesAgo_of r = Num 0) rows"
  using assms
proof (induction rows)
  case Nil
  then show ?case by simp
next
  case (Cons a rows)
  have "value_opt (dimensionValues a) 0 = Some ''0'' \<longleftrightarrow> minutesAgo_of a = Num 0"
    using Cons.prems minute_0_written[of a] by auto
  moreover have "find (\<lambda>r. value_opt (dimensionValues r) 0 = Some ''0'') rows
           = find (\<lambda>r. minutesAgo_of r = Num 0) rows"
    using Cons by simp
  ultimately show ?case by simp
qed

lemma pvPerMin_Some: "pvPerMin (Some r) = activeUsers_of r"
  by (simp add: pvPerMin_def activeUsers_of_def)

text \<open>
  C2, as amended. The pageviews per minute are computed for every list of rows that have
  a dimension cell. Where the rows for minute 0 are written \<^verbatim>\<open>"0"\<close>, the field is the count
  of the first realtime row with \<^verbatim>\<open>minutesAgo\<close> 0 when that count is a number other than
  0; otherwise, that is when there is no such row or when its count is 0 or not a number,
  it is the total of today divided by the minutes elapsed today, rounded to the nearest
  integer. The divisor is at least 1. With no row for minute 0, a total of 120 and minute
  60 of the day, the value is 2.
\<close>

theorem pageviewsPerMin_prefers_realtime:
  "((\<forall>r \<in> set (rows_or_empty rs). dimensionValues r \<noteq> []) \<longrightarrow>
      (\<exists>v. realtime_pageviewsPerMin rs totalPv d = Inr v))
   \<and> ((\<forall>r \<in> set (rows_or_empty rs).
          minutesAgo_of r = Num 0 \<longrightarrow> value_opt (dimensionValues r) 0 = Some ''0'')
        \<and> realtime_pageviewsPerMin rs totalPv d = Inr v \<longrightarrow>
        v = (case find (\<lambda>r. minutesAgo_of r = Num 0) (rows_or_empty rs) of
               None \<Rightarrow> round_div totalPv (mins_elapsed d)
             | Some r \<Rightarrow>
                 if truthy (activeUsers_of r) then activeUsers_of r
                 else round_div totalPv (mins_elapsed d)))
   \<and> (truthy x \<longleftrightarrow> x \<noteq> NaN \<and> x \<noteq> Num 0)
   \<and> 1 \<le> mins_elapsed d
   \<and> (round_div (Num a) (mins_elapsed d) = Num q \<longrightarrow>
        2 * a - mins_elapsed d < 2 * mins_elapsed d * q
        \<and> 2 * mins_elapsed d * q \<le> 2 * a + mins_elapsed d)
   \<and> realtime_pageviewsPerMin None (Num 120)
        \<lparr>getFullYear = y, getMonth = mo, getHours = 1, getMinutes = 0\<rparr> = Inr (Num 2)"
proof (intro conjI impI)
  assume "\<forall>r \<in> set (rows_or_empty rs). dimensionValues r \<noteq> []"
  then obtain lm where "lastMinRow (rows_or_empty rs) = Inr lm"
    using lastMinRow_readable by blast
  then show "\<exists>v. realtime_pageviewsPerMin rs totalPv d = Inr v"
    by (simp add: realtime_pageviewsPerMin_def)
next
  assume h: "(\<forall>r \<in> set (rows_or_empty rs).
          minutesAgo_of r = Num 0 \<longrightarrow> value_opt (dimensionValues r) 0 = Some ''0'')
        \<and> realtime_pageviewsPerMin rs totalPv d = Inr v"
  then obtain lm where lm: "lastMinRow (rows_or_empty rs) = Inr lm"
    and v: "v = pageviewsPerMin (pvPerMin lm) totalPv (mins_elapsed d)"
    by (auto simp: realtime_pageviewsPerMin_def split: sum.splits)
  from lastMinRow_find[OF lm] h
  have f: "find (\<lambda>r. minutesAgo_of r = Num 0) (rows_or_empty rs) = lm"
    by (simp add: find_minute_0)
  show "v = (case find (\<lambda>r. minutesAgo_of r = Num 0) (rows_or_empty rs) of
               None \<Rightarrow> round_div totalPv (mins_elapsed d)
             | Some r \<Rightarrow>
                 if truthy (activeUsers_of r) then activeUsers_of r
                 else round_div totalPv (mins_elapsed d))"
  proof (cases lm)
    case None
    then show ?thesis
      unfolding f v by (simp add: pageviewsPerMin_def js_or_def pvPerMin_def truthy_def)
  next
    case (Some r)
    then show ?thesis
      unfolding f v by (simp add: pageviewsPerMin_def js_or_def pvPerMin_Some)
  qed
next
  show "truthy x \<longleftrightarrow> x \<noteq> NaN \<and> x \<noteq> Num 0"
    by (cases x) (simp_all add: truthy_def)
next
  show "1 \<le> mins_elapsed d" by (rule mins_elapsed_pos)
next
  assume "round_div (Num a) (mins_elapsed d) = Num q"
  with mins_elapsed_pos[of d]
  have "2 * a - mins_elapsed d < 2 * mins_elapsed d * q \<and>
        2 * mins_elapsed d * q \<le> 2 * a + mins_elapsed d"
    by (rule round_div_nearest)
  then show "2 * a - mins_elapsed d < 2 * mins_elapsed d * q"
    and "2 * mins_elapsed d * q \<le> 2 * a + mins_elapsed d" by simp_all
next
  show "realtime_pageviewsPerMin None (Num 120)
        \<lparr>getFullYear = y, getMonth = mo, getHours = 1, getMinutes = 0\<rparr> = Inr (Num 2)"
    by (rule pageviews_example)
qed

theorem pageviewsPerMin_prefers_realtime_witness:
  "list_all (\<lambda>r. dimensionValues r \<noteq> []) (rows_or_empty (Some
       [\<lparr>dimensionValues = [Some ''1''], metricValues = [Some ''4'']\<rparr>,
        \<lparr>dimensionValues = [Some ''0''], metricValues = [Some ''9'']\<rparr>]))
   \<and> find (\<lambda>r. minutesAgo_of r = Num 0) (rows_or_empty (Some
       [\<lparr>dimensionValues = [Some ''1''], metricValues = [Some ''4'']\<rparr>,
        \<lparr>dimensionValues = [Some ''0''], metricValues = [Some ''9'']\<rparr>]))
       = Some \<lparr>dimensionValues = [Some ''0''], metricValues = [Some ''9'']\<rparr>
   \<and> realtime_pageviewsPerMin (Some
       [\<lparr>dimensionValues = [Some ''1''], metricValues = [Some ''4'']\<rparr>,
        \<lparr>dimensionValues = [Some ''0''], metricValues = [Some ''9'']\<rparr>]) (Num 120)
       \<lparr>getFullYear = 2024, getMonth = 0, getHours = 0, getMinutes = 0\<rparr> = Inr (Num 9)
   \<and> round_div (Num 7) (mins_elapsed \<lparr>getFullYear = 2024, getMonth = 0, getHours = 0, getMinutes = 2\<rparr>)
       = Num 4
   \<and> 2 * 7 - mins_elapsed \<lparr>getFullYear = 2024, getMonth = 0, getHours = 0, getMinutes = 2\<rparr>
       < 2 * mins_elapsed \<lparr>getFullYear = 2024, getMonth = 0, getHours = 0, getMinutes = 2\<rparr> * 4"
proof -
  let ?r0 = "\<lparr>dimensionValues = [Some ''0''], metricValues = [Some ''9'']\<rparr>"
  let ?rs = "Some [\<lparr>dimensionValues = [Some ''1''], metricValues = [Some ''4'']\<rparr>, ?r0]"
  let ?d = "\<lparr>getFullYear = 2024, getMonth = 0, getHours = 0, getMinutes = 0\<rparr>"
  let ?d2 = "\<lparr>getFullYear = 2024, getMonth = 0, getHours = 0, getMinutes = 2\<rparr>"
  have rd: "\<forall>r \<in> set (rows_or_empty ?rs). dimensionValues r \<noteq> []"
    by (simp add: rows_or_empty_def)
  have canon: "\<forall>r \<in> set (rows_or_empty ?rs).
          minutesAgo_of r = Num 0 \<longrightarrow> value_opt (dimensionValues r) 0 = Some ''0''"
    by (simp add: rows_or_empty_def minutesAgo_of_def value_opt_def parse_simps)
  have f: "find (\<lambda>r. minutesAgo_of r = Num 0) (rows_or_empty ?rs) = Some ?r0"
    by (simp add: rows_or_empty_def minutesAgo_of_def value_opt_def parse_simps)
  have au: "activeUsers_of ?r0 = Num 9"
    by (simp add: activeUsers_of_def value_opt_def parse_simps)
  have h2: "round_div (Num 7) (mins_elapsed ?d2) = Num 4"
    by (simp add: round_div_def mins_elapsed_def)
  note t = pageviewsPerMin_prefers_realtime[of ?rs "Num 120" ?d]
  from t[THEN conjunct1, THEN mp, OF rd]
  obtain v where v: "realtime_pageviewsPerMin ?rs (Num 120) ?d = Inr v" ..
  from t[of v, THEN conjunct2, THEN conjunct1, THEN mp, OF conjI[OF canon v]]
  have "v = Num 9" by (simp add: f au truthy_def)
  with v have r9: "realtime_pageviewsPerMin ?rs (Num 120) ?d = Inr (Num 9)" by simp
  note t2 = pageviewsPerMin_prefers_realtime[of _ _ ?d2 _ _ 7 4]
  from t2[THEN conjunct2, THEN conjunct2, THEN conjunct2, THEN conjunct2, THEN conjunct1,
      THEN mp, OF h2]
  have lt: "2 * 7 - mins_elapsed ?d2 < 2 * mins_elapsed ?d2 * 4" ..
  from rd have la: "list_all (\<lambda>r. dimensionValues r \<noteq> []) (rows_or_empty ?rs)"
    by (simp only: list_all_iff)
  from la f r9 h2 lt show ?thesis by (intro conjI)
qed

text \<open>
  The claim as first stated has the fallback only when the row for minute 0 is absent. A
  row for minute 0 that is present with the count 0 also falls back: with a total of 120
  at minute 60 the field is 2, not the 0 of the row.
\<close>

theorem pageviewsPerMin_zero_bucket_counterexample:
  "find (\<lambda>r. minutesAgo_of r = Num 0)
     (rows_or_empty (Some [\<lparr>dimensionValues = [Some ''0''], metricValues = [Some ''0'']\<rparr>]))
     = Some \<lparr>dimensionValues = [Some ''0''], metricValues = [Some ''0'']\<rparr>
   \<and> activeUsers_of \<lparr>dimensionValues = [Some ''0''], metricValues = [Some ''0'']\<rparr> = Num 0
   \<and> realtime_pageviewsPerMin
        (Some [\<lparr>dimensionValues = [Some ''0''], metricValues = [Some ''0'']\<rparr>]) (Num 120)
        \<lparr>getFullYear = 2024, getMonth = 0, getHours = 1, getMinutes = 0\<rparr> = Inr (Num 2)"
proof (intro conjI)
  show "find (\<lambda>r. minutesAgo_of r = Num 0)
     (rows_or_empty (Some [\<lparr>dimensionValues = [Some ''0''], metricValues = [Some ''0'']\<rparr>]))
     = Some \<lparr>dimensionValues = [Some ''0''], metricValues = [Some ''0'']\<rparr>"
    by (simp add: rows_or_empty_def minutesAgo_of_def value_opt_def parseInt_value_def parseInt_0)
  show "activeUsers_of \<lparr>dimensionValues = [Some ''0''], metricValues = [Some ''0'']\<rparr> = Num 0"
    by (simp add: activeUsers_of_def value_opt_def parseInt_or0_def parseInt_0)
  show "realtime_pageviewsPerMin
        (Some [\<lparr>dimensionValues = [Some ''0''], metricValues = [Some ''0'']\<rparr>]) (Num 120)
        \<lparr>getFullYear = 2024, getMonth = 0, getHours = 1, getMinutes = 0\<rparr> = Inr (Num 2)"
    by (simp add: realtime_pageviewsPerMin_def rows_or_empty_def value_at_def value_opt_def
        pvPerMin_def pageviewsPerMin_def js_or_def truthy_def round_div_def mins_elapsed_def
        parseInt_or0_def parseInt_0)
qed

section \<open>Properties of the authentication\<close>

text \<open>
  C6, as amended. A request without an authenticated session to any route under
  \<^verbatim>\<open>/api\<close> is answered with status 401 before any call of the analytics API: no call is
  made and the cache is untouched. The body is \<^verbatim>\<open>{error: "Not authenticated"}\<close> in the
  server, and \<^verbatim>\<open>{error: "Not authenticated", loginUrl: "/auth/login"}\<close> in the earlier
  server, whatever its handlers are.
\<close>

theorem unauthenticated_gets_401:
  "(req_user e = None \<longrightarrow>
      api ep e c = (\<lparr>status = 401, body = Obj [(''error'', Str ''Not authenticated'')]\<rparr>, [], c))
   \<and> (tokens s = None \<longrightarrow>
      api_v0 handlers ep0 s =
        (\<lparr>status = 401,
          body = Obj [(''error'', Str ''Not authenticated''), (''loginUrl'', Str ''/auth/login'')]\<rparr>,
         []))"
  by (simp add: api_def requireAuth_def api_v0_def requireAuth_v0_def)

theorem unauthenticated_gets_401_witness:
  "req_user (request_at None upstream_rows 0) = None
   \<and> api TopAuthors (request_at None upstream_rows 0) Map.empty
       = (\<lparr>status = 401, body = Obj [(''error'', Str ''Not authenticated'')]\<rparr>, [], Map.empty)
   \<and> tokens \<lparr>tokens = None\<rparr> = None
   \<and> api_v0 (\<lambda>ep t. (json Undefined, [GetMetadata t ''properties/123/metadata'']))
        SessionStats_v0 \<lparr>tokens = None\<rparr>
       = (\<lparr>status = 401,
           body = Obj [(''error'', Str ''Not authenticated''), (''loginUrl'', Str ''/auth/login'')]\<rparr>,
          [])"
  using unauthenticated_gets_401[of "request_at None upstream_rows 0" TopAuthors Map.empty
      "\<lparr>tokens = None\<rparr>" "\<lambda>ep t. (json Undefined, [GetMetadata t ''properties/123/metadata''])"
      SessionStats_v0]
  by (simp add: request_at_def)

text \<open>
  The claim as first stated gives the body \<^verbatim>\<open>{error: "Not authenticated"}\<close> for every
  route. The middleware of the earlier server answers with a second field.
\<close>

theorem requireAuth_v0_body_counterexample:
  "requireAuth_v0 \<lparr>tokens = None\<rparr>
     \<noteq> Some \<lparr>status = 401, body = Obj [(''error'', Str ''Not authenticated'')]\<rparr>"
  by (simp add: requireAuth_v0_def)

section \<open>Properties of the realtime summary\<close>

lemma rejections_mem: "(t, m) \<in> set (rejections ps) \<longleftrightarrow> (t, Inl m) \<in> set ps"
  by (induction ps) (auto simp: rejections_def split: sum.splits)

lemma rejections_Nil: "rejections ps = [] \<longleftrightarrow> (\<forall>p \<in> set ps. \<not> isl (snd p))"
  by (induction ps) (auto simp: rejections_def split: sum.splits)

lemma fulfilled_all: "\<forall>p \<in> set ps. \<not> isl (snd p) \<Longrightarrow> fulfilled ps = map (projr \<circ> snd) ps"
  by (induction ps) (auto simp: fulfilled_def split: sum.splits)

lemma Promise_all_rejected:
  assumes "\<exists>p \<in> set ps. isl (snd p)"
  shows "\<exists>t m. Promise_all ps = Inl (Rejected m) \<and> (t, Inl m) \<in> set ps
           \<and> (\<forall>t' m'. (t', Inl m') \<in> set ps \<longrightarrow> t \<le> t')"
proof -
  from assms have ne: "rejections ps \<noteq> []" by (simp add: rejections_Nil)
  define w where "w = arg_min_list fst (rejections ps)"
  have mem: "w \<in> set (rejections ps)"
    unfolding w_def using ne by (rule arg_min_list_in)
  have least: "fst w \<le> fst x" if "x \<in> set (rejections ps)" for x
    using f_arg_min_list_f[OF ne, of fst] that by (simp add: w_def)
  have "Promise_all ps = Inl (Rejected (snd w))"
    using ne by (simp add: Promise_all_def w_def)
  moreover have "(fst w, Inl (snd w)) \<in> set ps"
    using mem rejections_mem[of "fst w" "snd w" ps] by simp
  moreover have "\<forall>t' m'. (t', Inl m') \<in> set ps \<longrightarrow> fst w \<le> t'"
    using least rejections_mem by fastforce
  ultimately show ?thesis by blast
qed

lemma Promise_all_fulfilled:
  assumes "\<forall>p \<in> set ps. \<not> isl (snd p)"
  shows "Promise_all ps = Inr (map (projr \<circ> snd) ps)"
  using assms by (simp add: Promise_all_def rejections_Nil fulfilled_all)

lemma length_realtime_calls: "length (realtime_calls e u) = 4"
  by (simp add: realtime_calls_def)

lemma cached_miss: "\<not> cache_has c (clock_has e) k \<Longrightarrow> cached e c k x = x"
  by (simp add: cached_def)

lemma realtime_rejected:
  assumes miss: "\<not> cache_has c (clock_has e) ''rt''"
    and rej: "\<exists>q \<in> set (realtime_calls e u). isl (upstream e q)"
  shows "\<exists>q \<in> set (realtime_calls e u). \<exists>m. upstream e q = Inl m
           \<and> (\<forall>q' \<in> set (realtime_calls e u). isl (upstream e q') \<longrightarrow> settled e q \<le> settled e q')
           \<and> realtime e u c = (\<lparr>status = 500, body = Obj [(''error'', Str m)]\<rparr>, realtime_calls e u, c)"
proof -
  let ?ps = "map (\<lambda>q. (settled e q, upstream e q)) (realtime_calls e u)"
  from rej have "\<exists>p \<in> set ?ps. isl (snd p)" by auto
  from Promise_all_rejected[OF this] obtain t m where
    pa: "Promise_all ?ps = Inl (Rejected m)" and mem: "(t, Inl m) \<in> set ?ps"
    and least: "\<forall>t' m'. (t', Inl m') \<in> set ?ps \<longrightarrow> t \<le> t'"
    by blast
  from mem obtain q where q: "q \<in> set (realtime_calls e u)" "settled e q = t" "upstream e q = Inl m"
    by auto
  have "settled e q \<le> settled e q'" if "q' \<in> set (realtime_calls e u)" "isl (upstream e q')" for q'
  proof -
    from that(2) obtain m' where "upstream e q' = Inl m'" by (cases "upstream e q'") auto
    with that(1) have "(settled e q', Inl m') \<in> set ?ps" by force
    with least q(2) show ?thesis by blast
  qed
  moreover have "realtime e u c = (\<lparr>status = 500, body = Obj [(''error'', Str m)]\<rparr>, realtime_calls e u, c)"
    using miss pa by (simp add: realtime_def realtime_miss_def cached_miss error_500_def)
  ultimately show ?thesis using q by blast
qed

lemma realtime_fulfilled:
  assumes miss: "\<not> cache_has c (clock_has e) ''rt''"
    and ok: "\<forall>q \<in> set (realtime_calls e u). \<not> isl (upstream e q)"
  shows "realtime e u c =
           (case realtime_shape e (projr (upstream e (realtime_calls e u ! 0)))
                   (projr (upstream e (realtime_calls e u ! 1)))
                   (projr (upstream e (realtime_calls e u ! 2)))
                   (projr (upstream e (realtime_calls e u ! 3))) of
              Inl err \<Rightarrow> (error_500 err, realtime_calls e u, c)
            | Inr d \<Rightarrow> (json d, realtime_calls e u, cache_set c (clock_set e) ''rt'' d 10))"
proof -
  let ?ps = "map (\<lambda>q. (settled e q, upstream e q)) (realtime_calls e u)"
  from ok have "\<forall>p \<in> set ?ps. \<not> isl (snd p)" by auto
  then have pa: "Promise_all ?ps = Inr (map (projr \<circ> snd) ?ps)"
    by (rule Promise_all_fulfilled)
  show ?thesis
    using miss unfolding realtime_def realtime_miss_def cached_miss[OF miss] Let_def pa
    by (simp add: realtime_calls_def)
qed

lemma api_authenticated: "req_user e = Some u \<Longrightarrow> api ep e c = handler ep e u c"
  by (simp add: api_def requireAuth_def)

text \<open>
  C5. On a cache miss the realtime handler issues its four queries together, whether or
  not some of them fail, and shapes the response from all four. If any query is rejected
  the response is a single status 500 whose \<^verbatim>\<open>error\<close> is the message of a rejected query
  (the one that settles first), nothing is stored in the cache and no shaped result is
  returned. A response with status 200 means that all four queries were fulfilled, and
  its body is the object shaped from the four results.
\<close>

theorem realtime_all_or_nothing:
  assumes u: "req_user e = Some u" and miss: "\<not> cache_has c (clock_has e) ''rt''"
  shows "length (realtime_calls e u) = 4
     \<and> fst (snd (api Realtime e c)) = realtime_calls e u
     \<and> ((\<exists>q \<in> set (realtime_calls e u). isl (upstream e q)) \<longrightarrow>
          (\<exists>q \<in> set (realtime_calls e u). \<exists>m. upstream e q = Inl m
             \<and> (\<forall>q' \<in> set (realtime_calls e u). isl (upstream e q') \<longrightarrow> settled e q \<le> settled e q')
             \<and> api Realtime e c =
                 (\<lparr>status = 500, body = Obj [(''error'', Str m)]\<rparr>, realtime_calls e u, c)))
     \<and> (status (fst (api Realtime e c)) = 200 \<longrightarrow>
          (\<forall>q \<in> set (realtime_calls e u). \<exists>d. upstream e q = Inr d)
          \<and> (\<exists>d. realtime_shape e (projr (upstream e (realtime_calls e u ! 0)))
                    (projr (upstream e (realtime_calls e u ! 1)))
                    (projr (upstream e (realtime_calls e u ! 2)))
                    (projr (upstream e (realtime_calls e u ! 3))) = Inr d
                \<and> api Realtime e c =
                    (json d, realtime_calls e u, cache_set c (clock_set e) ''rt'' d 10)))"
proof -
  have a: "api Realtime e c = realtime e u c"
    using u by (simp add: api_authenticated)
  let ?shape = "realtime_shape e (projr (upstream e (realtime_calls e u ! 0)))
                    (projr (upstream e (realtime_calls e u ! 1)))
                    (projr (upstream e (realtime_calls e u ! 2)))
                    (projr (upstream e (realtime_calls e u ! 3)))"
  have rej: "\<exists>q \<in> set (realtime_calls e u). \<exists>m. upstream e q = Inl m
             \<and> (\<forall>q' \<in> set (realtime_calls e u). isl (upstream e q') \<longrightarrow> settled e q \<le> settled e q')
             \<and> api Realtime e c =
                 (\<lparr>status = 500, body = Obj [(''error'', Str m)]\<rparr>, realtime_calls e u, c)"
    if "\<exists>q \<in> set (realtime_calls e u). isl (upstream e q)"
    using realtime_rejected[OF miss that] by (simp add: a)
  have ful: "api Realtime e c =
           (case ?shape of
              Inl err \<Rightarrow> (error_500 err, realtime_calls e u, c)
            | Inr d \<Rightarrow> (json d, realtime_calls e u, cache_set c (clock_set e) ''rt'' d 10))"
    if "\<forall>q \<in> set (realtime_calls e u). \<not> isl (upstream e q)"
    using realtime_fulfilled[OF miss that] by (simp add: a)
  have calls: "fst (snd (api Realtime e c)) = realtime_calls e u"
  proof (cases "\<exists>q \<in> set (realtime_calls e u). isl (upstream e q)")
    case True
    from rej[OF True] show ?thesis by auto
  next
    case False
    then show ?thesis using ful by (auto split: sum.splits)
  qed
  have ok: "(\<forall>q \<in> set (realtime_calls e u). \<exists>d. upstream e q = Inr d)
          \<and> (\<exists>d. ?shape = Inr d
                \<and> api Realtime e c =
                    (json d, realtime_calls e u, cache_set c (clock_set e) ''rt'' d 10))"
    if s: "status (fst (api Realtime e c)) = 200"
  proof -
    have none: "\<forall>q \<in> set (realtime_calls e u). \<not> isl (upstream e q)"
    proof (rule ccontr)
      assume "\<not> ?thesis"
      then have "\<exists>q \<in> set (realtime_calls e u). isl (upstream e q)" by blast
      from rej[OF this] s show False by auto
    qed
    then have all: "\<forall>q \<in> set (realtime_calls e u). \<exists>d. upstream e q = Inr d"
      by (metis sum.collapse(2))
    from ful[OF none] s obtain d where "?shape = Inr d"
      by (cases ?shape) (auto simp: error_500_def)
    with ful[OF none] all show ?thesis by simp
  qed
  show ?thesis
    using length_realtime_calls calls rej ok by blast
qed

lemma sample_realtime_calls:
  "realtime_calls (request_at uo up t) sample_user =
     [RunRealtimeReport ''token'' ''properties/123'' (no_request\<lparr>metrics := [''activeUsers'']\<rparr>),
      RunRealtimeReport ''token'' ''properties/123''
        (no_request\<lparr>metrics := [''activeUsers''], dimensions := [''minutesAgo'']\<rparr>),
      RunReport ''token'' ''properties/123''
        (no_request\<lparr>dateRanges := [(''today'', ''today'')],
                     metrics := [''sessions'', ''screenPageViews'']\<rparr>),
      RunReport ''token'' ''properties/123''
        (no_request\<lparr>dateRanges := [(startOfMonth sample_date, ''today'')],
                     metrics := [''bounceRate'', ''averageSessionDuration'']\<rparr>)]"
  by (simp add: realtime_calls_def request_at_def sample_user_def PROP_name_def)

theorem realtime_all_or_nothing_witness:
  "req_user (request_at (Some sample_user) upstream_quota 0) = Some sample_user
   \<and> \<not> cache_has Map.empty (clock_has (request_at (Some sample_user) upstream_quota 0)) ''rt''
   \<and> (\<exists>q \<in> set (realtime_calls (request_at (Some sample_user) upstream_quota 0) sample_user).
         isl (upstream (request_at (Some sample_user) upstream_quota 0) q))
   \<and> api Realtime (request_at (Some sample_user) upstream_quota 0) Map.empty
       = (\<lparr>status = 500, body = Obj [(''error'', Str ''quota exceeded'')]\<rparr>,
          realtime_calls (request_at (Some sample_user) upstream_quota 0) sample_user, Map.empty)
   \<and> req_user (request_at (Some sample_user) upstream_rows 0) = Some sample_user
   \<and> status (fst (api Realtime (request_at (Some sample_user) upstream_rows 0) Map.empty)) = 200
   \<and> list_all (\<lambda>q. \<exists>d. upstream (request_at (Some sample_user) upstream_rows 0) q = Inr d)
         (realtime_calls (request_at (Some sample_user) upstream_rows 0) sample_user)"
proof -
  let ?e = "request_at (Some sample_user) upstream_quota 0"
  let ?e2 = "request_at (Some sample_user) upstream_rows 0"
  have u: "req_user ?e = Some sample_user" "req_user ?e2 = Some sample_user"
    by (simp_all add: request_at_def)
  have miss: "\<not> cache_has Map.empty (clock_has ?e) ''rt''"
    "\<not> cache_has Map.empty (clock_has ?e2) ''rt''"
    by (simp_all add: cache_has_def cache_get_def)
  have up: "upstream ?e = upstream_quota" by (simp add: request_at_def)
  have rej: "\<exists>q \<in> set (realtime_calls ?e sample_user). isl (upstream ?e q)"
    by (simp add: sample_realtime_calls up)
  from realtime_all_or_nothing[OF u(1) miss(1)] rej
  obtain q m where q: "q \<in> set (realtime_calls ?e sample_user)" "upstream ?e q = Inl m"
    and r: "api Realtime ?e Map.empty =
              (\<lparr>status = 500, body = Obj [(''error'', Str m)]\<rparr>, realtime_calls ?e sample_user, Map.empty)"
    by blast
  from q have "m = ''quota exceeded''"
    by (auto simp: sample_realtime_calls up)
  with r have r500: "api Realtime ?e Map.empty =
      (\<lparr>status = 500, body = Obj [(''error'', Str ''quota exceeded'')]\<rparr>,
       realtime_calls ?e sample_user, Map.empty)" by simp
  have up2: "upstream ?e2 = upstream_rows" by (simp add: request_at_def)
  have all2: "\<forall>q \<in> set (realtime_calls ?e2 sample_user). \<not> isl (upstream ?e2 q)"
    by (simp add: sample_realtime_calls up2)
  have spark: "\<exists>s. sparkline (Some [\<lparr>dimensionValues = [Some ''5''], metricValues = [Some ''3'']\<rparr>,
                             \<lparr>dimensionValues = [Some ''0''], metricValues = [Some ''7'']\<rparr>]) = Inr s"
    by (simp add: sparkline_example)
  have shape: "\<exists>d. realtime_shape ?e2 (projr (upstream ?e2 (realtime_calls ?e2 sample_user ! 0)))
                    (projr (upstream ?e2 (realtime_calls ?e2 sample_user ! 1)))
                    (projr (upstream ?e2 (realtime_calls ?e2 sample_user ! 2)))
                    (projr (upstream ?e2 (realtime_calls ?e2 sample_user ! 3))) = Inr d"
    unfolding sample_realtime_calls up2 using spark
    by (auto simp: realtime_shape_def value_at_def rows_or_empty_def Let_def)
  have s200: "status (fst (api Realtime ?e2 Map.empty)) = 200"
    using realtime_fulfilled[OF miss(2) all2] shape
    by (auto simp: api_authenticated[OF u(2)] json_def)
  from realtime_all_or_nothing[OF u(2) miss(2)] s200
  have "\<forall>q \<in> set (realtime_calls ?e2 sample_user). \<exists>d. upstream ?e2 q = Inr d"
    by blast
  with u miss(1) rej r500 s200 show ?thesis by (simp add: list_all_iff)
qed

section \<open>Properties of the cache\<close>

lemma cached_hit:
  "cache_has c (clock_has e) k \<Longrightarrow>
   cached e c k x = (json (case cache_get c (clock_get e) k of None \<Rightarrow> Undefined | Some v \<Rightarrow> v), [], c)"
  by (simp add: cached_def)

lemma realtime_miss_stores:
  assumes "realtime_miss e u c = (r, calls, c')"
  shows "calls \<noteq> [] \<and> (status r = 200 \<longrightarrow> c' = cache_set c (clock_set e) ''rt'' (body r) 10)"
  using assms
  by (auto simp: realtime_miss_def Let_def error_500_def json_def realtime_calls_def
           split: sum.splits list.splits)

lemma top_news_miss_stores:
  assumes "top_news_miss e u c = (r, calls, c')"
  shows "calls \<noteq> [] \<and> (status r = 200 \<longrightarrow> c' = cache_set c (clock_set e) ''top10'' (body r) 10)"
  using assms
  by (auto simp: top_news_miss_def Let_def error_500_def json_def split: sum.splits)

lemma state_news_miss_stores:
  assumes "state_news_miss st e u c = (r, calls, c')"
  shows "(calls = [] \<longleftrightarrow> isl (state_paths st))
         \<and> (status r = 200 \<longrightarrow> c' = cache_set c (clock_set e) (''state_'' @ st) (body r) 300)"
  using assms
  by (auto simp: state_news_miss_def Let_def error_500_def json_def split: sum.splits)

lemma top_authors_miss_stores:
  assumes "top_authors_miss e u c = (r, calls, c')"
  shows "calls \<noteq> [] \<and> status r = 200
         \<and> c' = cache_set c (clock_set e) ''authors'' (body r) 300"
  using assms
  by (auto simp: top_authors_miss_def Let_def json_def split: prod.splits)

lemma handler_hit:
  assumes "cache_key ep = Some k" and "cache_has c (clock_has e) k"
  shows "handler ep e u c =
           (json (case cache_get c (clock_get e) k of None \<Rightarrow> Undefined | Some v \<Rightarrow> v), [], c)"
  using assms
  by (cases ep)
     (auto simp: realtime_def top_news_def state_news_def top_authors_def state_key_def
        cached_hit Let_def)

lemma handler_miss:
  assumes "cache_key ep = Some k" and "\<not> cache_has c (clock_has e) k"
    and "handler ep e u c = (r, calls, c')"
  shows "(status r = 200 \<longrightarrow> c' = cache_set c (clock_set e) k (body r) (cache_ttl ep))
         \<and> (calls = [] \<longleftrightarrow> (\<exists>p. ep = StateNews p \<and> isl (state_paths (toLowerCase p))))"
proof (cases ep)
  case Realtime
  with assms show ?thesis
    using realtime_miss_stores[of e u c r calls c']
    by (simp add: realtime_def cached_miss)
next
  case TopNews
  with assms show ?thesis
    using top_news_miss_stores[of e u c r calls c']
    by (simp add: top_news_def cached_miss)
next
  case (StateNews p)
  with assms show ?thesis
    using state_news_miss_stores[of "toLowerCase p" e u c r calls c']
    by (simp add: state_news_def state_key_def cached_miss Let_def)
next
  case TopAuthors
  with assms show ?thesis
    using top_authors_miss_stores[of e u c r calls c']
    by (simp add: top_authors_def cached_miss)
next
  case Ga4Dims
  with assms show ?thesis by simp
qed

lemma top_authors_on_miss:
  assumes "\<not> cache_has c (clock_has e) ''authors''"
  shows "top_authors e u c =
          (json (Arr (fst (try_dims e u (dimsToTry (foundDim e u))))),
           metadata_call e u # snd (try_dims e u (dimsToTry (foundDim e u))),
           cache_set c (clock_set e) ''authors''
             (Arr (fst (try_dims e u (dimsToTry (foundDim e u))))) 300)"
  using assms by (simp add: top_authors_def cached_def top_authors_miss_def split: prod.splits)

lemma cache_get_within:
  "cache_get c t k = Some v \<Longrightarrow> \<exists>expiresAt. c k = Some (v, expiresAt) \<and> t \<le> expiresAt"
  by (auto simp: cache_get_def split: option.splits if_splits)

lemma cache_get_set:
  "cache_get (cache_set c t0 k v ttl) t k = (if t \<le> t0 + 1000 * ttl then Some v else None)"
  by (simp add: cache_get_def cache_set_def)

text \<open>
  C4, as amended. For every handler that uses the cache, with its key and its time to
  live: after a request that called the analytics API and stored its response, the entry
  of the key holds that response and expires the time to live after the \<open>set\<close>. A later
  request reads the cache twice, with \<^verbatim>\<open>has\<close> and then with \<^verbatim>\<open>get\<close>. If both reads happen
  before the time to live has elapsed, it is answered with the stored value and without
  any call of the analytics API. If the \<^verbatim>\<open>has\<close> happens after the time to live has
  elapsed, it finds a miss and calls the analytics API again. If the \<^verbatim>\<open>has\<close> happens
  before and the \<^verbatim>\<open>get\<close> after the time to live has elapsed, it is answered with status
  200 and the body \<^verbatim>\<open>undefined\<close>, without any call of the analytics API and without a
  change of the cache. A read of the cache returns a value only up to the expiry of its
  entry, never past it.
\<close>

theorem cache_ttl_respected:
  assumes key: "cache_key ep = Some k"
    and u1: "req_user e1 = Some u1"
    and first: "api ep e1 c0 = (r1, calls1, c1)"
    and fetched: "calls1 \<noteq> []"
    and ok: "status r1 = 200"
    and u2: "req_user e2 = Some u2"
  shows "c1 k = Some (body r1, clock_set e1 + 1000 * cache_ttl ep)
     \<and> (clock_has e2 \<le> clock_get e2 \<and> clock_get e2 \<le> clock_set e1 + 1000 * cache_ttl ep
          \<longrightarrow> api ep e2 c1 = (json (body r1), [], c1))
     \<and> (clock_set e1 + 1000 * cache_ttl ep < clock_has e2 \<longrightarrow> fst (snd (api ep e2 c1)) \<noteq> [])
     \<and> (clock_has e2 \<le> clock_set e1 + 1000 * cache_ttl ep
          \<and> clock_set e1 + 1000 * cache_ttl ep < clock_get e2
          \<longrightarrow> api ep e2 c1 = (\<lparr>status = 200, body = Undefined\<rparr>, [], c1))
     \<and> (cache_get c t k' = Some v \<longrightarrow> (\<exists>expiresAt. c k' = Some (v, expiresAt) \<and> t \<le> expiresAt))"
proof -
  let ?exp = "clock_set e1 + 1000 * cache_ttl ep"
  have h1: "handler ep e1 u1 c0 = (r1, calls1, c1)"
    using first u1 by (simp add: api_authenticated)
  have miss1: "\<not> cache_has c0 (clock_has e1) k"
  proof
    assume "cache_has c0 (clock_has e1) k"
    from handler_hit[OF key this, of u1] h1 fetched show False by simp
  qed
  from handler_miss[OF key miss1 h1] ok fetched
  have c1: "c1 = cache_set c0 (clock_set e1) k (body r1) (cache_ttl ep)"
    and paths: "\<not> (\<exists>p. ep = StateNews p \<and> isl (state_paths (toLowerCase p)))"
    by simp_all
  have entry: "c1 k = Some (body r1, ?exp)"
    by (simp add: c1 cache_set_def)
  have get: "cache_get c1 t' k = (if t' \<le> ?exp then Some (body r1) else None)" for t'
    by (simp add: c1 cache_get_set)
  have hit: "api ep e2 c1 = (json (body r1), [], c1)"
    if "clock_has e2 \<le> clock_get e2 \<and> clock_get e2 \<le> ?exp"
  proof -
    from that have "cache_has c1 (clock_has e2) k"
      by (simp add: cache_has_def get)
    from handler_hit[OF key this, of u2] that show ?thesis
      by (simp add: api_authenticated[OF u2] get)
  qed
  have again: "fst (snd (api ep e2 c1)) \<noteq> []" if "?exp < clock_has e2"
  proof -
    from that have miss2: "\<not> cache_has c1 (clock_has e2) k"
      by (simp add: cache_has_def get)
    obtain r2 calls2 c2 where h2: "handler ep e2 u2 c1 = (r2, calls2, c2)"
      by (cases "handler ep e2 u2 c1") auto
    from handler_miss[OF key miss2 h2] paths have "calls2 \<noteq> []" by simp
    then show ?thesis by (simp add: api_authenticated[OF u2] h2)
  qed
  have stale: "api ep e2 c1 = (\<lparr>status = 200, body = Undefined\<rparr>, [], c1)"
    if "clock_has e2 \<le> ?exp \<and> ?exp < clock_get e2"
  proof -
    from that have "cache_has c1 (clock_has e2) k"
      by (simp add: cache_has_def get)
    from handler_hit[OF key this, of u2] that show ?thesis
      by (simp add: api_authenticated[OF u2] get json_def)
  qed
  show ?thesis
    using entry hit again stale cache_get_within[of c t k' v] by blast
qed

lemma sample_top_news:
  "api TopNews (request_at (Some sample_user) upstream_rows 1000) Map.empty =
     (json (Arr [Obj [(''rank'', NumV (Num 1)), (''title'', Str ''5''), (''activeUsers'', NumV (Num 3))],
                 Obj [(''rank'', NumV (Num 2)), (''title'', Str ''0''), (''activeUsers'', NumV (Num 7))]]),
      [top_news_call (request_at (Some sample_user) upstream_rows 1000) sample_user],
      cache_set Map.empty 1000 ''top10''
        (Arr [Obj [(''rank'', NumV (Num 1)), (''title'', Str ''5''), (''activeUsers'', NumV (Num 3))],
              Obj [(''rank'', NumV (Num 2)), (''title'', Str ''0''), (''activeUsers'', NumV (Num 7))]]) 10)"
  by (simp add: api_def requireAuth_def request_at_def top_news_def top_news_miss_def cached_def
      cache_has_def cache_get_def await_def top_news_call_def rows_or_empty_def top_news_row_def
      value_at_def cell_val_def parse_simps Let_def)

theorem cache_ttl_respected_witness:
  "cache_key TopNews = Some ''top10''
   \<and> req_user (request_at (Some sample_user) upstream_rows 1000) = Some sample_user
   \<and> fst (snd (api TopNews (request_at (Some sample_user) upstream_rows 1000) Map.empty)) \<noteq> []
   \<and> status (fst (api TopNews (request_at (Some sample_user) upstream_rows 1000) Map.empty)) = 200
   \<and> clock_get (request_at (Some sample_user) upstream_down 11000) \<le> 1000 + 1000 * cache_ttl TopNews
   \<and> api TopNews (request_at (Some sample_user) upstream_down 11000)
        (snd (snd (api TopNews (request_at (Some sample_user) upstream_rows 1000) Map.empty)))
       = (fst (api TopNews (request_at (Some sample_user) upstream_rows 1000) Map.empty), [],
          snd (snd (api TopNews (request_at (Some sample_user) upstream_rows 1000) Map.empty)))
   \<and> 1000 + 1000 * cache_ttl TopNews < clock_has (request_at (Some sample_user) upstream_down 11001)
   \<and> fst (snd (api TopNews (request_at (Some sample_user) upstream_down 11001)
        (snd (snd (api TopNews (request_at (Some sample_user) upstream_rows 1000) Map.empty)))))
       \<noteq> []
   \<and> clock_has (late_get (request_at (Some sample_user) upstream_rows 11000) 11001)
       \<le> 1000 + 1000 * cache_ttl TopNews
   \<and> 1000 + 1000 * cache_ttl TopNews
       < clock_get (late_get (request_at (Some sample_user) upstream_rows 11000) 11001)
   \<and> api TopNews (late_get (request_at (Some sample_user) upstream_rows 11000) 11001)
        (snd (snd (api TopNews (request_at (Some sample_user) upstream_rows 1000) Map.empty)))
       = (\<lparr>status = 200, body = Undefined\<rparr>, [],
          snd (snd (api TopNews (request_at (Some sample_user) upstream_rows 1000) Map.empty)))"
proof -
  let ?e1 = "request_at (Some sample_user) upstream_rows 1000"
  let ?e2 = "request_at (Some sample_user) upstream_down 11000"
  let ?e3 = "request_at (Some sample_user) upstream_down 11001"
  let ?e4 = "late_get (request_at (Some sample_user) upstream_rows 11000) 11001"
  obtain r1 calls1 c1 where a: "api TopNews ?e1 Map.empty = (r1, calls1, c1)"
    by (cases "api TopNews ?e1 Map.empty") auto
  have key: "cache_key TopNews = Some ''top10''" by simp
  have u: "req_user ?e1 = Some sample_user" "req_user ?e2 = Some sample_user"
    "req_user ?e3 = Some sample_user" "req_user ?e4 = Some sample_user"
    by (simp_all add: request_at_def late_get_def)
  have fetched: "calls1 \<noteq> []" and ok: "status r1 = 200"
    using a by (auto simp: sample_top_news json_def)
  have t1: "clock_set ?e1 = 1000" by (simp add: request_at_def)
  have t2: "clock_has ?e2 \<le> clock_get ?e2 \<and> clock_get ?e2 \<le> clock_set ?e1 + 1000 * cache_ttl TopNews"
    by (simp add: request_at_def)
  have t3: "clock_set ?e1 + 1000 * cache_ttl TopNews < clock_has ?e3"
    by (simp add: request_at_def)
  from cache_ttl_respected[OF key u(1) a fetched ok u(2)] t2
  have hit: "api TopNews ?e2 c1 = (json (body r1), [], c1)" by blast
  have t4: "clock_has ?e4 \<le> clock_set ?e1 + 1000 * cache_ttl TopNews
      \<and> clock_set ?e1 + 1000 * cache_ttl TopNews < clock_get ?e4"
    by (simp add: request_at_def late_get_def)
  from cache_ttl_respected[OF key u(1) a fetched ok u(3)] t3
  have again: "fst (snd (api TopNews ?e3 c1)) \<noteq> []" by blast
  from cache_ttl_respected[OF key u(1) a fetched ok u(4)] t4
  have stale: "api TopNews ?e4 c1 = (\<lparr>status = 200, body = Undefined\<rparr>, [], c1)" by blast
  have r1: "json (body r1) = r1"
    using ok by (cases r1) (simp add: json_def)
  show ?thesis
    using key u(1) fetched ok hit again t2 t3 t4 stale by (simp add: a r1 t1)
qed

text \<open>
  The claim as first stated has every read after the time to live invoke the analytics API
  again. The handler takes the clock twice, in \<^verbatim>\<open>cache.has(k)\<close> and in \<^verbatim>\<open>cache.get(k)\<close>: a
  response stored at 1000 ms with a time to live of 10 s expires at 11000 ms; a request
  whose \<^verbatim>\<open>has\<close> reads the clock at 11000 ms and whose \<^verbatim>\<open>get\<close> reads it at 11001 ms finds the
  key, gets nothing, and answers 200 with \<^verbatim>\<open>undefined\<close> without any call of the analytics
  API, where a request that reads the clock at 11001 ms both times calls it.
\<close>

theorem cache_straddle_counterexample:
  "fst (snd (api TopNews (request_at (Some sample_user) upstream_rows 1000) Map.empty)) =
     [top_news_call (request_at (Some sample_user) upstream_rows 1000) sample_user]
   \<and> snd (snd (api TopNews (request_at (Some sample_user) upstream_rows 1000) Map.empty)) ''top10'' =
       Some (Arr [Obj [(''rank'', NumV (Num 1)), (''title'', Str ''5''), (''activeUsers'', NumV (Num 3))],
                  Obj [(''rank'', NumV (Num 2)), (''title'', Str ''0''), (''activeUsers'', NumV (Num 7))]],
             1000 + 1000 * 10)
   \<and> clock_get (late_get (request_at (Some sample_user) upstream_rows 11000) 11001) = 11001
   \<and> cache_get (snd (snd (api TopNews (request_at (Some sample_user) upstream_rows 1000) Map.empty)))
         11001 ''top10'' = None
   \<and> api TopNews (late_get (request_at (Some sample_user) upstream_rows 11000) 11001)
        (snd (snd (api TopNews (request_at (Some sample_user) upstream_rows 1000) Map.empty)))
       = (\<lparr>status = 200, body = Undefined\<rparr>, [],
          snd (snd (api TopNews (request_at (Some sample_user) upstream_rows 1000) Map.empty)))
   \<and> fst (snd (api TopNews (request_at (Some sample_user) upstream_rows 11001)
        (snd (snd (api TopNews (request_at (Some sample_user) upstream_rows 1000) Map.empty))))) =
       [top_news_call (request_at (Some sample_user) upstream_rows 11001) sample_user]"
  unfolding sample_top_news snd_conv fst_conv
  by (simp add: api_def requireAuth_def request_at_def late_get_def top_news_def top_news_miss_def
      cached_def cache_has_def cache_get_def cache_set_def await_def top_news_call_def
      rows_or_empty_def top_news_row_def value_at_def cell_val_def parse_simps Let_def json_def)

section \<open>Properties of the author discovery\<close>

lemma startsWith_prefix: "startsWith s p \<longleftrightarrow> prefix p s"
  by (induction s p rule: startsWith.induct) auto

lemma includes_str_sublist: "includes_str h n \<longleftrightarrow> sublist n h"
  by (induction h) (auto simp: startsWith_prefix sublist_Cons_right)

lemma sublist_separator:
  assumes "sep \<notin> set w"
  shows "sublist w (a @ sep # b) \<longleftrightarrow> sublist w a \<or> sublist w b"
proof
  assume "sublist w (a @ sep # b)"
  then consider "sublist w a" | "sublist w (sep # b)"
    | xs1 xs2 where "w = xs1 @ xs2" "suffix xs1 a" "prefix xs2 (sep # b)"
    by (auto simp: sublist_append)
  then show "sublist w a \<or> sublist w b"
  proof cases
    case 1
    then show ?thesis by simp
  next
    case 2
    then have "prefix w (sep # b) \<or> sublist w b" by (simp add: sublist_Cons_right)
    moreover have "w = []" if "prefix w (sep # b)"
      using that assms by (cases w) auto
    ultimately show ?thesis by auto
  next
    case 3
    have "xs2 = []"
      using 3(1,3) assms by (cases xs2) auto
    with 3 show ?thesis by auto
  qed
next
  assume "sublist w a \<or> sublist w b"
  then show "sublist w (a @ sep # b)"
    by (auto simp: sublist_append sublist_Cons_right)
qed

lemma sublist_map_iff: "sublist w (map f xs) \<longleftrightarrow> (\<exists>w'. sublist w' xs \<and> map f w' = w)"
proof
  assume "sublist w (map f xs)"
  then obtain ps ss where "map f xs = ps @ (w @ ss)" by (auto simp: sublist_def)
  then obtain us vs where uv: "xs = us @ vs" "w @ ss = map f vs"
    unfolding map_eq_append_conv by blast
  from uv(2) obtain w' ss' where "vs = w' @ ss'" "w = map f w'"
    unfolding append_eq_map_conv by blast
  with uv(1) have "sublist w' xs" "map f w' = w" by (auto simp: sublist_def)
  then show "\<exists>w'. sublist w' xs \<and> map f w' = w" by blast
next
  assume "\<exists>w'. sublist w' xs \<and> map f w' = w"
  then show "sublist w (map f xs)" using map_mono_sublist by blast
qed

lemma lower_char_space: "lower_char (CHR '' '') = CHR '' ''"
  by (simp add: lower_char_def)

lemma author_text_parts:
  "author_text d =
     toLowerCase (to_String (apiName d)) @ CHR '' '' # toLowerCase (str_or_empty (uiName d))
       @ CHR '' '' # toLowerCase (str_or_empty (description d))"
  by (simp add: author_text_def toLowerCase_def lower_char_space)

lemma includes_author_text:
  assumes "CHR '' '' \<notin> set w"
  shows "includes_str (author_text d) w \<longleftrightarrow>
           (\<exists>f \<in> set [to_String (apiName d), str_or_empty (uiName d), str_or_empty (description d)].
              \<exists>w'. sublist w' f \<and> toLowerCase w' = w)"
proof -
  have "includes_str (author_text d) w \<longleftrightarrow>
          sublist w (toLowerCase (to_String (apiName d)))
          \<or> sublist w (toLowerCase (str_or_empty (uiName d)))
          \<or> sublist w (toLowerCase (str_or_empty (description d)))"
    using assms by (simp add: includes_str_sublist author_text_parts sublist_separator)
  then show ?thesis
    by (simp add: toLowerCase_def sublist_map_iff)
qed

lemma author_like_iff:
  "author_like d \<longleftrightarrow>
     (\<exists>w \<in> set [''author'', ''writer'', ''byline''].
      \<exists>f \<in> set [to_String (apiName d), str_or_empty (uiName d), str_or_empty (description d)].
        \<exists>w'. sublist w' f \<and> toLowerCase w' = w)"
proof -
  have "CHR '' '' \<notin> set ''author''" "CHR '' '' \<notin> set ''writer''" "CHR '' '' \<notin> set ''byline''"
    by simp_all
  then have "includes_str (author_text d) w \<longleftrightarrow>
           (\<exists>f \<in> set [to_String (apiName d), str_or_empty (uiName d), str_or_empty (description d)].
              \<exists>w'. sublist w' f \<and> toLowerCase w' = w)"
    if "w \<in> set [''author'', ''writer'', ''byline'']" for w
    using that includes_author_text[of w d] by auto
  then show ?thesis
    unfolding author_like_def Let_def by simp
qed

lemma find_filter: "find P (filter Q xs) = find (\<lambda>x. Q x \<and> P x) xs"
  by (induction xs) auto

lemma authorDim_find:
  "authorDim ds = find (\<lambda>d. is_custom d \<and> author_like d) (case ds of None \<Rightarrow> [] | Some xs \<Rightarrow> xs)"
  by (simp add: authorDim_def customDims_def find_filter)

lemma dimsToTry_found:
  assumes "await e (metadata_call e u) = Inr meta"
  shows "dimsToTry (foundDim e u) =
           (case authorDim (data_dimensions meta) of
              None \<Rightarrow> guesses
            | Some d \<Rightarrow> [to_String (apiName d)])"
proof (cases "authorDim (data_dimensions meta)")
  case None
  with assms show ?thesis by (simp add: foundDim_def dimsToTry_def)
next
  case (Some d)
  then have "is_custom d"
    by (auto simp: authorDim_find dest: find_Some_iff[THEN iffD1])
  then obtain a where "apiName d = Some a" "a \<noteq> []"
    by (auto simp: is_custom_def split: option.splits)
  with assms Some show ?thesis
    by (simp add: foundDim_def dimsToTry_def to_String_def)
qed

lemma dimsToTry_failed:
  "await e (metadata_call e u) = Inl err \<Longrightarrow> dimsToTry (foundDim e u) = guesses"
  by (simp add: foundDim_def dimsToTry_def)

lemma byline_custom:
  "is_custom \<lparr>apiName = Some ''customEvent:byline_test'', uiName = ui, description = de\<rparr>"
  by (simp add: is_custom_def)

lemma byline_author_like:
  "author_like \<lparr>apiName = Some ''customEvent:byline_test'', uiName = ui, description = de\<rparr>"
proof -
  have "sublist ''byline'' ''customEvent:byline_test''"
    unfolding sublist_def
    by (rule exI[of _ "''customEvent:''"], rule exI[of _ "''_test''"]) simp
  moreover have "toLowerCase ''byline'' = ''byline''"
    by (simp add: toLowerCase_def lower_char_def)
  ultimately show ?thesis
    unfolding author_like_iff by (auto simp: to_String_def)
qed

lemma capital_cases:
  "l \<in> set ''abcdefghijklmnopqrstuvwxyz'' \<Longrightarrow>
   \<exists>u. capital l = Some u \<and> (of_char u :: nat) + 32 = of_char l
       \<and> 65 \<le> (of_char u :: nat) \<and> (of_char u :: nat) \<le> 90"
  by (auto simp: capital_def)

lemma lower_char_ascii:
  assumes "97 \<le> (of_char l :: nat)" and "(of_char l :: nat) \<le> 122"
  shows "lower_char c = l \<longleftrightarrow> c = l \<or> (of_char c :: nat) + 32 = of_char l"
proof -
  let ?n = "of_char c :: nat"
  have lt: "?n < 256" by simp
  show ?thesis
  proof (cases "(65 \<le> ?n \<and> ?n \<le> 90) \<or> (192 \<le> ?n \<and> ?n \<le> 222 \<and> ?n \<noteq> 215)")
    case True
    then have lc: "lower_char c = char_of (?n + 32)" by (auto simp: lower_char_def Let_def)
    have "char_of (?n + 32) = l \<longleftrightarrow> ?n + 32 = of_char l"
    proof
      assume "char_of (?n + 32) = l"
      then have "(of_char (char_of (?n + 32)) :: nat) = of_char l" by simp
      moreover have "?n + 32 < 256" using True by auto
      ultimately show "?n + 32 = of_char l" by simp
    next
      assume "?n + 32 = of_char l"
      then have "char_of (?n + 32) = (char_of (of_char l :: nat) :: char)" by simp
      then show "char_of (?n + 32) = l" by simp
    qed
    moreover have "c \<noteq> l" using True assms by auto
    ultimately show ?thesis using lc by simp
  next
    case False
    then have "lower_char c = c" by (auto simp: lower_char_def Let_def)
    moreover have "?n + 32 \<noteq> of_char l" using False assms by auto
    ultimately show ?thesis by auto
  qed
qed

lemma lower_char_same_letter:
  assumes "l \<in> set ''abcdefghijklmnopqrstuvwxyz''"
  shows "lower_char c = l \<longleftrightarrow> same_letter c l"
proof -
  from capital_cases[OF assms] obtain u where u: "capital l = Some u"
    "(of_char u :: nat) + 32 = of_char l" "65 \<le> (of_char u :: nat)" "(of_char u :: nat) \<le> 90"
    by blast
  then have "97 \<le> (of_char l :: nat)" "(of_char l :: nat) \<le> 122" by auto
  then have "lower_char c = l \<longleftrightarrow> c = l \<or> (of_char c :: nat) + 32 = of_char l"
    by (rule lower_char_ascii)
  also have "(of_char c :: nat) + 32 = of_char l \<longleftrightarrow> c = u"
  proof
    assume "(of_char c :: nat) + 32 = of_char l"
    with u(2) have "(of_char c :: nat) + 32 = of_char u + 32" by (simp only:)
    then have "(of_char c :: nat) = of_char u" by (simp only: add_right_cancel)
    then show "c = u" by simp
  next
    assume "c = u"
    with u(2) show "(of_char c :: nat) + 32 = of_char l" by simp
  qed
  finally show ?thesis using u(1) by (auto simp: same_letter_def)
qed

lemma map_lower_same_letter:
  "set w \<subseteq> set ''abcdefghijklmnopqrstuvwxyz'' \<Longrightarrow>
   map lower_char part = w \<longleftrightarrow> list_all2 same_letter part w"
proof (induction part arbitrary: w)
  case Nil
  then show ?case by auto
next
  case (Cons c cs)
  show ?case
  proof (cases w)
    case Nil
    then show ?thesis by simp
  next
    case (Cons l ls)
    with Cons.prems have l: "l \<in> set ''abcdefghijklmnopqrstuvwxyz''"
      and ls: "set ls \<subseteq> set ''abcdefghijklmnopqrstuvwxyz''" by auto
    from Cons.IH[OF ls] lower_char_same_letter[OF l, of c] Cons show ?thesis by simp
  qed
qed

lemma includes_lower_iff:
  assumes "set w \<subseteq> set ''abcdefghijklmnopqrstuvwxyz''"
  shows "includes_str (toLowerCase s) w \<longleftrightarrow> contains_ignoring_case s w"
  using map_lower_same_letter[OF assms]
  by (simp add: includes_str_sublist toLowerCase_def sublist_map_iff contains_ignoring_case_def)

lemma contains_Nil: "w \<noteq> [] \<Longrightarrow> \<not> contains_ignoring_case [] w"
  by (auto simp: contains_ignoring_case_def)

lemma is_custom_iff: "is_custom d \<longleftrightarrow> (\<exists>a. apiName d = Some a \<and> prefix ''custom'' a)"
  by (cases "apiName d") (auto simp: is_custom_def startsWith_prefix)

lemma needles_lower:
  "w \<in> set [''author'', ''writer'', ''byline''] \<Longrightarrow> set w \<subseteq> set ''abcdefghijklmnopqrstuvwxyz''"
  by auto

lemma undefined_no_needle:
  "w \<in> set [''author'', ''writer'', ''byline''] \<Longrightarrow> \<not> contains_ignoring_case ''undefined'' w"
proof -
  assume w: "w \<in> set [''author'', ''writer'', ''byline'']"
  have "\<not> includes_str (toLowerCase ''undefined'') ''author''"
    "\<not> includes_str (toLowerCase ''undefined'') ''writer''"
    "\<not> includes_str (toLowerCase ''undefined'') ''byline''"
    by code_simp+
  with w have "\<not> includes_str (toLowerCase ''undefined'') w" by auto
  then show ?thesis using includes_lower_iff[OF needles_lower[OF w]] by simp
qed

lemma author_like_words:
  "author_like d \<longleftrightarrow>
     (\<exists>w \<in> set [''author'', ''writer'', ''byline''].
      \<exists>s. (apiName d = Some s \<or> uiName d = Some s \<or> description d = Some s)
          \<and> contains_ignoring_case s w)"
proof -
  have part: "(\<exists>w'. sublist w' f \<and> toLowerCase w' = w) \<longleftrightarrow> contains_ignoring_case f w"
    if "w \<in> set [''author'', ''writer'', ''byline'']" for w f
    using map_lower_same_letter[OF needles_lower[OF that]]
    by (simp add: toLowerCase_def contains_ignoring_case_def)
  have field: "contains_ignoring_case (str_or_empty x) w \<longleftrightarrow> (\<exists>s. x = Some s \<and> contains_ignoring_case s w)"
    if "w \<in> set [''author'', ''writer'', ''byline'']" for w x
  proof (cases x)
    case None
    from that have "w \<noteq> []" by auto
    with None show ?thesis by (simp add: str_or_empty_def contains_Nil)
  next
    case (Some s)
    then show ?thesis by (simp add: str_or_empty_def)
  qed
  have name: "contains_ignoring_case (to_String x) w \<longleftrightarrow> (\<exists>s. x = Some s \<and> contains_ignoring_case s w)"
    if "w \<in> set [''author'', ''writer'', ''byline'']" for w x
  proof (cases x)
    case None
    with undefined_no_needle[OF that] show ?thesis by (simp add: to_String_def)
  next
    case (Some s)
    then show ?thesis by (simp add: to_String_def)
  qed
  let ?N = "set [''author'', ''writer'', ''byline'']"
  have "author_like d \<longleftrightarrow>
     (\<exists>w \<in> ?N.
      \<exists>f \<in> set [to_String (apiName d), str_or_empty (uiName d), str_or_empty (description d)].
        \<exists>w'. sublist w' f \<and> toLowerCase w' = w)"
    by (rule author_like_iff)
  also have "\<dots> \<longleftrightarrow>
     (\<exists>w \<in> ?N.
        contains_ignoring_case (to_String (apiName d)) w
        \<or> contains_ignoring_case (str_or_empty (uiName d)) w
        \<or> contains_ignoring_case (str_or_empty (description d)) w)"
  proof (rule bex_cong[OF refl])
    fix w assume "w \<in> ?N"
    from part[OF this]
    show "(\<exists>f \<in> set [to_String (apiName d), str_or_empty (uiName d), str_or_empty (description d)].
        \<exists>w'. sublist w' f \<and> toLowerCase w' = w)
      \<longleftrightarrow> contains_ignoring_case (to_String (apiName d)) w
        \<or> contains_ignoring_case (str_or_empty (uiName d)) w
        \<or> contains_ignoring_case (str_or_empty (description d)) w"
      by (simp only: set_simps bex_simps Bex_def insert_iff empty_iff) blast
  qed
  also have "\<dots> \<longleftrightarrow>
     (\<exists>w \<in> ?N.
      \<exists>s. (apiName d = Some s \<or> uiName d = Some s \<or> description d = Some s)
          \<and> contains_ignoring_case s w)"
  proof (rule bex_cong[OF refl])
    fix w assume w: "w \<in> ?N"
    show "contains_ignoring_case (to_String (apiName d)) w
        \<or> contains_ignoring_case (str_or_empty (uiName d)) w
        \<or> contains_ignoring_case (str_or_empty (description d)) w
      \<longleftrightarrow> (\<exists>s. (apiName d = Some s \<or> uiName d = Some s \<or> description d = Some s)
          \<and> contains_ignoring_case s w)"
      unfolding name[OF w] field[OF w] by blast
  qed
  finally show ?thesis .
qed

lemma dimsToTry_found_custom:
  assumes "await e (metadata_call e u) = Inr meta"
  shows "(case find (\<lambda>d. (\<exists>a. apiName d = Some a \<and> prefix ''custom'' a) \<and> author_like d)
                  (case data_dimensions meta of None \<Rightarrow> [] | Some xs \<Rightarrow> xs) of
             None \<Rightarrow> dimsToTry (foundDim e u) = guesses
           | Some d \<Rightarrow> \<exists>a. apiName d = Some a \<and> dimsToTry (foundDim e u) = [a])"
proof -
  have f: "find (\<lambda>d. (\<exists>a. apiName d = Some a \<and> prefix ''custom'' a) \<and> author_like d)
                  (case data_dimensions meta of None \<Rightarrow> [] | Some xs \<Rightarrow> xs)
             = authorDim (data_dimensions meta)"
    by (simp add: authorDim_find is_custom_iff)
  show ?thesis
  proof (cases "authorDim (data_dimensions meta)")
    case None
    with dimsToTry_found[OF assms] show ?thesis by (simp add: f)
  next
    case (Some d)
    then have "is_custom d"
      by (auto simp: authorDim_find dest: find_Some_iff[THEN iffD1])
    then obtain a where "apiName d = Some a" by (auto simp: is_custom_iff)
    with dimsToTry_found[OF assms] Some show ?thesis by (simp add: f to_String_def)
  qed
qed

lemma author_like_description:
  "author_like \<lparr>apiName = Some ''customUser:d2'', uiName = None,
                 description = Some ''The ByLine shown''\<rparr>"
  by code_simp

lemma author_like_name_capitals:
  "author_like \<lparr>apiName = Some ''customEvent:AUTHOR_id'', uiName = None, description = None\<rparr>"
  by code_simp

lemma author_like_section:
  "\<not> author_like \<lparr>apiName = Some ''customEvent:section'', uiName = Some ''Section'',
                   description = Some ''News desk''\<rparr>"
  by code_simp

lemma author_like_split:
  "\<not> author_like \<lparr>apiName = Some ''customEvent:auth'', uiName = Some ''or'', description = None\<rparr>"
  by code_simp

lemma sample_dimensions_found:
  "find (\<lambda>d. is_custom d \<and> author_like d) sample_dimensions =
     Some \<lparr>apiName = Some ''customEvent:dim7'', uiName = Some ''Article WRITER'',
           description = None\<rparr>"
  by code_simp

text \<open>
  C8. A dimension mentions an author when its API name, its UI name or its description,
  where present, contains \<^verbatim>\<open>author\<close>, \<^verbatim>\<open>writer\<close> or \<^verbatim>\<open>byline\<close> with each letter in either
  case (\<open>contains_ignoring_case\<close>). The discoverer takes the first dimension of the
  metadata whose API name starts with \<^verbatim>\<open>custom\<close> and that mentions an author. When there
  is one, the list of candidates is its API name alone, so that no hardcoded guess is
  tried; when there is none, or the metadata cannot be fetched, the candidates are the six
  hardcoded guesses. For the custom dimensions \<^verbatim>\<open>[{apiName: "customEvent:byline_test"}]\<close>
  the candidates are exactly \<^verbatim>\<open>customEvent:byline_test\<close>; among five dimensions the one
  found is the first custom one, which has \<^verbatim>\<open>WRITER\<close> in its UI name only. A description
  with \<^verbatim>\<open>ByLine\<close> and an API name with \<^verbatim>\<open>AUTHOR\<close> mention an author; a word split between
  the API name and the UI name does not.
\<close>

theorem author_dimension_discovered:
  "(author_like d \<longleftrightarrow>
      (\<exists>w \<in> set [''author'', ''writer'', ''byline''].
       \<exists>s. (apiName d = Some s \<or> uiName d = Some s \<or> description d = Some s)
           \<and> contains_ignoring_case s w))
   \<and> (await e (metadata_call e u) = Inr meta \<longrightarrow>
        (case find (\<lambda>d. (\<exists>a. apiName d = Some a \<and> prefix ''custom'' a) \<and> author_like d)
                (case data_dimensions meta of None \<Rightarrow> [] | Some xs \<Rightarrow> xs) of
           None \<Rightarrow>
             dimsToTry (foundDim e u) =
               [''customUser:author'', ''customEvent:author'', ''customUser:Author'',
                ''customEvent:Author'', ''customUser:writer'', ''customEvent:writer'']
         | Some d \<Rightarrow> \<exists>a. apiName d = Some a \<and> dimsToTry (foundDim e u) = [a]))
   \<and> (await e (metadata_call e u) = Inl err \<longrightarrow>
        dimsToTry (foundDim e u) =
          [''customUser:author'', ''customEvent:author'', ''customUser:Author'',
           ''customEvent:Author'', ''customUser:writer'', ''customEvent:writer''])
   \<and> (upstream e (metadata_call e u) =
          Inr \<lparr>data_rows = rs,
               data_dimensions = Some [\<lparr>apiName = Some ''customEvent:byline_test'', uiName = ui,
                                        description = de\<rparr>]\<rparr>
        \<longrightarrow> dimsToTry (foundDim e u) = [''customEvent:byline_test''])
   \<and> (upstream e (metadata_call e u) =
          Inr \<lparr>data_rows = rs,
               data_dimensions =
                 Some [\<lparr>apiName = Some ''authorName'', uiName = Some ''Author'', description = None\<rparr>,
                       \<lparr>apiName = None, uiName = Some ''Writer'', description = Some ''byline''\<rparr>,
                       \<lparr>apiName = Some ''customEvent:section'', uiName = Some ''Section'',
                         description = Some ''News desk''\<rparr>,
                       \<lparr>apiName = Some ''customEvent:dim7'', uiName = Some ''Article WRITER'',
                         description = None\<rparr>,
                       \<lparr>apiName = Some ''customEvent:byline_test'', uiName = None,
                         description = None\<rparr>]\<rparr>
        \<longrightarrow> dimsToTry (foundDim e u) = [''customEvent:dim7''])
   \<and> author_like \<lparr>apiName = Some ''customUser:d2'', uiName = None,
                   description = Some ''The ByLine shown''\<rparr>
   \<and> author_like \<lparr>apiName = Some ''customEvent:AUTHOR_id'', uiName = None, description = None\<rparr>
   \<and> \<not> author_like \<lparr>apiName = Some ''customEvent:section'', uiName = Some ''Section'',
                     description = Some ''News desk''\<rparr>
   \<and> \<not> author_like \<lparr>apiName = Some ''customEvent:auth'', uiName = Some ''or'',
                     description = None\<rparr>"
proof (intro conjI impI)
  show "author_like d \<longleftrightarrow>
      (\<exists>w \<in> set [''author'', ''writer'', ''byline''].
       \<exists>s. (apiName d = Some s \<or> uiName d = Some s \<or> description d = Some s)
           \<and> contains_ignoring_case s w)"
    by (rule author_like_words)
next
  assume "await e (metadata_call e u) = Inr meta"
  from dimsToTry_found_custom[OF this, unfolded guesses_def]
  show "case find (\<lambda>d. (\<exists>a. apiName d = Some a \<and> prefix ''custom'' a) \<and> author_like d)
                (case data_dimensions meta of None \<Rightarrow> [] | Some xs \<Rightarrow> xs) of
           None \<Rightarrow>
             dimsToTry (foundDim e u) =
               [''customUser:author'', ''customEvent:author'', ''customUser:Author'',
                ''customEvent:Author'', ''customUser:writer'', ''customEvent:writer'']
         | Some d \<Rightarrow> \<exists>a. apiName d = Some a \<and> dimsToTry (foundDim e u) = [a]" .
next
  assume "await e (metadata_call e u) = Inl err"
  then show "dimsToTry (foundDim e u) =
          [''customUser:author'', ''customEvent:author'', ''customUser:Author'',
           ''customEvent:Author'', ''customUser:writer'', ''customEvent:writer'']"
    by (simp add: dimsToTry_failed guesses_def)
next
  let ?d = "\<lparr>apiName = Some ''customEvent:byline_test'', uiName = ui, description = de\<rparr>"
  assume "upstream e (metadata_call e u) = Inr \<lparr>data_rows = rs, data_dimensions = Some [?d]\<rparr>"
  then have "await e (metadata_call e u) = Inr \<lparr>data_rows = rs, data_dimensions = Some [?d]\<rparr>"
    by (simp add: await_def)
  from dimsToTry_found[OF this]
  show "dimsToTry (foundDim e u) = [''customEvent:byline_test'']"
    using byline_custom[of ui de] byline_author_like[of ui de]
    by (simp add: authorDim_find to_String_def)
next
  assume "upstream e (metadata_call e u) =
          Inr \<lparr>data_rows = rs,
               data_dimensions =
                 Some [\<lparr>apiName = Some ''authorName'', uiName = Some ''Author'', description = None\<rparr>,
                       \<lparr>apiName = None, uiName = Some ''Writer'', description = Some ''byline''\<rparr>,
                       \<lparr>apiName = Some ''customEvent:section'', uiName = Some ''Section'',
                         description = Some ''News desk''\<rparr>,
                       \<lparr>apiName = Some ''customEvent:dim7'', uiName = Some ''Article WRITER'',
                         description = None\<rparr>,
                       \<lparr>apiName = Some ''customEvent:byline_test'', uiName = None,
                         description = None\<rparr>]\<rparr>"
  then have "await e (metadata_call e u) = Inr \<lparr>data_rows = rs, data_dimensions = Some sample_dimensions\<rparr>"
    by (simp add: await_def sample_dimensions_def)
  from dimsToTry_found[OF this]
  show "dimsToTry (foundDim e u) = [''customEvent:dim7'']"
    by (simp add: authorDim_find sample_dimensions_found to_String_def)
next
  show "author_like \<lparr>apiName = Some ''customUser:d2'', uiName = None,
                   description = Some ''The ByLine shown''\<rparr>"
    by (rule author_like_description)
  show "author_like \<lparr>apiName = Some ''customEvent:AUTHOR_id'', uiName = None, description = None\<rparr>"
    by (rule author_like_name_capitals)
  show "\<not> author_like \<lparr>apiName = Some ''customEvent:section'', uiName = Some ''Section'',
                     description = Some ''News desk''\<rparr>"
    by (rule author_like_section)
  show "\<not> author_like \<lparr>apiName = Some ''customEvent:auth'', uiName = Some ''or'',
                     description = None\<rparr>"
    by (rule author_like_split)
qed

lemma sample_meta_attempt: "attempt (request_at uo upstream_meta t) sample_user dim = []"
  by (simp add: attempt_def tryDimension_def await_def author_call_def request_at_def
      shortlist_def no_data_def rows_or_empty_def)

theorem author_dimension_discovered_witness:
  "await (request_at (Some sample_user) upstream_meta 0)
       (metadata_call (request_at (Some sample_user) upstream_meta 0) sample_user)
     = Inr \<lparr>data_rows = None, data_dimensions = Some sample_dimensions\<rparr>
   \<and> dimsToTry (foundDim (request_at (Some sample_user) upstream_meta 0) sample_user)
       = [''customEvent:dim7'']
   \<and> fst (snd (api TopAuthors (request_at (Some sample_user) upstream_meta 0) no_entries))
       = [metadata_call (request_at (Some sample_user) upstream_meta 0) sample_user,
          author_call (request_at (Some sample_user) upstream_meta 0) sample_user
            ''customEvent:dim7'']
   \<and> await (request_at (Some sample_user) upstream_rows 0)
       (metadata_call (request_at (Some sample_user) upstream_rows 0) sample_user)
     = Inr \<lparr>data_rows = None,
            data_dimensions = Some [\<lparr>apiName = Some ''customEvent:byline_test'', uiName = None,
                                     description = None\<rparr>]\<rparr>
   \<and> dimsToTry (foundDim (request_at (Some sample_user) upstream_rows 0) sample_user)
       = [''customEvent:byline_test'']
   \<and> await (request_at (Some sample_user) upstream_down 0)
       (metadata_call (request_at (Some sample_user) upstream_down 0) sample_user)
     = Inl (Rejected ''unavailable'')
   \<and> dimsToTry (foundDim (request_at (Some sample_user) upstream_down 0) sample_user)
       = [''customUser:author'', ''customEvent:author'', ''customUser:Author'',
          ''customEvent:Author'', ''customUser:writer'', ''customEvent:writer'']"
proof -
  let ?m = "request_at (Some sample_user) upstream_meta 0"
  let ?e = "request_at (Some sample_user) upstream_rows 0"
  let ?e2 = "request_at (Some sample_user) upstream_down 0"
  let ?meta = "\<lparr>data_rows = None,
            data_dimensions = Some [\<lparr>apiName = Some ''customEvent:byline_test'', uiName = None,
                                     description = None\<rparr>]\<rparr>"
  have upm: "upstream ?m (metadata_call ?m sample_user)
      = Inr \<lparr>data_rows = None, data_dimensions = Some sample_dimensions\<rparr>"
    by (simp add: request_at_def metadata_call_def)
  then have awm: "await ?m (metadata_call ?m sample_user)
      = Inr \<lparr>data_rows = None, data_dimensions = Some sample_dimensions\<rparr>"
    by (simp add: await_def)
  have up: "upstream ?e (metadata_call ?e sample_user) = Inr ?meta"
    by (simp add: request_at_def metadata_call_def)
  then have aw: "await ?e (metadata_call ?e sample_user) = Inr ?meta"
    by (simp add: await_def)
  have down: "await ?e2 (metadata_call ?e2 sample_user) = Inl (Rejected ''unavailable'')"
    by (simp add: await_def request_at_def upstream_down_def)
  note t = author_dimension_discovered
  from t[of _ ?m sample_user _ _ None _ _, THEN conjunct2, THEN conjunct2, THEN conjunct2,
      THEN conjunct2, THEN conjunct1, THEN mp] upm
  have dim7: "dimsToTry (foundDim ?m sample_user) = [''customEvent:dim7'']"
    by (simp add: sample_dimensions_def)
  from t[of _ ?e sample_user _ _ None None None, THEN conjunct2, THEN conjunct2, THEN conjunct2,
      THEN conjunct1, THEN mp, OF up]
  have byline: "dimsToTry (foundDim ?e sample_user) = [''customEvent:byline_test'']" .
  from t[of _ ?e2 sample_user _ "Rejected ''unavailable''", THEN conjunct2, THEN conjunct2,
      THEN conjunct1, THEN mp, OF down]
  have gs: "dimsToTry (foundDim ?e2 sample_user)
       = [''customUser:author'', ''customEvent:author'', ''customUser:Author'',
          ''customEvent:Author'', ''customUser:writer'', ''customEvent:writer'']" .
  have u: "req_user ?m = Some sample_user" by (simp add: request_at_def)
  have miss: "\<not> cache_has no_entries (clock_has ?m) ''authors''"
    by (simp add: cache_has_def cache_get_def no_entries_def)
  have calls: "fst (snd (api TopAuthors ?m no_entries))
       = [metadata_call ?m sample_user, author_call ?m sample_user ''customEvent:dim7'']"
    by (simp add: api_authenticated[OF u] top_authors_on_miss[OF miss] dim7 sample_meta_attempt)
  from awm dim7 calls aw byline down gs show ?thesis by (intro conjI)
qed

section \<open>Properties of the top authors\<close>

lemma trim_Nil_iff: "trim s = [] \<longleftrightarrow> (\<forall>c \<in> set s. is_ws c)"
proof -
  have "trim s = [] \<longleftrightarrow> (\<forall>c \<in> set (dropWhile is_ws s). is_ws c)"
    by (simp add: trim_def dropWhile_eq_Nil_conv)
  also have "\<dots> \<longleftrightarrow> dropWhile is_ws s = []"
  proof
    assume all: "\<forall>c \<in> set (dropWhile is_ws s). is_ws c"
    show "dropWhile is_ws s = []"
    proof (rule ccontr)
      assume ne: "dropWhile is_ws s \<noteq> []"
      then have "\<not> is_ws (hd (dropWhile is_ws s))" by (rule hd_dropWhile)
      moreover have "hd (dropWhile is_ws s) \<in> set (dropWhile is_ws s)" using ne by simp
      ultimately show False using all by blast
    qed
  next
    assume "dropWhile is_ws s = []"
    then show "\<forall>c \<in> set (dropWhile is_ws s). is_ws c" by (simp only: set_simps ball_empty)
  qed
  also have "\<dots> \<longleftrightarrow> (\<forall>c \<in> set s. is_ws c)"
    by (simp add: dropWhile_eq_Nil_conv)
  finally show ?thesis .
qed

lemma named_iff:
  "named n \<longleftrightarrow>
     (\<exists>s. n = Some s \<and> s \<noteq> ''(not set)'' \<and> s \<noteq> ''(not provided)'' \<and> \<not> (\<forall>c \<in> set s. is_ws c))"
  by (cases n) (auto simp: named_def trim_Nil_iff)

lemma value_at_opt: "value_at xs i = Inr n \<Longrightarrow> value_opt xs i = n"
  by (auto simp: value_at_def value_opt_def split: if_splits)

lemma filter_named_Inr:
  "filter_named rs = Inr ks \<Longrightarrow> ks = filter (\<lambda>r. named (value_opt (dimensionValues r) 0)) rs"
proof (induction rs arbitrary: ks)
  case Nil
  then show ?case by simp
next
  case (Cons r rs)
  from Cons.prems obtain n ks' where n: "value_at (dimensionValues r) 0 = Inr n"
    and ks': "filter_named rs = Inr ks'" and ks: "ks = (if named n then r # ks' else ks')"
    by (auto split: sum.splits)
  from Cons.IH[OF ks'] value_at_opt[OF n] ks show ?case by simp
qed

lemma filter_named_total:
  "\<forall>r \<in> set rs. dimensionValues r \<noteq> [] \<Longrightarrow> \<exists>ks. filter_named rs = Inr ks"
  by (induction rs) (auto simp: value_at_def)

lemma map_index_length: "map_index f i rs = Inr vs \<Longrightarrow> length vs = length rs"
  by (induction rs arbitrary: i vs) (auto split: sum.splits)

lemma map_index_nth:
  "map_index f i rs = Inr vs \<Longrightarrow> j < length rs \<Longrightarrow> f (i + j) (rs ! j) = Inr (vs ! j)"
proof (induction rs arbitrary: i vs j)
  case Nil
  then show ?case by simp
next
  case (Cons r rs)
  from Cons.prems(1) obtain v vs' where v: "f i r = Inr v" "map_index f (Suc i) rs = Inr vs'"
    "vs = v # vs'"
    by (auto split: sum.splits)
  show ?case
  proof (cases j)
    case 0
    then show ?thesis using v by simp
  next
    case (Suc j')
    with Cons.prems(2) have "j' < length rs" by simp
    from Cons.IH[OF v(2) this] show ?thesis using v Suc by simp
  qed
qed

lemma map_index_total:
  "(\<And>i r. r \<in> set rs \<Longrightarrow> \<exists>v. f i r = Inr v) \<Longrightarrow> \<exists>vs. map_index f i rs = Inr vs"
proof (induction rs arbitrary: i)
  case Nil
  then show ?case by simp
next
  case (Cons r rs)
  from Cons.prems[of r i] obtain v where v: "f i r = Inr v" by auto
  have "\<exists>vs. map_index f (Suc i) rs = Inr vs"
    by (rule Cons.IH) (simp add: Cons.prems)
  then obtain vs where "map_index f (Suc i) rs = Inr vs" by blast
  with v show ?case by simp
qed

lemma author_row_Inr:
  "author_row i r = Inr v \<Longrightarrow>
   v = Obj [(''rank'', NumV (Num (int i + 1))),
            (''name'', cell_val (value_opt (dimensionValues r) 0)),
            (''views'', NumV (parseInt_value (value_opt (metricValues r) 0))),
            (''articles'', NumV (parseInt_value (value_opt (metricValues r) 1)))]"
  by (auto simp: author_row_def split: sum.splits dest!: value_at_opt)

lemma author_row_total:
  "dimensionValues r \<noteq> [] \<Longrightarrow> 2 \<le> length (metricValues r) \<Longrightarrow> \<exists>v. author_row i r = Inr v"
  by (auto simp: author_row_def value_at_def)

lemma shortlist_Inr:
  "shortlist rs = Inr ks \<Longrightarrow>
   ks = take 6 (filter (\<lambda>r. named (value_opt (dimensionValues r) 0)) (rows_or_empty rs))"
  by (auto simp: shortlist_def split: sum.splits dest: filter_named_Inr)

lemma tryDimension_Inr:
  assumes "tryDimension e u dim = Inr out"
  shows "\<exists>d. upstream e (author_call e u dim) = Inr d
           \<and> length out = length (take 6 (filter (\<lambda>r. named (value_opt (dimensionValues r) 0))
                                    (rows_or_empty (data_rows d))))
           \<and> length out \<le> 6
           \<and> (\<forall>i < length out.
                 out ! i =
                   (let r = take 6 (filter (\<lambda>r. named (value_opt (dimensionValues r) 0))
                                    (rows_or_empty (data_rows d))) ! i
                    in Obj [(''rank'', NumV (Num (int i + 1))),
                            (''name'', cell_val (value_opt (dimensionValues r) 0)),
                            (''views'', NumV (parseInt_value (value_opt (metricValues r) 0))),
                            (''articles'', NumV (parseInt_value (value_opt (metricValues r) 1)))]))"
proof -
  from assms obtain d ks where d: "upstream e (author_call e u dim) = Inr d"
    and ks: "shortlist (data_rows d) = Inr ks" and out: "map_index author_row 0 ks = Inr out"
    by (auto simp: tryDimension_def await_def split: sum.splits)
  let ?ks = "take 6 (filter (\<lambda>r. named (value_opt (dimensionValues r) 0))
                                    (rows_or_empty (data_rows d)))"
  have ks': "ks = ?ks" using ks by (rule shortlist_Inr)
  have len: "length out = length ks" using out by (rule map_index_length)
  have nth: "out ! i =
        Obj [(''rank'', NumV (Num (int i + 1))),
            (''name'', cell_val (value_opt (dimensionValues (ks ! i)) 0)),
            (''views'', NumV (parseInt_value (value_opt (metricValues (ks ! i)) 0))),
            (''articles'', NumV (parseInt_value (value_opt (metricValues (ks ! i)) 1)))]"
    if "i < length out" for i
  proof -
    from that len have "i < length ks" by simp
    from map_index_nth[OF out this] have "author_row i (ks ! i) = Inr (out ! i)" by simp
    then show ?thesis by (rule author_row_Inr)
  qed
  have "length out \<le> 6" using len ks' by simp
  with d len nth show ?thesis unfolding ks' Let_def by blast
qed

lemma tryDimension_total:
  assumes "upstream e (author_call e u dim) = Inr d"
    and "\<forall>r \<in> set (rows_or_empty (data_rows d)). dimensionValues r \<noteq> [] \<and> 2 \<le> length (metricValues r)"
  shows "\<exists>out. tryDimension e u dim = Inr out"
proof -
  from assms(2) obtain ks where ks: "filter_named (rows_or_empty (data_rows d)) = Inr ks"
    using filter_named_total by blast
  then have "set ks \<subseteq> set (rows_or_empty (data_rows d))"
    by (auto dest: filter_named_Inr)
  then have "\<exists>v. author_row i r = Inr v" if "r \<in> set (take 6 ks)" for i r
    using that assms(2) author_row_total by (meson in_set_takeD subsetD)
  then obtain out where "map_index author_row 0 (take 6 ks) = Inr out"
    using map_index_total[of "take 6 ks" author_row 0] by blast
  with assms(1) ks show ?thesis
    by (simp add: tryDimension_def await_def shortlist_def)
qed

lemma try_dims_rows:
  "fst (try_dims e u dims) =
     (case find (\<lambda>dim. attempt e u dim \<noteq> []) dims of None \<Rightarrow> [] | Some dim \<Rightarrow> attempt e u dim)"
  by (induction dims) (auto simp: Let_def split: prod.splits)

lemma try_dims_calls:
  "snd (try_dims e u dims) =
     map (author_call e u)
       (takeWhile (\<lambda>dim. attempt e u dim = []) dims
          @ take 1 (dropWhile (\<lambda>dim. attempt e u dim = []) dims))"
  by (induction dims) (auto simp: Let_def split: prod.splits)

lemma attempt_Nil_iff:
  "attempt e u dim = [] \<longleftrightarrow> (\<forall>out. tryDimension e u dim = Inr out \<longrightarrow> out = [])"
  by (cases "tryDimension e u dim") (auto simp: attempt_def)

lemma top_authors_status: "status (fst (top_authors e u c)) = 200"
  by (simp add: top_authors_def cached_def top_authors_miss_def json_def split: prod.splits)

lemma try_dims_none:
  "\<forall>dim \<in> set dims. attempt e u dim = [] \<Longrightarrow> fst (try_dims e u dims) = []"
  by (induction dims) (auto simp: Let_def split: prod.splits)

lemma is_ws_set:
  "is_ws c \<longleftrightarrow> c \<in> set [CHR 0x09, CHR 0x0A, CHR 0x0B, CHR 0x0C, CHR 0x0D, CHR '' '', CHR 0xA0]"
  by (simp add: is_ws_def)

lemma named_words:
  "named n \<longleftrightarrow>
     (\<exists>s. n = Some s \<and> s \<noteq> ''(not set)'' \<and> s \<noteq> ''(not provided)''
          \<and> \<not> set s \<subseteq> set [CHR 0x09, CHR 0x0A, CHR 0x0B, CHR 0x0C, CHR 0x0D, CHR '' '', CHR 0xA0])"
proof -
  have "(\<forall>c \<in> set s. is_ws c) \<longleftrightarrow>
        set s \<subseteq> set [CHR 0x09, CHR 0x0A, CHR 0x0B, CHR 0x0C, CHR 0x0D, CHR '' '', CHR 0xA0]" for s
    unfolding is_ws_set by blast
  then show ?thesis unfolding named_iff by simp
qed

lemma named_samples:
  "\<not> named None" "\<not> named (Some [])" "\<not> named (Some ''   '')"
  "\<not> named (Some [CHR 0xA0, CHR 0x09])" "\<not> named (Some ''(not set)'')"
  "\<not> named (Some ''(not provided)'')" "named (Some '' Meera '')" "named (Some ''(Not Set)'')"
  by (simp_all add: named_def trim_def is_ws_def)

lemma shortlist_author_rows:
  "shortlist (Some author_rows) =
       Inr [\<lparr>dimensionValues = [Some ''Asha''], metricValues = [Some ''80'', Some ''20'']\<rparr>,
            \<lparr>dimensionValues = [Some ''Ravi''], metricValues = [Some ''40'', Some ''14'']\<rparr>,
            \<lparr>dimensionValues = [Some '' Meera ''], metricValues = [Some ''30'', Some ''13'']\<rparr>,
            \<lparr>dimensionValues = [Some ''Kabir''], metricValues = [Some ''20'', Some ''12'']\<rparr>,
            \<lparr>dimensionValues = [Some ''Zoya''], metricValues = [Some ''10'', Some ''11'']\<rparr>,
            \<lparr>dimensionValues = [Some ''(Not Set)''], metricValues = [Some ''9'', Some ''10'']\<rparr>]"
  by (simp add: shortlist_def rows_or_empty_def author_rows_def value_at_def named_samples
      named_def trim_def is_ws_def)

text \<open>
  C3. A dimension value is a placeholder when it is absent, empty, made of white space
  only (TAB, LF, VT, FF, CR, SP and the no-break space), \<^verbatim>\<open>(not set)\<close> or
  \<^verbatim>\<open>(not provided)\<close>; three blanks and a no-break space followed by a TAB are placeholders,
  a name between blanks and \<^verbatim>\<open>(Not Set)\<close> are not. For a candidate dimension the handler
  keeps the rows whose value is not a placeholder, in order, and of these at most the
  first 6: of thirteen rows with seven names it keeps the first six names. It returns
  them whenever the rows of the report are well formed. The candidates are tried in order:
  a failed candidate counts as one without rows, the result is that of the first
  candidate with at least one row, and no candidate after it is queried. The response of
  the endpoint always has status 200; when every candidate fails or yields no row, its
  body is the empty list.
\<close>

theorem top_authors_first_candidate:
  "(named n \<longleftrightarrow>
      (\<exists>s. n = Some s \<and> s \<noteq> ''(not set)'' \<and> s \<noteq> ''(not provided)''
           \<and> \<not> set s \<subseteq> set [CHR 0x09, CHR 0x0A, CHR 0x0B, CHR 0x0C, CHR 0x0D, CHR '' '',
                                 CHR 0xA0]))
   \<and> \<not> named None
   \<and> \<not> named (Some [])
   \<and> \<not> named (Some ''   '')
   \<and> \<not> named (Some [CHR 0xA0, CHR 0x09])
   \<and> \<not> named (Some ''(not set)'')
   \<and> \<not> named (Some ''(not provided)'')
   \<and> named (Some '' Meera '')
   \<and> named (Some ''(Not Set)'')
   \<and> shortlist (Some author_rows) =
       Inr [\<lparr>dimensionValues = [Some ''Asha''], metricValues = [Some ''80'', Some ''20'']\<rparr>,
            \<lparr>dimensionValues = [Some ''Ravi''], metricValues = [Some ''40'', Some ''14'']\<rparr>,
            \<lparr>dimensionValues = [Some '' Meera ''], metricValues = [Some ''30'', Some ''13'']\<rparr>,
            \<lparr>dimensionValues = [Some ''Kabir''], metricValues = [Some ''20'', Some ''12'']\<rparr>,
            \<lparr>dimensionValues = [Some ''Zoya''], metricValues = [Some ''10'', Some ''11'']\<rparr>,
            \<lparr>dimensionValues = [Some ''(Not Set)''], metricValues = [Some ''9'', Some ''10'']\<rparr>]
   \<and> (tryDimension e u dim = Inr out \<longrightarrow>
        (\<exists>d. upstream e (author_call e u dim) = Inr d
           \<and> length out = length (take 6 (filter (\<lambda>r. named (value_opt (dimensionValues r) 0))
                                    (rows_or_empty (data_rows d))))
           \<and> length out \<le> 6
           \<and> (\<forall>i < length out.
                 out ! i =
                   (let r = take 6 (filter (\<lambda>r. named (value_opt (dimensionValues r) 0))
                                    (rows_or_empty (data_rows d))) ! i
                    in Obj [(''rank'', NumV (Num (int i + 1))),
                            (''name'', cell_val (value_opt (dimensionValues r) 0)),
                            (''views'', NumV (parseInt_value (value_opt (metricValues r) 0))),
                            (''articles'', NumV (parseInt_value (value_opt (metricValues r) 1)))]))))
   \<and> (upstream e (author_call e u dim) = Inr d'
        \<and> (\<forall>r \<in> set (rows_or_empty (data_rows d')).
              dimensionValues r \<noteq> [] \<and> 2 \<le> length (metricValues r))
        \<longrightarrow> (\<exists>out'. tryDimension e u dim = Inr out'))
   \<and> (attempt e u dim = [] \<longleftrightarrow> (\<forall>out'. tryDimension e u dim = Inr out' \<longrightarrow> out' = []))
   \<and> fst (try_dims e u dims) =
       (case find (\<lambda>dim. attempt e u dim \<noteq> []) dims of
          None \<Rightarrow> []
        | Some dim \<Rightarrow> attempt e u dim)
   \<and> snd (try_dims e u dims) =
       map (author_call e u)
         (takeWhile (\<lambda>dim. attempt e u dim = []) dims
            @ take 1 (dropWhile (\<lambda>dim. attempt e u dim = []) dims))
   \<and> (req_user e = Some u \<longrightarrow> status (fst (api TopAuthors e c)) = 200)
   \<and> (req_user e = Some u \<and> \<not> cache_has c (clock_has e) ''authors'' \<longrightarrow>
        api TopAuthors e c =
          (json (Arr (fst (try_dims e u (dimsToTry (foundDim e u))))),
           metadata_call e u # snd (try_dims e u (dimsToTry (foundDim e u))),
           cache_set c (clock_set e) ''authors''
             (Arr (fst (try_dims e u (dimsToTry (foundDim e u))))) 300))
   \<and> (req_user e = Some u \<and> \<not> cache_has c (clock_has e) ''authors''
        \<and> (\<forall>dim \<in> set (dimsToTry (foundDim e u)). attempt e u dim = [])
        \<longrightarrow> fst (api TopAuthors e c) = \<lparr>status = 200, body = Arr []\<rparr>)"
proof (intro conjI)
  show "named n \<longleftrightarrow>
      (\<exists>s. n = Some s \<and> s \<noteq> ''(not set)'' \<and> s \<noteq> ''(not provided)''
           \<and> \<not> set s \<subseteq> set [CHR 0x09, CHR 0x0A, CHR 0x0B, CHR 0x0C, CHR 0x0D, CHR '' '',
                                 CHR 0xA0])"
    by (rule named_words)
  show "\<not> named None" "\<not> named (Some [])" "\<not> named (Some ''   '')"
    "\<not> named (Some [CHR 0xA0, CHR 0x09])" "\<not> named (Some ''(not set)'')"
    "\<not> named (Some ''(not provided)'')" "named (Some '' Meera '')" "named (Some ''(Not Set)'')"
    by (rule named_samples)+
  show "shortlist (Some author_rows) =
       Inr [\<lparr>dimensionValues = [Some ''Asha''], metricValues = [Some ''80'', Some ''20'']\<rparr>,
            \<lparr>dimensionValues = [Some ''Ravi''], metricValues = [Some ''40'', Some ''14'']\<rparr>,
            \<lparr>dimensionValues = [Some '' Meera ''], metricValues = [Some ''30'', Some ''13'']\<rparr>,
            \<lparr>dimensionValues = [Some ''Kabir''], metricValues = [Some ''20'', Some ''12'']\<rparr>,
            \<lparr>dimensionValues = [Some ''Zoya''], metricValues = [Some ''10'', Some ''11'']\<rparr>,
            \<lparr>dimensionValues = [Some ''(Not Set)''], metricValues = [Some ''9'', Some ''10'']\<rparr>]"
    by (rule shortlist_author_rows)
  show "tryDimension e u dim = Inr out \<longrightarrow>
        (\<exists>d. upstream e (author_call e u dim) = Inr d
           \<and> length out = length (take 6 (filter (\<lambda>r. named (value_opt (dimensionValues r) 0))
                                    (rows_or_empty (data_rows d))))
           \<and> length out \<le> 6
           \<and> (\<forall>i < length out.
                 out ! i =
                   (let r = take 6 (filter (\<lambda>r. named (value_opt (dimensionValues r) 0))
                                    (rows_or_empty (data_rows d))) ! i
                    in Obj [(''rank'', NumV (Num (int i + 1))),
                            (''name'', cell_val (value_opt (dimensionValues r) 0)),
                            (''views'', NumV (parseInt_value (value_opt (metricValues r) 0))),
                            (''articles'', NumV (parseInt_value (value_opt (metricValues r) 1)))])))"
    using tryDimension_Inr[of e u dim out] by blast
  show "upstream e (author_call e u dim) = Inr d'
        \<and> (\<forall>r \<in> set (rows_or_empty (data_rows d')).
              dimensionValues r \<noteq> [] \<and> 2 \<le> length (metricValues r))
        \<longrightarrow> (\<exists>out'. tryDimension e u dim = Inr out')"
    using tryDimension_total[of e u dim d'] by blast
  show "attempt e u dim = [] \<longleftrightarrow> (\<forall>out'. tryDimension e u dim = Inr out' \<longrightarrow> out' = [])"
    by (rule attempt_Nil_iff)
  show "fst (try_dims e u dims) =
       (case find (\<lambda>dim. attempt e u dim \<noteq> []) dims of
          None \<Rightarrow> []
        | Some dim \<Rightarrow> attempt e u dim)"
    by (rule try_dims_rows)
  show "snd (try_dims e u dims) =
       map (author_call e u)
         (takeWhile (\<lambda>dim. attempt e u dim = []) dims
            @ take 1 (dropWhile (\<lambda>dim. attempt e u dim = []) dims))"
    by (rule try_dims_calls)
  show "req_user e = Some u \<longrightarrow> status (fst (api TopAuthors e c)) = 200"
    by (simp add: api_authenticated top_authors_status)
  show "req_user e = Some u \<and> \<not> cache_has c (clock_has e) ''authors'' \<longrightarrow>
        api TopAuthors e c =
          (json (Arr (fst (try_dims e u (dimsToTry (foundDim e u))))),
           metadata_call e u # snd (try_dims e u (dimsToTry (foundDim e u))),
           cache_set c (clock_set e) ''authors''
             (Arr (fst (try_dims e u (dimsToTry (foundDim e u))))) 300)"
    by (auto simp: api_authenticated top_authors_on_miss)
  show "req_user e = Some u \<and> \<not> cache_has c (clock_has e) ''authors''
        \<and> (\<forall>dim \<in> set (dimsToTry (foundDim e u)). attempt e u dim = [])
        \<longrightarrow> fst (api TopAuthors e c) = \<lparr>status = 200, body = Arr []\<rparr>"
    by (auto simp: api_authenticated top_authors_on_miss try_dims_none json_def)
qed

lemma quota_attempt: "attempt (request_at uo upstream_quota t) sample_user dim = []"
  by (simp add: attempt_def tryDimension_def await_def author_call_def request_at_def)

lemma authors_tryDimension:
  "tryDimension (request_at uo upstream_authors t) sample_user ''customUser:author''
     = Inl (Rejected ''unknown dimension'')"
  "tryDimension (request_at uo upstream_authors t) sample_user ''customEvent:author'' = Inr []"
  "tryDimension (request_at uo upstream_authors t) sample_user ''customUser:Author'' =
     Inr [Obj [(''rank'', NumV (Num 1)), (''name'', Str ''Asha''),
               (''views'', NumV (Num 80)), (''articles'', NumV (Num 20))],
          Obj [(''rank'', NumV (Num 2)), (''name'', Str ''Ravi''),
               (''views'', NumV (Num 40)), (''articles'', NumV (Num 14))],
          Obj [(''rank'', NumV (Num 3)), (''name'', Str '' Meera ''),
               (''views'', NumV (Num 30)), (''articles'', NumV (Num 13))],
          Obj [(''rank'', NumV (Num 4)), (''name'', Str ''Kabir''),
               (''views'', NumV (Num 20)), (''articles'', NumV (Num 12))],
          Obj [(''rank'', NumV (Num 5)), (''name'', Str ''Zoya''),
               (''views'', NumV (Num 10)), (''articles'', NumV (Num 11))],
          Obj [(''rank'', NumV (Num 6)), (''name'', Str ''(Not Set)''),
               (''views'', NumV (Num 9)), (''articles'', NumV (Num 10))]]"
  by (simp_all add: tryDimension_def await_def author_call_def request_at_def shortlist_def
      rows_or_empty_def author_rows_def value_at_def named_def trim_def is_ws_def
      author_row_def cell_val_def parse_simps)

theorem top_authors_first_candidate_witness:
  "tryDimension (request_at (Some sample_user) upstream_authors 0) sample_user ''customUser:Author''
     = Inr [Obj [(''rank'', NumV (Num 1)), (''name'', Str ''Asha''),
                 (''views'', NumV (Num 80)), (''articles'', NumV (Num 20))],
            Obj [(''rank'', NumV (Num 2)), (''name'', Str ''Ravi''),
                 (''views'', NumV (Num 40)), (''articles'', NumV (Num 14))],
            Obj [(''rank'', NumV (Num 3)), (''name'', Str '' Meera ''),
                 (''views'', NumV (Num 30)), (''articles'', NumV (Num 13))],
            Obj [(''rank'', NumV (Num 4)), (''name'', Str ''Kabir''),
                 (''views'', NumV (Num 20)), (''articles'', NumV (Num 12))],
            Obj [(''rank'', NumV (Num 5)), (''name'', Str ''Zoya''),
                 (''views'', NumV (Num 10)), (''articles'', NumV (Num 11))],
            Obj [(''rank'', NumV (Num 6)), (''name'', Str ''(Not Set)''),
                 (''views'', NumV (Num 9)), (''articles'', NumV (Num 10))]]
   \<and> upstream (request_at (Some sample_user) upstream_authors 0)
         (author_call (request_at (Some sample_user) upstream_authors 0) sample_user
            ''customUser:Author'')
       = Inr \<lparr>data_rows = Some author_rows, data_dimensions = None\<rparr>
   \<and> length (filter (\<lambda>r. named (value_opt (dimensionValues r) 0)) author_rows) = 7
   \<and> req_user (request_at (Some sample_user) upstream_authors 0) = Some sample_user
   \<and> \<not> cache_has no_entries (clock_has (request_at (Some sample_user) upstream_authors 0)) ''authors''
   \<and> dimsToTry (foundDim (request_at (Some sample_user) upstream_authors 0) sample_user)
       = [''customUser:author'', ''customEvent:author'', ''customUser:Author'',
          ''customEvent:Author'', ''customUser:writer'', ''customEvent:writer'']
   \<and> attempt (request_at (Some sample_user) upstream_authors 0) sample_user ''customUser:author'' = []
   \<and> attempt (request_at (Some sample_user) upstream_authors 0) sample_user ''customEvent:author'' = []
   \<and> api TopAuthors (request_at (Some sample_user) upstream_authors 0) no_entries
       = (json (Arr [Obj [(''rank'', NumV (Num 1)), (''name'', Str ''Asha''),
                          (''views'', NumV (Num 80)), (''articles'', NumV (Num 20))],
                     Obj [(''rank'', NumV (Num 2)), (''name'', Str ''Ravi''),
                          (''views'', NumV (Num 40)), (''articles'', NumV (Num 14))],
                     Obj [(''rank'', NumV (Num 3)), (''name'', Str '' Meera ''),
                          (''views'', NumV (Num 30)), (''articles'', NumV (Num 13))],
                     Obj [(''rank'', NumV (Num 4)), (''name'', Str ''Kabir''),
                          (''views'', NumV (Num 20)), (''articles'', NumV (Num 12))],
                     Obj [(''rank'', NumV (Num 5)), (''name'', Str ''Zoya''),
                          (''views'', NumV (Num 10)), (''articles'', NumV (Num 11))],
                     Obj [(''rank'', NumV (Num 6)), (''name'', Str ''(Not Set)''),
                          (''views'', NumV (Num 9)), (''articles'', NumV (Num 10))]]),
          [metadata_call (request_at (Some sample_user) upstream_authors 0) sample_user,
           author_call (request_at (Some sample_user) upstream_authors 0) sample_user
             ''customUser:author'',
           author_call (request_at (Some sample_user) upstream_authors 0) sample_user
             ''customEvent:author'',
           author_call (request_at (Some sample_user) upstream_authors 0) sample_user
             ''customUser:Author''],
          cache_set no_entries 0 ''authors''
            (Arr [Obj [(''rank'', NumV (Num 1)), (''name'', Str ''Asha''),
                       (''views'', NumV (Num 80)), (''articles'', NumV (Num 20))],
                  Obj [(''rank'', NumV (Num 2)), (''name'', Str ''Ravi''),
                       (''views'', NumV (Num 40)), (''articles'', NumV (Num 14))],
                  Obj [(''rank'', NumV (Num 3)), (''name'', Str '' Meera ''),
                       (''views'', NumV (Num 30)), (''articles'', NumV (Num 13))],
                  Obj [(''rank'', NumV (Num 4)), (''name'', Str ''Kabir''),
                       (''views'', NumV (Num 20)), (''articles'', NumV (Num 12))],
                  Obj [(''rank'', NumV (Num 5)), (''name'', Str ''Zoya''),
                       (''views'', NumV (Num 10)), (''articles'', NumV (Num 11))],
                  Obj [(''rank'', NumV (Num 6)), (''name'', Str ''(Not Set)''),
                       (''views'', NumV (Num 9)), (''articles'', NumV (Num 10))]]) 300)
   \<and> req_user (request_at (Some sample_user) upstream_quota 0) = Some sample_user
   \<and> \<not> cache_has no_entries (clock_has (request_at (Some sample_user) upstream_quota 0)) ''authors''
   \<and> list_all (\<lambda>dim. attempt (request_at (Some sample_user) upstream_quota 0) sample_user dim = [])
       (dimsToTry (foundDim (request_at (Some sample_user) upstream_quota 0) sample_user))
   \<and> fst (api TopAuthors (request_at (Some sample_user) upstream_quota 0) no_entries)
       = \<lparr>status = 200, body = Arr []\<rparr>
   \<and> length (fst (snd (api TopAuthors (request_at (Some sample_user) upstream_quota 0) no_entries)))
       = 7"
proof -
  let ?q = "request_at (Some sample_user) upstream_quota 0"
  let ?a = "request_at (Some sample_user) upstream_authors 0"
  let ?six = "[Obj [(''rank'', NumV (Num 1)), (''name'', Str ''Asha''),
                    (''views'', NumV (Num 80)), (''articles'', NumV (Num 20))],
               Obj [(''rank'', NumV (Num 2)), (''name'', Str ''Ravi''),
                    (''views'', NumV (Num 40)), (''articles'', NumV (Num 14))],
               Obj [(''rank'', NumV (Num 3)), (''name'', Str '' Meera ''),
                    (''views'', NumV (Num 30)), (''articles'', NumV (Num 13))],
               Obj [(''rank'', NumV (Num 4)), (''name'', Str ''Kabir''),
                    (''views'', NumV (Num 20)), (''articles'', NumV (Num 12))],
               Obj [(''rank'', NumV (Num 5)), (''name'', Str ''Zoya''),
                    (''views'', NumV (Num 10)), (''articles'', NumV (Num 11))],
               Obj [(''rank'', NumV (Num 6)), (''name'', Str ''(Not Set)''),
                    (''views'', NumV (Num 9)), (''articles'', NumV (Num 10))]]"
  note t = top_authors_first_candidate
  have u: "req_user ?q = Some sample_user" "req_user ?a = Some sample_user"
    by (simp_all add: request_at_def)
  have miss: "\<not> cache_has no_entries (clock_has ?q) ''authors''"
    "\<not> cache_has no_entries (clock_has ?a) ''authors''"
    by (simp_all add: cache_has_def cache_get_def no_entries_def)
  have clock: "clock_set ?a = 0" by (simp add: request_at_def)
  have up: "upstream ?a (author_call ?a sample_user ''customUser:Author'')
              = Inr \<lparr>data_rows = Some author_rows, data_dimensions = None\<rparr>"
    by (simp add: request_at_def author_call_def)
  have seven_rows: "length (filter (\<lambda>r. named (value_opt (dimensionValues r) 0)) author_rows) = 7"
    by (simp add: author_rows_def value_opt_def named_samples named_def trim_def is_ws_def)
  have try3: "tryDimension ?a sample_user ''customUser:Author'' = Inr ?six"
    by (rule authors_tryDimension)
  have att: "attempt ?a sample_user ''customUser:author'' = []"
    "attempt ?a sample_user ''customEvent:author'' = []"
    "attempt ?a sample_user ''customUser:Author'' = ?six"
    by (simp_all add: attempt_def authors_tryDimension)
  have none: "\<forall>dim \<in> set (dimsToTry (foundDim ?q sample_user)). attempt ?q sample_user dim = []"
    by (simp add: quota_attempt)
  have dims_q: "dimsToTry (foundDim ?q sample_user) = guesses"
    by (simp add: foundDim_def await_def metadata_call_def request_at_def no_data_def
        authorDim_def customDims_def dimsToTry_def)
  have dims_a: "dimsToTry (foundDim ?a sample_user) = guesses"
    by (simp add: foundDim_def await_def metadata_call_def request_at_def dimsToTry_def)
  from t[of _ ?q sample_user _ _ _ _ no_entries] u(1) miss(1) none
  have empty: "fst (api TopAuthors ?q no_entries) = \<lparr>status = 200, body = Arr []\<rparr>"
    by blast
  from t[of _ ?q sample_user _ _ _ _ no_entries] u(1) miss(1)
  have "api TopAuthors ?q no_entries =
          (json (Arr (fst (try_dims ?q sample_user (dimsToTry (foundDim ?q sample_user))))),
           metadata_call ?q sample_user # snd (try_dims ?q sample_user (dimsToTry (foundDim ?q sample_user))),
           cache_set no_entries (clock_set ?q) ''authors''
             (Arr (fst (try_dims ?q sample_user (dimsToTry (foundDim ?q sample_user))))) 300)"
    by blast
  then have seven: "length (fst (snd (api TopAuthors ?q no_entries))) = 7"
    by (simp add: dims_q guesses_def quota_attempt)
  from t[of _ ?a sample_user _ _ _ guesses no_entries]
  have rows_a: "fst (try_dims ?a sample_user guesses) =
       (case find (\<lambda>dim. attempt ?a sample_user dim \<noteq> []) guesses of
          None \<Rightarrow> []
        | Some dim \<Rightarrow> attempt ?a sample_user dim)"
    and calls_a: "snd (try_dims ?a sample_user guesses) =
       map (author_call ?a sample_user)
         (takeWhile (\<lambda>dim. attempt ?a sample_user dim = []) guesses
            @ take 1 (dropWhile (\<lambda>dim. attempt ?a sample_user dim = []) guesses))"
    by blast+
  have rows_a': "fst (try_dims ?a sample_user guesses) = ?six"
    unfolding rows_a by (simp add: guesses_def att)
  have calls_a': "snd (try_dims ?a sample_user guesses) =
      [author_call ?a sample_user ''customUser:author'',
       author_call ?a sample_user ''customEvent:author'',
       author_call ?a sample_user ''customUser:Author'']"
    unfolding calls_a by (simp add: guesses_def att)
  from t[of _ ?a sample_user _ _ _ _ no_entries] u(2) miss(2)
  have "api TopAuthors ?a no_entries =
          (json (Arr (fst (try_dims ?a sample_user (dimsToTry (foundDim ?a sample_user))))),
           metadata_call ?a sample_user # snd (try_dims ?a sample_user (dimsToTry (foundDim ?a sample_user))),
           cache_set no_entries (clock_set ?a) ''authors''
             (Arr (fst (try_dims ?a sample_user (dimsToTry (foundDim ?a sample_user))))) 300)"
    by blast
  then have found: "api TopAuthors ?a no_entries =
       (json (Arr ?six),
          [metadata_call ?a sample_user, author_call ?a sample_user ''customUser:author'',
           author_call ?a sample_user ''customEvent:author'',
           author_call ?a sample_user ''customUser:Author''],
          cache_set no_entries 0 ''authors'' (Arr ?six) 300)"
    unfolding dims_a rows_a' calls_a' clock .
  show ?thesis
    using try3 up seven_rows u miss(2) miss(1) dims_a[unfolded guesses_def] att(1,2) found
      none empty seven
    by (simp add: list_all_iff)
qed

section \<open>Properties of the state news\<close>

lemma state_news_row_Inr:
  "state_news_row i r = Inr v \<Longrightarrow>
   v = Obj [(''rank'', NumV (Num (int i + 1))),
            (''title'', cell_val (value_opt (dimensionValues r) 0)),
            (''path'', cell_val (value_opt (dimensionValues r) 1)),
            (''views'', NumV (parseInt_value (value_opt (metricValues r) 0)))]"
  by (auto simp: state_news_row_def split: sum.splits dest!: value_at_opt)

lemma matches_OrGroup_contains:
  "matches (OrGroup (map (\<lambda>p. StringFilter name CONTAINS p) paths)) rowval
     \<longleftrightarrow> (\<exists>p \<in> set paths. sublist p (rowval name))"
  by (auto simp: includes_str_sublist)

lemma mp_lower: "toLowerCase ''mp'' = ''mp''"
  by (simp add: toLowerCase_def lower_char_def)

lemma mp_paths: "state_paths ''mp'' = Inr [''/mp/'', ''/state/madhya-pradesh/'']"
  by (simp add: state_paths_def STATE_PATH_MAP_def)

lemma state_news_on_miss:
  assumes "\<not> cache_has c (clock_has e) (''state_'' @ toLowerCase param)"
    and "state_paths (toLowerCase param) = Inr paths"
  shows "fst (snd (state_news param e u c)) = [state_news_call e u paths]"
    and "state_news param e u c = (r, calls, c') \<Longrightarrow> status r = 200 \<Longrightarrow>
         \<exists>d vs. upstream e (state_news_call e u paths) = Inr d \<and> body r = Arr vs
           \<and> length vs = length (rows_or_empty (data_rows d))
           \<and> (\<forall>i < length vs.
                 vs ! i =
                   (let row = rows_or_empty (data_rows d) ! i
                    in Obj [(''rank'', NumV (Num (int i + 1))),
                            (''title'', cell_val (value_opt (dimensionValues row) 0)),
                            (''path'', cell_val (value_opt (dimensionValues row) 1)),
                            (''views'', NumV (parseInt_value (value_opt (metricValues row) 0)))]))"
proof -
  have eq: "state_news param e u c = state_news_miss (toLowerCase param) e u c"
    using assms(1) by (simp add: state_news_def cached_def Let_def)
  show "fst (snd (state_news param e u c)) = [state_news_call e u paths]"
    unfolding eq using assms(2)
    by (auto simp: state_news_miss_def Let_def split: sum.splits)
  assume r: "state_news param e u c = (r, calls, c')" and ok: "status r = 200"
  from r ok obtain d vs where d: "upstream e (state_news_call e u paths) = Inr d"
    and vs: "map_index state_news_row 0 (rows_or_empty (data_rows d)) = Inr vs"
    and b: "body r = Arr vs"
    unfolding eq using assms(2)
    by (auto simp: state_news_miss_def Let_def await_def error_500_def json_def split: sum.splits)
  have len: "length vs = length (rows_or_empty (data_rows d))"
    using vs by (rule map_index_length)
  have "vs ! i =
                   (let row = rows_or_empty (data_rows d) ! i
                    in Obj [(''rank'', NumV (Num (int i + 1))),
                            (''title'', cell_val (value_opt (dimensionValues row) 0)),
                            (''path'', cell_val (value_opt (dimensionValues row) 1)),
                            (''views'', NumV (parseInt_value (value_opt (metricValues row) 0)))])"
    if "i < length vs" for i
  proof -
    from that len have "i < length (rows_or_empty (data_rows d))" by simp
    from map_index_nth[OF vs this]
    have "state_news_row i (rows_or_empty (data_rows d) ! i) = Inr (vs ! i)" by simp
    then show ?thesis unfolding Let_def by (rule state_news_row_Inr)
  qed
  with d b len show "\<exists>d vs. upstream e (state_news_call e u paths) = Inr d \<and> body r = Arr vs
           \<and> length vs = length (rows_or_empty (data_rows d))
           \<and> (\<forall>i < length vs.
                 vs ! i =
                   (let row = rows_or_empty (data_rows d) ! i
                    in Obj [(''rank'', NumV (Num (int i + 1))),
                            (''title'', cell_val (value_opt (dimensionValues row) 0)),
                            (''path'', cell_val (value_opt (dimensionValues row) 1)),
                            (''views'', NumV (parseInt_value (value_opt (metricValues row) 0)))]))"
    by blast
qed

text \<open>
  C7. For the state code \<^verbatim>\<open>mp\<close> the handler asks for the rows whose page path contains
  \<^verbatim>\<open>/mp/\<close> or contains \<^verbatim>\<open>/state/madhya-pradesh/\<close>: the filter of its one request is the OR
  group of the two substring filters on \<^verbatim>\<open>pagePath\<close>, ordered by \<^verbatim>\<open>screenPageViews\<close>
  descending, with limit 5. Such a filter selects a row exactly when its path contains
  one of the two; \<^verbatim>\<open>/state/madhya-pradesh/foo\<close> is selected and \<^verbatim>\<open>/cg/foo\<close> is not. The
  handler returns the rows it receives, all of them and in their order.
\<close>

theorem state_news_mp_filter:
  "state_paths (toLowerCase ''mp'') = Inr [''/mp/'', ''/state/madhya-pradesh/'']
   \<and> state_news_request [''/mp/'', ''/state/madhya-pradesh/''] =
       \<lparr>dateRanges = [(''7daysAgo'', ''today'')],
        metrics = [''screenPageViews''],
        dimensions = [''pageTitle'', ''pagePath''],
        dimensionFilter =
          Some (OrGroup [StringFilter ''pagePath'' CONTAINS ''/mp/'',
                         StringFilter ''pagePath'' CONTAINS ''/state/madhya-pradesh/'']),
        orderBys = [(''screenPageViews'', True)],
        limit = Some 5\<rparr>
   \<and> (matches (OrGroup [StringFilter ''pagePath'' CONTAINS ''/mp/'',
                         StringFilter ''pagePath'' CONTAINS ''/state/madhya-pradesh/'']) rowval
        \<longleftrightarrow> sublist ''/mp/'' (rowval ''pagePath'')
            \<or> sublist ''/state/madhya-pradesh/'' (rowval ''pagePath''))
   \<and> matches (OrGroup [StringFilter ''pagePath'' CONTAINS ''/mp/'',
                        StringFilter ''pagePath'' CONTAINS ''/state/madhya-pradesh/''])
        (\<lambda>name. if name = ''pagePath'' then ''/state/madhya-pradesh/foo'' else [])
   \<and> \<not> matches (OrGroup [StringFilter ''pagePath'' CONTAINS ''/mp/'',
                          StringFilter ''pagePath'' CONTAINS ''/state/madhya-pradesh/''])
        (\<lambda>name. if name = ''pagePath'' then ''/cg/foo'' else [])
   \<and> (req_user e = Some u \<and> \<not> cache_has c (clock_has e) ''state_mp'' \<longrightarrow>
        fst (snd (api (StateNews ''mp'') e c)) =
          [RunReport (accessToken u) (PROP_name e)
             (state_news_request [''/mp/'', ''/state/madhya-pradesh/''])])
   \<and> (req_user e = Some u \<and> \<not> cache_has c (clock_has e) ''state_mp''
        \<and> api (StateNews ''mp'') e c = (r, calls, c') \<and> status r = 200 \<longrightarrow>
        (\<exists>d vs. upstream e (RunReport (accessToken u) (PROP_name e)
                    (state_news_request [''/mp/'', ''/state/madhya-pradesh/''])) = Inr d
           \<and> body r = Arr vs
           \<and> length vs = length (rows_or_empty (data_rows d))
           \<and> (\<forall>i < length vs.
                 vs ! i =
                   (let row = rows_or_empty (data_rows d) ! i
                    in Obj [(''rank'', NumV (Num (int i + 1))),
                            (''title'', cell_val (value_opt (dimensionValues row) 0)),
                            (''path'', cell_val (value_opt (dimensionValues row) 1)),
                            (''views'', NumV (parseInt_value (value_opt (metricValues row) 0)))]))))"
proof (intro conjI)
  show "state_paths (toLowerCase ''mp'') = Inr [''/mp/'', ''/state/madhya-pradesh/'']"
    by (simp add: mp_lower mp_paths)
  show "state_news_request [''/mp/'', ''/state/madhya-pradesh/''] =
       \<lparr>dateRanges = [(''7daysAgo'', ''today'')],
        metrics = [''screenPageViews''],
        dimensions = [''pageTitle'', ''pagePath''],
        dimensionFilter =
          Some (OrGroup [StringFilter ''pagePath'' CONTAINS ''/mp/'',
                         StringFilter ''pagePath'' CONTAINS ''/state/madhya-pradesh/'']),
        orderBys = [(''screenPageViews'', True)],
        limit = Some 5\<rparr>"
    by (simp add: state_news_request_def)
  show "matches (OrGroup [StringFilter ''pagePath'' CONTAINS ''/mp/'',
                         StringFilter ''pagePath'' CONTAINS ''/state/madhya-pradesh/'']) rowval
        \<longleftrightarrow> sublist ''/mp/'' (rowval ''pagePath'')
            \<or> sublist ''/state/madhya-pradesh/'' (rowval ''pagePath'')"
    using matches_OrGroup_contains[of "''pagePath''" "[''/mp/'', ''/state/madhya-pradesh/'']" rowval]
    by simp
  show "matches (OrGroup [StringFilter ''pagePath'' CONTAINS ''/mp/'',
                        StringFilter ''pagePath'' CONTAINS ''/state/madhya-pradesh/''])
        (\<lambda>name. if name = ''pagePath'' then ''/state/madhya-pradesh/foo'' else [])"
    by simp
  show "\<not> matches (OrGroup [StringFilter ''pagePath'' CONTAINS ''/mp/'',
                          StringFilter ''pagePath'' CONTAINS ''/state/madhya-pradesh/''])
        (\<lambda>name. if name = ''pagePath'' then ''/cg/foo'' else [])"
    by simp
  have paths: "state_paths (toLowerCase ''mp'') = Inr [''/mp/'', ''/state/madhya-pradesh/'']"
    by (simp add: mp_lower mp_paths)
  show "req_user e = Some u \<and> \<not> cache_has c (clock_has e) ''state_mp'' \<longrightarrow>
        fst (snd (api (StateNews ''mp'') e c)) =
          [RunReport (accessToken u) (PROP_name e)
             (state_news_request [''/mp/'', ''/state/madhya-pradesh/''])]"
    using state_news_on_miss(1)[of c e "''mp''", OF _ paths, of u]
    by (auto simp: api_authenticated mp_lower state_news_call_def)
  show "req_user e = Some u \<and> \<not> cache_has c (clock_has e) ''state_mp''
        \<and> api (StateNews ''mp'') e c = (r, calls, c') \<and> status r = 200 \<longrightarrow>
        (\<exists>d vs. upstream e (RunReport (accessToken u) (PROP_name e)
                    (state_news_request [''/mp/'', ''/state/madhya-pradesh/''])) = Inr d
           \<and> body r = Arr vs
           \<and> length vs = length (rows_or_empty (data_rows d))
           \<and> (\<forall>i < length vs.
                 vs ! i =
                   (let row = rows_or_empty (data_rows d) ! i
                    in Obj [(''rank'', NumV (Num (int i + 1))),
                            (''title'', cell_val (value_opt (dimensionValues row) 0)),
                            (''path'', cell_val (value_opt (dimensionValues row) 1)),
                            (''views'', NumV (parseInt_value (value_opt (metricValues row) 0)))])))"
    using state_news_on_miss(2)[of c e "''mp''", OF _ paths, of u r calls c']
    by (auto simp: api_authenticated mp_lower state_news_call_def)
qed

lemma sample_state_news:
  "api (StateNews ''mp'') (request_at (Some sample_user) upstream_rows 0) Map.empty =
     (json (Arr [Obj [(''rank'', NumV (Num 1)), (''title'', Str ''(not set)''),
                      (''path'', Str ''/mp/a''), (''views'', NumV (Num 40))],
                 Obj [(''rank'', NumV (Num 2)), (''title'', Str ''Asha''),
                      (''path'', Str ''/mp/b''), (''views'', NumV (Num 25))]]),
      [state_news_call (request_at (Some sample_user) upstream_rows 0) sample_user
         [''/mp/'', ''/state/madhya-pradesh/'']],
      cache_set Map.empty 0 ''state_mp''
        (Arr [Obj [(''rank'', NumV (Num 1)), (''title'', Str ''(not set)''),
                      (''path'', Str ''/mp/a''), (''views'', NumV (Num 40))],
                 Obj [(''rank'', NumV (Num 2)), (''title'', Str ''Asha''),
                      (''path'', Str ''/mp/b''), (''views'', NumV (Num 25))]]) 300)"
  by (simp add: api_def requireAuth_def state_news_def mp_lower mp_paths cached_def
      cache_has_def cache_get_def state_news_miss_def await_def state_news_call_def
      rows_or_empty_def state_news_row_def value_at_def cell_val_def parse_simps Let_def
      request_at_def)

theorem state_news_mp_filter_witness:
  "req_user (request_at (Some sample_user) upstream_rows 0) = Some sample_user
   \<and> \<not> cache_has Map.empty (clock_has (request_at (Some sample_user) upstream_rows 0)) ''state_mp''
   \<and> status (fst (api (StateNews ''mp'') (request_at (Some sample_user) upstream_rows 0) Map.empty))
       = 200
   \<and> fst (snd (api (StateNews ''mp'') (request_at (Some sample_user) upstream_rows 0) Map.empty))
       = [RunReport ''token'' ''properties/123''
            (state_news_request [''/mp/'', ''/state/madhya-pradesh/''])]
   \<and> (\<exists>vs. body (fst (api (StateNews ''mp'') (request_at (Some sample_user) upstream_rows 0)
                          Map.empty)) = Arr vs
         \<and> length vs = 2
         \<and> vs ! 1 = Obj [(''rank'', NumV (Num 2)), (''title'', Str ''Asha''),
                          (''path'', Str ''/mp/b''), (''views'', NumV (Num 25))])"
proof -
  let ?e = "request_at (Some sample_user) upstream_rows 0"
  obtain r calls c' where a: "api (StateNews ''mp'') ?e Map.empty = (r, calls, c')"
    by (cases "api (StateNews ''mp'') ?e Map.empty") auto
  have u: "req_user ?e = Some sample_user" by (simp add: request_at_def)
  have miss: "\<not> cache_has Map.empty (clock_has ?e) ''state_mp''"
    by (simp add: cache_has_def cache_get_def)
  have ok: "status r = 200"
    using a by (auto simp: sample_state_news json_def)
  have tok: "accessToken sample_user = ''token''" "PROP_name ?e = ''properties/123''"
    by (simp_all add: sample_user_def PROP_name_def request_at_def)
  note t = state_news_mp_filter[of _ ?e sample_user Map.empty r calls c']
  from t u miss a
  have calls: "fst (snd (api (StateNews ''mp'') ?e Map.empty)) =
      [RunReport ''token'' ''properties/123'' (state_news_request [''/mp/'', ''/state/madhya-pradesh/''])]"
    unfolding tok by blast
  from t u miss a ok obtain d vs where
    d: "upstream ?e (RunReport ''token'' ''properties/123''
                    (state_news_request [''/mp/'', ''/state/madhya-pradesh/''])) = Inr d"
    and b: "body r = Arr vs" and len: "length vs = length (rows_or_empty (data_rows d))"
    and nth: "\<forall>i < length vs.
                 vs ! i =
                   (let row = rows_or_empty (data_rows d) ! i
                    in Obj [(''rank'', NumV (Num (int i + 1))),
                            (''title'', cell_val (value_opt (dimensionValues row) 0)),
                            (''path'', cell_val (value_opt (dimensionValues row) 1)),
                            (''views'', NumV (parseInt_value (value_opt (metricValues row) 0)))])"
    unfolding tok by blast
  from d have d': "d = \<lparr>data_rows = Some [\<lparr>dimensionValues = [Some ''(not set)'', Some ''/mp/a''],
                               metricValues = [Some ''40'', Some ''9'']\<rparr>,
                             \<lparr>dimensionValues = [Some ''Asha'', Some ''/mp/b''],
                               metricValues = [Some ''25'', Some ''4'']\<rparr>],
          data_dimensions = None\<rparr>"
    by (simp add: request_at_def)
  have len2: "length vs = 2" using len by (simp add: d' rows_or_empty_def)
  with nth have "vs ! 1 = Obj [(''rank'', NumV (Num 2)), (''title'', Str ''Asha''),
                          (''path'', Str ''/mp/b''), (''views'', NumV (Num 25))]"
    by (simp add: d' rows_or_empty_def value_opt_def cell_val_def parse_simps)
  with u miss ok calls b len2 show ?thesis by (simp add: a)
qed

end
